theory Spec2Isabelle
  imports Main "HOL-Library.AList"
begin

chapter \<open>Frame-aware page observation and action dispatch: the model\<close>

text \<open>
  Conventions of the embedding.
  \<^item> A JavaScript \<open>Map\<close> is an association list with distinct keys in insertion order:
    \<open>Map.get\<close> is \<^const>\<open>map_of\<close>, \<open>Map.set\<close> is \<^const>\<open>AList.update\<close> (replace in place
    or append), \<open>Map.delete\<close> is \<^const>\<open>AList.delete\<close>. A \<open>WeakMap\<close>, a \<open>WeakSet\<close> and a
    plain object used as a dictionary cannot be iterated in an order that matters here and
    are partial functions and sets.
  \<^item> \<open>undefined\<close> and \<open>null\<close> of an optional field are \<^const>\<open>None\<close>.
  \<^item> Identifiers that the Chrome DevTools Protocol hands out as JavaScript numbers
    (backend node ids, execution context ids, frame indices) are integers.
  \<^item> A CDP session object is known by its identity; its optional \<open>id\<close> property is kept
    with it.
\<close>

datatype CDPSession = Session (session_ident: string) (session_id: "string option")

section \<open>FrameGraph (frame-graph.ts)\<close>

record FrameRecord =
  frameId :: string
  parentFrameId :: "string option"
  loaderId :: "string option"
  name :: "string option"
  url :: "string option"
  sessionId :: "string option"
  executionContextId :: "int option"
  isolatedWorldId :: "int option"
  backendNodeId :: "int option"
  iframeEncodedId :: "string option"
  lastUpdated :: int

text \<open>The argument of \<open>upsertFrame\<close>: a frame record whose \<open>lastUpdated\<close> is optional.\<close>

record FrameRecordInput =
  in_frameId :: string
  in_parentFrameId :: "string option"
  in_loaderId :: "string option"
  in_name :: "string option"
  in_url :: "string option"
  in_sessionId :: "string option"
  in_executionContextId :: "int option"
  in_isolatedWorldId :: "int option"
  in_backendNodeId :: "int option"
  in_iframeEncodedId :: "string option"
  in_lastUpdated :: "int option"

record FrameGraph =
  frames :: "(string \<times> FrameRecord) list"
  children :: "(string option \<times> string list) list"
  frameIndexMap :: "(int \<times> string) list"
  frameIdToIndex :: "(string \<times> int) list"

definition emptyFrameGraph :: FrameGraph where
  "emptyFrameGraph = \<lparr>frames = [], children = [], frameIndexMap = [], frameIdToIndex = []\<rparr>"

definition getFrame :: "FrameGraph \<Rightarrow> string \<Rightarrow> FrameRecord option" where
  "getFrame g fid = map_of (frames g) fid"

definition getFrameIndex :: "FrameGraph \<Rightarrow> string \<Rightarrow> int option" where
  "getFrameIndex g fid = map_of (frameIdToIndex g) fid"

definition getFrameIdByIndex :: "FrameGraph \<Rightarrow> int \<Rightarrow> string option" where
  "getFrameIdByIndex g index = map_of (frameIndexMap g) index"

definition getChildren :: "FrameGraph \<Rightarrow> string option \<Rightarrow> string list" where
  "getChildren g parent = (case map_of (children g) parent of None \<Rightarrow> [] | Some cs \<Rightarrow> cs)"

definition getAllFrames :: "FrameGraph \<Rightarrow> FrameRecord list" where
  "getAllFrames g = map snd (frames g)"

text \<open>The JavaScript \<open>a ?? b\<close> on optional values.\<close>

definition orElse :: "'a option \<Rightarrow> 'a option \<Rightarrow> 'a option" where
  "orElse a b = (case a of None \<Rightarrow> b | Some x \<Rightarrow> Some x)"

definition updateParentRelation ::
  "string \<Rightarrow> string option \<Rightarrow> string option \<Rightarrow> FrameGraph \<Rightarrow> FrameGraph" where
  "updateParentRelation fid prevParent nextParent g =
     (if prevParent = nextParent then g
      else
        let prevChildren = (case map_of (children g) prevParent of None \<Rightarrow> [] | Some cs \<Rightarrow> cs);
            ch1 = (if prevChildren \<noteq> []
                   then AList.update prevParent (filter (\<lambda>i. i \<noteq> fid) prevChildren) (children g)
                   else children g);
            list = (case map_of ch1 nextParent of None \<Rightarrow> [] | Some cs \<Rightarrow> cs);
            list' = (if fid \<in> set list then list else list @ [fid])
        in g\<lparr>children := AList.update nextParent list' ch1\<rparr>)"

text \<open>\<open>now\<close> is the value of \<open>Date.now()\<close> at the call.\<close>

definition upsertFrame :: "FrameRecordInput \<Rightarrow> int \<Rightarrow> FrameGraph \<Rightarrow> FrameRecord \<times> FrameGraph" where
  "upsertFrame r now g =
     (let existing = map_of (frames g) (in_frameId r);
          merged = \<lparr>frameId = in_frameId r,
                    parentFrameId = in_parentFrameId r,
                    loaderId = orElse (in_loaderId r) (Option.bind existing loaderId),
                    name = orElse (in_name r) (Option.bind existing name),
                    url = orElse (in_url r) (Option.bind existing url),
                    sessionId = orElse (in_sessionId r) (Option.bind existing sessionId),
                    executionContextId = orElse (in_executionContextId r) (Option.bind existing executionContextId),
                    isolatedWorldId = orElse (in_isolatedWorldId r) (Option.bind existing isolatedWorldId),
                    backendNodeId = orElse (in_backendNodeId r) (Option.bind existing backendNodeId),
                    iframeEncodedId = orElse (in_iframeEncodedId r) (Option.bind existing iframeEncodedId),
                    lastUpdated = (case in_lastUpdated r of None \<Rightarrow> now | Some t \<Rightarrow> t)\<rparr>;
          g1 = g\<lparr>frames := AList.update (frameId merged) merged (frames g)\<rparr>
      in (merged, updateParentRelation (frameId merged) (Option.bind existing parentFrameId) (parentFrameId merged) g1))"

lemma length_delete_less:
  "map_of al k = Some v \<Longrightarrow> length (AList.delete k al) < length al"
  by (induction al) (auto simp: le_imp_less_Suc AList.length_delete_le split: if_splits)

text \<open>
  \<open>removeFrame\<close> calls itself on every child of the frame it removes. \<open>removeOne\<close> is
  the body of one call up to the \<open>forEach\<close>: it returns the child ids to visit and the
  graph as that call leaves it. The pending calls are kept as a list, the call stack: the
  frame at its head is removed next, and its children are put in front of the calls that
  were already waiting, which is the order of the \<open>forEach\<close> in the source. A frame id with
  no record returns at once.
\<close>

definition removeOne :: "string \<Rightarrow> FrameRecord \<Rightarrow> FrameGraph \<Rightarrow> string list \<times> FrameGraph" where
  "removeOne fid record g =
     (let g1 = g\<lparr>frames := AList.delete fid (frames g)\<rparr>;
          g2 = (case map_of (children g1) (parentFrameId record) of
                  None \<Rightarrow> g1
                | Some parentChildren \<Rightarrow>
                    g1\<lparr>children := AList.update (parentFrameId record)
                                      (filter (\<lambda>i. i \<noteq> fid) parentChildren) (children g1)\<rparr>);
          g3 = (case map_of (frameIdToIndex g2) fid of
                  None \<Rightarrow> g2
                | Some index \<Rightarrow>
                    g2\<lparr>frameIndexMap := AList.delete index (frameIndexMap g2),
                       frameIdToIndex := AList.delete fid (frameIdToIndex g2)\<rparr>);
          childIds = (case map_of (children g3) (Some fid) of None \<Rightarrow> [] | Some cs \<Rightarrow> cs);
          g4 = g3\<lparr>children := AList.delete (Some fid) (children g3)\<rparr>
      in (childIds, g4))"

lemma frames_removeOne: "frames (snd (removeOne fid record g)) = AList.delete fid (frames g)"
  by (simp add: removeOne_def Let_def split: option.splits)

function removeFrames :: "string list \<Rightarrow> FrameGraph \<Rightarrow> FrameGraph" where
  "removeFrames [] g = g"
| "removeFrames (fid # pending) g =
     (case map_of (frames g) fid of
        None \<Rightarrow> removeFrames pending g
      | Some record \<Rightarrow>
          removeFrames (fst (removeOne fid record g) @ pending) (snd (removeOne fid record g)))"
  by pat_completeness auto
termination
  apply (relation "measures [\<lambda>(p, g). length (frames g), \<lambda>(p, g). length p]")
    apply simp
   apply simp
  apply (simp add: frames_removeOne length_delete_less)
  done

definition removeFrame :: "string \<Rightarrow> FrameGraph \<Rightarrow> FrameGraph" where
  "removeFrame fid g = removeFrames [fid] g"

definition assignFrameIndex :: "string \<Rightarrow> int \<Rightarrow> FrameGraph \<Rightarrow> FrameGraph" where
  "assignFrameIndex fid index g =
     g\<lparr>frameIndexMap := AList.update index fid (frameIndexMap g),
       frameIdToIndex := AList.update fid index (frameIdToIndex g)\<rparr>"

section \<open>FrameContextManager (frame-context-manager.ts)\<close>

text \<open>
  The manager's frame graph, session table and execution-context tables. The waiter
  promises, the listener registrations and the debug flag hold no frame data and are
  left out.
\<close>

record FrameContextManager =
  graph :: FrameGraph
  sessions :: "(string \<times> CDPSession) list"
  frameExecutionContexts :: "(string \<times> int) list"
  executionContextToFrame :: "(int \<times> string) list"
  oopifFrameIds :: "string list"
  nextFrameIndex :: int

definition newFrameContextManager :: FrameContextManager where
  "newFrameContextManager =
     \<lparr>graph = emptyFrameGraph, sessions = [], frameExecutionContexts = [],
      executionContextToFrame = [], oopifFrameIds = [], nextFrameIndex = 0\<rparr>"

definition manager_upsertFrame ::
  "FrameRecordInput \<Rightarrow> int \<Rightarrow> FrameContextManager \<Rightarrow> FrameRecord \<times> FrameContextManager" where
  "manager_upsertFrame input now m =
     (let (r, g) = upsertFrame (input\<lparr>in_lastUpdated := Some now\<rparr>) now (graph m)
      in (r, m\<lparr>graph := g\<rparr>))"

definition manager_removeFrame :: "string \<Rightarrow> FrameContextManager \<Rightarrow> FrameContextManager" where
  "manager_removeFrame fid m =
     m\<lparr>graph := removeFrame fid (graph m), sessions := AList.delete fid (sessions m)\<rparr>"

definition manager_assignFrameIndex ::
  "string \<Rightarrow> int \<Rightarrow> FrameContextManager \<Rightarrow> FrameContextManager" where
  "manager_assignFrameIndex fid index m =
     m\<lparr>graph := assignFrameIndex fid index (graph m),
       nextFrameIndex := (if index \<ge> nextFrameIndex m then index + 1 else nextFrameIndex m)\<rparr>"

text \<open>A stored record passed back to \<open>upsertFrame\<close> (the spread \<open>{...record}\<close>).\<close>

definition spreadRecord :: "FrameRecord \<Rightarrow> FrameRecordInput" where
  "spreadRecord r =
     \<lparr>in_frameId = frameId r, in_parentFrameId = parentFrameId r, in_loaderId = loaderId r,
      in_name = name r, in_url = url r, in_sessionId = sessionId r,
      in_executionContextId = executionContextId r, in_isolatedWorldId = isolatedWorldId r,
      in_backendNodeId = backendNodeId r, in_iframeEncodedId = iframeEncodedId r,
      in_lastUpdated = Some (lastUpdated r)\<rparr>"

definition setFrameSession ::
  "string \<Rightarrow> CDPSession \<Rightarrow> int \<Rightarrow> FrameContextManager \<Rightarrow> FrameContextManager" where
  "setFrameSession fid session now m =
     (let m1 = m\<lparr>sessions := AList.update fid session (sessions m)\<rparr>
      in case getFrame (graph m1) fid of
           None \<Rightarrow> m1
         | Some record \<Rightarrow>
             m1\<lparr>graph := snd (upsertFrame
                 ((spreadRecord record)\<lparr>in_sessionId := orElse (session_id session) (sessionId record)\<rparr>)
                 now (graph m1))\<rparr>)"

definition getFrameSession :: "FrameContextManager \<Rightarrow> string \<Rightarrow> CDPSession option" where
  "getFrameSession m fid = map_of (sessions m) fid"

definition manager_getFrame :: "FrameContextManager \<Rightarrow> string \<Rightarrow> FrameRecord option" where
  "manager_getFrame m fid = getFrame (graph m) fid"

definition getFrameByBackendNodeId :: "FrameContextManager \<Rightarrow> int \<Rightarrow> FrameRecord option" where
  "getFrameByBackendNodeId m b = find (\<lambda>frame. backendNodeId frame = Some b) (getAllFrames (graph m))"

definition manager_getFrameIdByIndex :: "FrameContextManager \<Rightarrow> int \<Rightarrow> string option" where
  "manager_getFrameIdByIndex m index = getFrameIdByIndex (graph m) index"

definition manager_getFrameIndex :: "FrameContextManager \<Rightarrow> string \<Rightarrow> int option" where
  "manager_getFrameIndex m fid = getFrameIndex (graph m) fid"

definition getExecutionContextId :: "FrameContextManager \<Rightarrow> string \<Rightarrow> int option" where
  "getExecutionContextId m fid = map_of (frameExecutionContexts m) fid"

definition getOOPIFs :: "FrameContextManager \<Rightarrow> FrameRecord list" where
  "getOOPIFs m = filter (\<lambda>frame. frameId frame \<in> set (oopifFrameIds m)) (getAllFrames (graph m))"

definition handlePageFrameDetached :: "string \<Rightarrow> FrameContextManager \<Rightarrow> FrameContextManager" where
  "handlePageFrameDetached fid m =
     (if getFrame (graph m) fid = None then m else manager_removeFrame fid m)"

text \<open>
  The \<open>Runtime.executionContextCreated\<close> listener: \<open>auxFrameId\<close> and \<open>auxType\<close> are
  \<open>event.context.auxData?.frameId\<close> and \<open>?.type\<close>, \<open>cid\<close> is \<open>event.context.id\<close>. An
  empty string is falsy.
\<close>

definition createdHandler ::
  "int \<Rightarrow> string option \<Rightarrow> string option \<Rightarrow> int \<Rightarrow> FrameContextManager \<Rightarrow> FrameContextManager" where
  "createdHandler cid auxFrameId auxType now m =
     (case auxFrameId of
        None \<Rightarrow> m
      | Some fid \<Rightarrow>
          if fid = [] then m
          else if (case auxType of None \<Rightarrow> False | Some t \<Rightarrow> t \<noteq> [] \<and> t \<noteq> ''default'') then m
          else
            let m1 = m\<lparr>frameExecutionContexts := AList.update fid cid (frameExecutionContexts m),
                       executionContextToFrame := AList.update cid fid (executionContextToFrame m)\<rparr>
            in (case getFrame (graph m1) fid of
                  None \<Rightarrow> m1
                | Some record \<Rightarrow>
                    if executionContextId record \<noteq> Some cid
                    then m1\<lparr>graph := snd (upsertFrame
                           ((spreadRecord record)\<lparr>in_executionContextId := Some cid\<rparr>) now (graph m1))\<rparr>
                    else m1))"

text \<open>The \<open>Runtime.executionContextDestroyed\<close> listener.\<close>

definition destroyedHandler :: "int \<Rightarrow> FrameContextManager \<Rightarrow> FrameContextManager" where
  "destroyedHandler cid m =
     (case map_of (executionContextToFrame m) cid of
        None \<Rightarrow> m
      | Some fid \<Rightarrow>
          if fid = [] then m
          else m\<lparr>executionContextToFrame := AList.delete cid (executionContextToFrame m),
                 frameExecutionContexts := AList.delete fid (frameExecutionContexts m)\<rparr>)"



section \<open>Notions used to state the frame-graph properties\<close>

text \<open>
  The \<open>children\<close> table agrees with the parent pointers when every record that names a
  parent is listed among that parent's children.
\<close>

definition children_consistent :: "FrameGraph \<Rightarrow> bool" where
  "children_consistent g \<longleftrightarrow>
     (\<forall>c r p. map_of (frames g) c = Some r \<and> parentFrameId r = Some p \<longrightarrow>
        (\<exists>cs. map_of (children g) (Some p) = Some cs \<and> c \<in> set cs))"

text \<open>\<open>descendant g p d\<close>: following parent pointers from the record of \<open>d\<close> reaches \<open>p\<close>.\<close>

inductive descendant :: "FrameGraph \<Rightarrow> string \<Rightarrow> string \<Rightarrow> bool"
  for g :: FrameGraph and p :: string where
  child: "map_of (frames g) c = Some r \<Longrightarrow> parentFrameId r = Some p \<Longrightarrow> descendant g p c"
| step: "descendant g p c \<Longrightarrow> map_of (frames g) d = Some r \<Longrightarrow> parentFrameId r = Some c
          \<Longrightarrow> descendant g p d"

text \<open>
  The loop invariant of \<open>removeFrames\<close>, relative to the graph \<open>g0\<close> the removal started
  from: records are only deleted; a remaining record with a parent is either still to be
  visited or listed under its parent; a removed frame has no children list left.
\<close>

definition removal_inv :: "FrameGraph \<Rightarrow> string list \<Rightarrow> FrameGraph \<Rightarrow> bool" where
  "removal_inv g0 wl g \<longleftrightarrow>
     (\<forall>c r. map_of (frames g) c = Some r \<longrightarrow> map_of (frames g0) c = Some r) \<and>
     (\<forall>c r p. map_of (frames g) c = Some r \<and> parentFrameId r = Some p \<longrightarrow>
        c \<in> set wl \<or> (\<exists>cs. map_of (children g) (Some p) = Some cs \<and> c \<in> set cs)) \<and>
     (\<forall>p. map_of (frames g0) p \<noteq> None \<and> map_of (frames g) p = None \<longrightarrow>
        map_of (children g) (Some p) = None)"

text \<open>The argument \<open>{frameId, parentFrameId}\<close> of an upsert that sets nothing else.\<close>

definition frameInput :: "string \<Rightarrow> string option \<Rightarrow> FrameRecordInput" where
  "frameInput fid parent =
     \<lparr>in_frameId = fid, in_parentFrameId = parent, in_loaderId = None, in_name = None,
      in_url = None, in_sessionId = None, in_executionContextId = None,
      in_isolatedWorldId = None, in_backendNodeId = None, in_iframeEncodedId = None,
      in_lastUpdated = None\<rparr>"

text \<open>
  A manager that has seen a main frame, a frame \<open>a\<close> inside it, a frame \<open>b\<close> inside \<open>a\<close>,
  the default execution contexts 7 and 8 of \<open>a\<close> and \<open>b\<close>, and the root session for each.
\<close>

definition nested_frames_manager :: FrameContextManager where
  "nested_frames_manager =
     (let m1 = snd (manager_upsertFrame (frameInput ''main'' None) 0 newFrameContextManager);
          m2 = snd (manager_upsertFrame (frameInput ''a'' (Some ''main'')) 1 m1);
          m3 = snd (manager_upsertFrame (frameInput ''b'' (Some ''a'')) 2 m2);
          m4 = setFrameSession ''a'' (Session ''root'' None) 3 m3;
          m5 = setFrameSession ''b'' (Session ''root'' None) 4 m4;
          m6 = createdHandler 7 (Some ''a'') (Some ''default'') 5 m5
      in createdHandler 8 (Some ''b'') (Some ''default'') 6 m6)"

section \<open>DomSnapshotCache (dom-cache.ts)\<close>

text \<open>
  The three \<open>WeakMap\<close>/\<open>WeakSet\<close> tables of the cache, keyed by page. \<open>now\<close> is the value
  of \<open>Date.now()\<close> (milliseconds) at the call.
\<close>

definition MAX_CACHE_AGE_MS :: int where
  "MAX_CACHE_AGE_MS = 1000"

record 'st DomCacheEntry =
  state :: 'st
  timestamp :: int
  version :: int

record ('p, 'st) DomSnapshotCache =
  entries :: "'p \<rightharpoonup> 'st DomCacheEntry"
  versions :: "'p \<rightharpoonup> int"
  dirty :: "'p set"

definition emptyDomSnapshotCache :: "('p, 'st) DomSnapshotCache" where
  "emptyDomSnapshotCache = \<lparr>entries = Map.empty, versions = Map.empty, dirty = {}\<rparr>"

definition cache_invalidate :: "'p \<Rightarrow> ('p, 'st) DomSnapshotCache \<Rightarrow> ('p, 'st) DomSnapshotCache" where
  "cache_invalidate page c =
     (let version = (case versions c page of None \<Rightarrow> 0 | Some v \<Rightarrow> v) + 1
      in c\<lparr>entries := (entries c)(page := None),
           versions := (versions c)(page \<mapsto> version),
           dirty := insert page (dirty c)\<rparr>)"

definition cache_get ::
  "'p \<Rightarrow> int \<Rightarrow> ('p, 'st) DomSnapshotCache \<Rightarrow> 'st option \<times> ('p, 'st) DomSnapshotCache" where
  "cache_get page now c =
     (if page \<in> dirty c then (None, c)
      else case entries c page of
             None \<Rightarrow> (None, c)
           | Some entry \<Rightarrow>
               if now - timestamp entry > MAX_CACHE_AGE_MS then (None, cache_invalidate page c)
               else (Some (state entry), c))"

definition cache_set ::
  "'p \<Rightarrow> 'st \<Rightarrow> int \<Rightarrow> ('p, 'st) DomSnapshotCache \<Rightarrow> ('p, 'st) DomSnapshotCache" where
  "cache_set page st now c =
     (let version = (case versions c page of None \<Rightarrow> 0 | Some v \<Rightarrow> v) + 1
      in c\<lparr>versions := (versions c)(page \<mapsto> version),
           entries := (entries c)(page \<mapsto> \<lparr>state = st, timestamp = now, version = version\<rparr>),
           dirty := dirty c - {page}\<rparr>)"

definition markDomSnapshotDirty :: "'p \<Rightarrow> ('p, 'st) DomSnapshotCache \<Rightarrow> ('p, 'st) DomSnapshotCache" where
  "markDomSnapshotDirty page c = cache_invalidate page c"

text \<open>
  The step of \<open>runAgentTask\<close> that follows \<open>runAction\<close> (agent loop, after the action
  output is back): every action whose type is not read-only marks the page's snapshot
  dirty, whatever the action's outcome.
\<close>

definition READ_ONLY_ACTIONS :: "string set" where
  "READ_ONLY_ACTIONS = {''wait'', ''extract'', ''complete''}"

definition markDirtyAfterAction ::
  "string \<Rightarrow> 'p \<Rightarrow> ('p, 'st) DomSnapshotCache \<Rightarrow> ('p, 'st) DomSnapshotCache" where
  "markDirtyAfterAction actionType page c =
     (if actionType \<notin> READ_ONLY_ACTIONS then markDomSnapshotDirty page c else c)"

text \<open>Calls made on the cache, in the order they happen.\<close>

datatype ('p, 'st) cache_call = Get 'p int | Set 'p 'st int | Invalidate 'p

fun is_set_on :: "'p \<Rightarrow> ('p, 'st) cache_call \<Rightarrow> bool" where
  "is_set_on page (Set q st now) = (q = page)"
| "is_set_on page _ = False"

fun do_call :: "('p, 'st) cache_call \<Rightarrow> ('p, 'st) DomSnapshotCache \<Rightarrow> ('p, 'st) DomSnapshotCache" where
  "do_call (Get page now) c = snd (cache_get page now c)"
| "do_call (Set page st now) c = cache_set page st now c"
| "do_call (Invalidate page) c = cache_invalidate page c"

definition cache_calls ::
  "('p, 'st) cache_call list \<Rightarrow> ('p, 'st) DomSnapshotCache \<Rightarrow> ('p, 'st) DomSnapshotCache" where
  "cache_calls calls c = fold do_call calls c"

text \<open>A cache holding one snapshot, stored for \<open>page\<close> at time 5000.\<close>

definition example_cache :: "(string, string) DomSnapshotCache" where
  "example_cache = cache_set ''page'' ''snapshot S'' 5000 emptyDomSnapshotCache"

section \<open>JavaScript strings and numbers\<close>

text \<open>
  A string is a list of characters, each standing for the UTF-16 code unit of the same
  value; the model covers the strings whose code units are all below 256.

  A JavaScript number is an IEEE 754 double. The numbers met here are integers, infinities
  and NaN: \<open>Num i\<close> is the double whose value is the integer \<open>i\<close> (\<open>-0\<close> and \<open>0\<close> are both
  \<open>Num 0\<close>: they print and test alike in this program).
\<close>

datatype js_number = Num int | PosInfinity | NegInfinity | NaN

definition isDigit :: "char \<Rightarrow> bool" where
  "isDigit c \<longleftrightarrow> (48::nat) \<le> of_char c \<and> of_char c \<le> (57::nat)"

definition digitValue :: "char \<Rightarrow> nat" where
  "digitValue c = of_char c - 48"

definition digitChar :: "nat \<Rightarrow> char" where
  "digitChar d = char_of (48 + d)"

text \<open>White space and line terminators with a code unit below 256.\<close>

definition isWhiteSpace :: "char \<Rightarrow> bool" where
  "isWhiteSpace c \<longleftrightarrow> of_char c \<in> {9, 10, 11, 12, 13, 32, 160 :: nat}"

definition decimalValue :: "string \<Rightarrow> nat" where
  "decimalValue ds = foldl (\<lambda>acc c. acc * 10 + digitValue c) 0 ds"

fun digits10 :: "nat \<Rightarrow> string" where
  "digits10 n = (if n < 10 then [digitChar n] else digits10 (n div 10) @ [digitChar (n mod 10)])"

declare digits10.simps [simp del]

fun bitLength :: "nat \<Rightarrow> nat" where
  "bitLength n = (if n = 0 then 0 else Suc (bitLength (n div 2)))"

declare bitLength.simps [simp del]

text \<open>
  The double nearest to a natural number: 53 significant bits, ties to the even
  significand, \<open>None\<close> for a value that rounds beyond the largest double (Infinity).
\<close>

definition roundToDouble :: "nat \<Rightarrow> nat option" where
  "roundToDouble n =
     (if n < 2 ^ 53 then Some n
      else
        let e = bitLength n - 53;
            q = n div 2 ^ e;
            r = n mod 2 ^ e;
            half = 2 ^ (e - 1);
            q' = (if r > half \<or> (r = half \<and> odd q) then q + 1 else q);
            v = q' * 2 ^ e
        in if v \<ge> 2 ^ 1024 then None else Some v)"

text \<open>
  \<open>parseInt(s, 10)\<close>: leading white space is skipped, a sign is read, the longest run of
  decimal digits is the value; no digit gives NaN. (Past twenty significant digits the
  language lets an implementation zero the rest; the exact value is taken here.)
\<close>

definition parseInt10 :: "string \<Rightarrow> js_number" where
  "parseInt10 s =
     (let t = dropWhile isWhiteSpace s;
          neg = (t \<noteq> [] \<and> hd t = CHR ''-'');
          u = (if t \<noteq> [] \<and> (hd t = CHR ''-'' \<or> hd t = CHR ''+'') then tl t else t);
          z = takeWhile isDigit u
      in if z = [] then NaN
         else case roundToDouble (decimalValue z) of
                None \<Rightarrow> (if neg then NegInfinity else PosInfinity)
              | Some v \<Rightarrow> Num (if neg then - int v else int v))"

text \<open>
  \<open>Number::toString\<close> of a positive integer-valued double \<open>v\<close>: the least number \<open>k\<close> of
  digits \<open>s\<close> such that \<open>s * 10 ^ (n - k)\<close> rounds to \<open>v\<close>; among several \<open>s\<close> the one nearest
  to \<open>v\<close>, the even one on a tie. \<open>candidates\<close> lists the \<open>(s, n)\<close> for one \<open>k\<close>: only the
  two multiples of \<open>10 ^ (n - k)\<close> around \<open>v\<close> can be nearest, and \<open>n\<close> is the number of
  digits of \<open>v\<close> or one more.
\<close>

definition candidates :: "nat \<Rightarrow> nat \<Rightarrow> (nat \<times> nat) list" where
  "candidates v k =
     concat (map (\<lambda>n. if n < k then []
                       else filter (\<lambda>(s, n). 10 ^ (k - 1) \<le> s \<and> s < 10 ^ k \<and>
                                      roundToDouble (s * 10 ^ (n - k)) = Some v)
                              [(v div 10 ^ (n - k), n), (v div 10 ^ (n - k) + 1, n)])
                 [length (digits10 v), length (digits10 v) + 1])"

definition distanceTo :: "nat \<Rightarrow> nat \<Rightarrow> nat \<times> nat \<Rightarrow> nat" where
  "distanceTo v k c = (let m = fst c * 10 ^ (snd c - k) in if m \<le> v then v - m else m - v)"

fun nearest :: "nat \<Rightarrow> nat \<Rightarrow> (nat \<times> nat) list \<Rightarrow> (nat \<times> nat) option" where
  "nearest v k [] = None"
| "nearest v k (c # cs) =
     (case nearest v k cs of
        None \<Rightarrow> Some c
      | Some d \<Rightarrow>
          if distanceTo v k c < distanceTo v k d \<or>
             (distanceTo v k c = distanceTo v k d \<and> even (fst c))
          then Some c else Some d)"

text \<open>The search for the least \<open>k\<close>; \<open>fuel\<close> counts the values of \<open>k\<close> left to try.\<close>

fun shortestDigits :: "nat \<Rightarrow> nat \<Rightarrow> nat \<Rightarrow> nat \<times> nat \<times> nat" where
  "shortestDigits v k fuel =
     (if fuel = 0 then (v, length (digits10 v), length (digits10 v))
      else case nearest v k (candidates v k) of
             Some (s, n) \<Rightarrow> (s, k, n)
           | None \<Rightarrow> shortestDigits v (k + 1) (fuel - 1))"

declare shortestDigits.simps [simp del]

definition positiveToString :: "nat \<Rightarrow> string" where
  "positiveToString v =
     (case shortestDigits v 1 (length (digits10 v)) of
        (s, k, n) \<Rightarrow>
          if n \<le> 21 then digits10 s @ replicate (n - k) (CHR ''0'')
          else (case digits10 s of
                  [] \<Rightarrow> []
                | d # rest \<Rightarrow>
                    d # (if rest = [] then [] else CHR ''.'' # rest) @ ''e+'' @ digits10 (n - 1)))"

definition numberToString :: "js_number \<Rightarrow> string" where
  "numberToString x =
     (case x of
        NaN \<Rightarrow> ''NaN''
      | PosInfinity \<Rightarrow> ''Infinity''
      | NegInfinity \<Rightarrow> ''-Infinity''
      | Num i \<Rightarrow>
          if i = 0 then ''0''
          else if i < 0 then CHR ''-'' # positiveToString (nat (- i))
          else positiveToString (nat i))"

section \<open>Encoded ids (a11y-dom/utils.ts, a11y-dom/types.ts)\<close>

text \<open>\<open>ID_PATTERN = /^\d+-\d+$/\<close>: digits, a hyphen, digits, and nothing else.\<close>

definition isEncodedId :: "string \<Rightarrow> bool" where
  "isEncodedId s =
     (let a = takeWhile isDigit s; r = dropWhile isDigit s
      in a \<noteq> [] \<and> (case r of [] \<Rightarrow> False
                    | c # b \<Rightarrow> c = CHR ''-'' \<and> b \<noteq> [] \<and> list_all isDigit b))"

text \<open>\<open>s.split(c)\<close> for a one-character separator.\<close>

fun splitOn :: "char \<Rightarrow> string \<Rightarrow> string list" where
  "splitOn c [] = [[]]"
| "splitOn c (x # xs) =
     (if x = c then [] # splitOn c xs
      else case splitOn c xs of [] \<Rightarrow> [[x]] | p # ps \<Rightarrow> (x # p) # ps)"

record ParsedEncodedId =
  parsed_frameIndex :: js_number
  parsed_backendNodeId :: js_number

text \<open>
  The destructuring \<open>[frameStr, backendStr] = encodedId.split("-")\<close> takes the first two
  parts; a missing part is \<open>undefined\<close>, which \<open>parseInt\<close> reads as the string
  \<open>undefined\<close>.
\<close>

definition parseEncodedId :: "string \<Rightarrow> ParsedEncodedId" where
  "parseEncodedId encodedId =
     (case splitOn (CHR ''-'') encodedId of
        [] \<Rightarrow> \<lparr>parsed_frameIndex = parseInt10 ''undefined'',
               parsed_backendNodeId = parseInt10 ''undefined''\<rparr>
      | [frameStr] \<Rightarrow> \<lparr>parsed_frameIndex = parseInt10 frameStr,
                       parsed_backendNodeId = parseInt10 ''undefined''\<rparr>
      | frameStr # backendStr # _ \<Rightarrow>
          \<lparr>parsed_frameIndex = parseInt10 frameStr,
           parsed_backendNodeId = parseInt10 backendStr\<rparr>)"

definition createEncodedId :: "js_number \<Rightarrow> js_number \<Rightarrow> string" where
  "createEncodedId frameIdx backendId =
     numberToString frameIdx @ ''-'' @ numberToString backendId"

text \<open>A component of the wire format: decimal digits with no leading zero.\<close>

definition canonicalDigits :: "string \<Rightarrow> bool" where
  "canonicalDigits ds \<longleftrightarrow> ds \<noteq> [] \<and> list_all isDigit ds \<and> (ds = ''0'' \<or> hd ds \<noteq> CHR ''0'')"

section \<open>String helpers\<close>

text \<open>\<open>s.startsWith(p)\<close>, \<open>s.includes(p)\<close>, \<open>s.trim()\<close> and \<open>parts.join(sep)\<close>.\<close>

definition startsWith :: "string \<Rightarrow> string \<Rightarrow> bool" where
  "startsWith s p \<longleftrightarrow> take (length p) s = p"

fun includes_str :: "string \<Rightarrow> string \<Rightarrow> bool" where
  "includes_str [] p = (p = [])"
| "includes_str (c # cs) p = (startsWith (c # cs) p \<or> includes_str cs p)"

definition trim :: "string \<Rightarrow> string" where
  "trim s = rev (dropWhile isWhiteSpace (rev (dropWhile isWhiteSpace s)))"

fun join :: "string \<Rightarrow> string list \<Rightarrow> string" where
  "join sep [] = []"
| "join sep [p] = p"
| "join sep (p # q # ps) = p @ sep @ join sep (q # ps)"

section \<open>Values thrown\<close>

text \<open>
  A thrown value is an \<open>Error\<close> object with its message, or any other value, kept as the
  string that \<open>String(error)\<close> gives for it.
\<close>

datatype js_thrown = JsError string | JsOther string

section \<open>Accessibility data (a11y-dom/types.ts)\<close>

text \<open>
  A raw CDP accessibility node. \<open>ax_role\<close> is \<open>role?.value\<close>, and so on for the other
  wrapped values. The \<open>properties\<close> and \<open>ignoredReasons\<close> arrays are only copied by the
  code and are left out.
\<close>

record AXNode =
  ax_role :: "string option"
  ax_name :: "string option"
  ax_description :: "string option"
  ax_value :: "string option"
  ax_nodeId :: string
  ax_backendDOMNodeId :: "int option"
  ax_parentId :: "string option"
  ax_childIds :: "string list option"
  ax_ignored :: "bool option"

text \<open>
  A node of the built tree (\<open>RichNode\<close>): the fields that pass 1 of
  \<open>buildHierarchicalTree\<close> copies, and the children wired by pass 2. An absent \<open>children\<close>
  array and an empty one are treated alike by every reader and are both \<open>[]\<close>. Bounding
  boxes (visual mode) are left out.
\<close>

datatype RichNode =
  RichNode (rn_encodedId: "string option") (rn_role: string) (rn_nodeId: "string option")
           (rn_name: "string option") (rn_description: "string option")
           (rn_value: "string option") (rn_backendDOMNodeId: "int option")
           (rn_children: "RichNode list")

record IframeInfo =
  if_frameIndex :: int
  if_src :: "string option"
  if_name :: "string option"
  if_xpath :: string
  if_frameId :: "string option"
  if_cdpFrameId :: "string option"
  if_cdpSessionId :: "string option"
  if_executionContextId :: "int option"
  if_parentFrameIndex :: "int option"
  if_siblingPosition :: int
  if_iframeBackendNodeId :: "int option"
  if_contentDocumentBackendNodeId :: "int option"
  if_framePath :: "string list option"

text \<open>
  \<open>tagNameMap\<close> is iterated (\<open>Object.entries\<close>) and keeps its insertion order; the other
  plain objects are only looked up.
\<close>

record BackendIdMaps =
  maps_tagNameMap :: "(string \<times> string) list"
  maps_xpathMap :: "string \<rightharpoonup> string"
  maps_accessibleNameMap :: "string \<rightharpoonup> string"
  maps_backendNodeMap :: "string \<rightharpoonup> int"
  maps_frameMap :: "(int \<times> IframeInfo) list option"

record A11yDOMState =
  elements :: "(string \<times> RichNode) list"
  domState :: string
  xpathMap :: "string \<rightharpoonup> string"
  backendNodeMap :: "string \<rightharpoonup> int"
  frameMap :: "(int \<times> IframeInfo) list option"

section \<open>captureDOMState (agent/shared/dom-capture.ts)\<close>

definition DOM_CAPTURE_MAX_ATTEMPTS :: int where
  "DOM_CAPTURE_MAX_ATTEMPTS = 3"

definition NAVIGATION_ERROR_SNIPPETS :: "string list" where
  "NAVIGATION_ERROR_SNIPPETS =
     [''Execution context was destroyed'', ''Cannot find context'', ''Target closed'']"

definition isRecoverableDomError :: "js_thrown \<Rightarrow> bool" where
  "isRecoverableDomError error =
     (case error of
        JsOther _ \<Rightarrow> False
      | JsError message \<Rightarrow>
          message \<noteq> [] \<and> list_ex (\<lambda>snippet. includes_str message snippet) NAVIGATION_ERROR_SNIPPETS)"

definition isPlaceholderSnapshot :: "A11yDOMState \<Rightarrow> bool" where
  "isPlaceholderSnapshot snapshot =
     (if length (elements snapshot) > 0 then False
      else startsWith (domState snapshot) ''Error: Could not extract accessibility tree'')"

text \<open>
  What one call of \<open>getA11yDOM\<close> does, as \<open>captureDOMState\<close> sees it: it throws, or it
  returns a falsy value, or it returns a snapshot. \<open>getDOM attempt\<close> is the outcome of the
  call made in loop iteration \<open>attempt\<close>.
\<close>

datatype capture_outcome = Throws js_thrown | ReturnsNothing | Returns A11yDOMState

datatype capture_event = CaptureAttempt nat | WaitForSettledDOM

text \<open>
  The retry loop. \<open>maxRetries\<close> is the option of that name; the other options are handed
  to \<open>getA11yDOM\<close> unchanged. With streaming enabled the source replaces the \<open>domState\<close> of
  the snapshot it returns by the joined frame chunks; that replacement is left out. The
  result is the value returned (\<open>Inr\<close>) or thrown (\<open>Inl\<close>), with the calls made.
\<close>

function captureLoop ::
  "(nat \<Rightarrow> capture_outcome) \<Rightarrow> int \<Rightarrow> nat \<Rightarrow> js_thrown option \<Rightarrow> capture_event list
     \<Rightarrow> (js_thrown + A11yDOMState) \<times> capture_event list" where
  "captureLoop getDOM maxRetries attempt lastError trace =
     (if int attempt < maxRetries then
        (case getDOM attempt of
           Returns snapshot \<Rightarrow>
             if isPlaceholderSnapshot snapshot
             then captureLoop getDOM maxRetries (attempt + 1) (Some (JsError (domState snapshot)))
                    (trace @ [CaptureAttempt attempt, WaitForSettledDOM])
             else (Inr snapshot, trace @ [CaptureAttempt attempt])
         | Throws error \<Rightarrow>
             if \<not> isRecoverableDomError error then (Inl error, trace @ [CaptureAttempt attempt])
             else captureLoop getDOM maxRetries (attempt + 1) (Some error)
                    (trace @ [CaptureAttempt attempt, WaitForSettledDOM])
         | ReturnsNothing \<Rightarrow>
             if \<not> isRecoverableDomError (JsError ''Failed to capture DOM state'')
             then (Inl (JsError ''Failed to capture DOM state''), trace @ [CaptureAttempt attempt])
             else captureLoop getDOM maxRetries (attempt + 1)
                    (Some (JsError ''Failed to capture DOM state''))
                    (trace @ [CaptureAttempt attempt, WaitForSettledDOM]))
      else
        (Inl (case lastError of
                Some error \<Rightarrow> error
              | None \<Rightarrow> JsError (''Failed to capture DOM state after '' @
                                 numberToString (Num maxRetries) @ '' attempts'')),
         trace))"
  by pat_completeness auto
termination
  by (relation "measure (\<lambda>(getDOM, maxRetries, attempt, lastError, trace). nat (maxRetries - int attempt))")
     auto

declare captureLoop.simps [simp del]

record CaptureDOMOptions =
  opt_maxRetries :: "int option"

definition captureDOMState ::
  "(nat \<Rightarrow> capture_outcome) \<Rightarrow> CaptureDOMOptions
     \<Rightarrow> (js_thrown + A11yDOMState) \<times> capture_event list" where
  "captureDOMState getDOM options =
     captureLoop getDOM
       (case opt_maxRetries options of None \<Rightarrow> DOM_CAPTURE_MAX_ATTEMPTS | Some n \<Rightarrow> n)
       0 None []"

text \<open>Notions used to state the retry property.\<close>

definition retryable :: "capture_outcome \<Rightarrow> bool" where
  "retryable outcome =
     (case outcome of
        Throws error \<Rightarrow> isRecoverableDomError error
      | ReturnsNothing \<Rightarrow> False
      | Returns snapshot \<Rightarrow> isPlaceholderSnapshot snapshot)"

definition outcomeError :: "capture_outcome \<Rightarrow> js_thrown" where
  "outcomeError outcome =
     (case outcome of
        Throws error \<Rightarrow> error
      | ReturnsNothing \<Rightarrow> JsError ''Failed to capture DOM state''
      | Returns snapshot \<Rightarrow> JsError (domState snapshot))"

definition outcomeResult :: "capture_outcome \<Rightarrow> js_thrown + A11yDOMState" where
  "outcomeResult outcome =
     (case outcome of
        Returns snapshot \<Rightarrow> Inr snapshot
      | _ \<Rightarrow> Inl (outcomeError outcome))"

definition failedAttempts :: "nat \<Rightarrow> nat \<Rightarrow> capture_event list" where
  "failedAttempts from to = concat (map (\<lambda>j. [CaptureAttempt j, WaitForSettledDOM]) [from..<to])"

definition attemptsMade :: "capture_event list \<Rightarrow> nat" where
  "attemptsMade trace = length (filter (\<lambda>e. e \<noteq> WaitForSettledDOM) trace)"

definition maxRetriesOf :: "CaptureDOMOptions \<Rightarrow> int" where
  "maxRetriesOf options = (case opt_maxRetries options of None \<Rightarrow> 3 | Some n \<Rightarrow> n)"


text \<open>A snapshot with one button, and a capture that fails once before it succeeds.\<close>

definition button_snapshot :: A11yDOMState where
  "button_snapshot =
     \<lparr>elements = [(''0-5'', RichNode (Some ''0-5'') ''button'' (Some ''3'') (Some ''OK'') None None
                                   (Some 5) [])],
      domState = ''[0-5] button: OK'',
      xpathMap = [''0-5'' \<mapsto> ''//button[1]''],
      backendNodeMap = [''0-5'' \<mapsto> 5],
      frameMap = Some []\<rparr>"

definition flaky_capture :: "nat \<Rightarrow> capture_outcome" where
  "flaky_capture attempt =
     (if attempt = 0 then Throws (JsError ''Execution context was destroyed.'')
      else Returns button_snapshot)"

definition closed_target :: "nat \<Rightarrow> capture_outcome" where
  "closed_target attempt = Throws (JsError ''Target closed'')"

section \<open>Element resolution (cdp/element-resolver.ts)\<close>

text \<open>
  \<open>ElementResolveContext\<close>: the CDP client is known by its identity; \<open>page\<close> is never read
  and \<open>debug\<close> only switches logging, so both are left out. The keys looked up in the
  plain objects \<open>backendNodeMap\<close> and \<open>xpathMap\<close> are encoded ids.
\<close>

record ResolvedCDPElement =
  el_session :: CDPSession
  el_frameId :: string
  el_backendNodeId :: int
  el_objectId :: "string option"

record ElementResolveContext =
  rc_cdpClient :: nat
  rc_backendNodeMap :: "string \<rightharpoonup> int"
  rc_xpathMap :: "string \<rightharpoonup> string"
  rc_frameMap :: "(int \<times> IframeInfo) list option"
  rc_resolvedElementsCache :: "(string \<times> ResolvedCDPElement) list option"
  rc_frameContextManager :: "FrameContextManager option"
  rc_strictFrameValidation :: "bool option"

text \<open>
  The module-level tables: \<open>sessionCache\<close>, \<open>domEnabledSessions\<close>,
  \<open>runtimeEnabledSessions\<close>, and \<open>managerCache\<close> of frame-context-manager.ts.
\<close>

record ResolverModule =
  sessionCache :: "nat \<rightharpoonup> (js_number \<times> CDPSession) list"
  domEnabledSessions :: "CDPSession set"
  runtimeEnabledSessions :: "CDPSession set"
  managerCache :: "nat \<rightharpoonup> FrameContextManager"

text \<open>
  What one call does to the outside, in order: each entry into \<open>recoverBackendNodeId\<close>,
  each wait for an execution context with what it gave, and each CDP command sent with
  its answer (\<open>Inl\<close> a rejection). The evaluated expression is fixed by the XPath, which
  stands for it.
\<close>

datatype resolver_event =
    Recovery string
  | Waited string "int option"
  | RuntimeEnable CDPSession
  | DOMEnable CDPSession
  | RuntimeEvaluate CDPSession string "int option" "js_thrown + string option"
  | DOMDescribeNode CDPSession string "js_thrown + int option"
  | RuntimeReleaseObject CDPSession string
  | DOMResolveNode CDPSession int "js_thrown + string option"

text \<open>
  The browser: the answer to a command may depend on everything that happened before it
  in the call. \<open>runtimeEvaluate\<close> gives \<open>result.objectId\<close>, \<open>domDescribeNode\<close> gives
  \<open>node?.backendNodeId\<close> when it is a number, \<open>domResolveNode\<close> gives \<open>object?.objectId\<close>.

  The frame manager is an object that its listeners change while the call is suspended.
  \<open>pageEvents\<close> is what the listeners do to it while the command that ends the given
  history is awaited (frames attached and detached, execution contexts created and
  destroyed). \<open>contextCreated\<close> is the event that ends a pending
  \<open>waitForExecutionContext\<close>: the id of a new default context of the frame and the time of
  the event, or \<open>None\<close> when the 750 ms timer ends the wait.
\<close>

record Browser =
  runtimeEvaluate :: "resolver_event list \<Rightarrow> CDPSession \<Rightarrow> string \<Rightarrow> int option \<Rightarrow> js_thrown + string option"
  domDescribeNode :: "resolver_event list \<Rightarrow> CDPSession \<Rightarrow> string \<Rightarrow> js_thrown + int option"
  domResolveNode :: "resolver_event list \<Rightarrow> CDPSession \<Rightarrow> int \<Rightarrow> js_thrown + string option"
  contextCreated :: "resolver_event list \<Rightarrow> string \<Rightarrow> (int \<times> int) option"
  pageEvents :: "resolver_event list \<Rightarrow> FrameContextManager \<Rightarrow> FrameContextManager"

definition getOrCreateFrameContextManager ::
  "nat \<Rightarrow> ResolverModule \<Rightarrow> FrameContextManager \<times> ResolverModule" where
  "getOrCreateFrameContextManager client module =
     (case managerCache module client of
        Some manager \<Rightarrow> (manager, module)
      | None \<Rightarrow> (newFrameContextManager,
                 module\<lparr>managerCache := (managerCache module)(client \<mapsto> newFrameContextManager)\<rparr>))"

text \<open>
  \<open>waitForExecutionContext\<close>: the stored id if there is one. Otherwise the promise stays
  pending until the \<open>Runtime.executionContextCreated\<close> listener resolves it: the listener
  first stores the new context for the frame (\<^const>\<open>createdHandler\<close>) and then hands its
  id to the waiters, so the caller goes on with a manager that knows the context. A frame
  id that is the empty string is never served by the listener. On the timeout the promise
  gives \<open>undefined\<close> and the manager is as it was.
\<close>

definition waitForExecutionContext ::
  "FrameContextManager \<Rightarrow> string \<Rightarrow> (int \<times> int) option \<Rightarrow> int option \<times> FrameContextManager" where
  "waitForExecutionContext manager fid arriving =
     (case map_of (frameExecutionContexts manager) fid of
        Some existing \<Rightarrow> (Some existing, manager)
      | None \<Rightarrow>
          (case arriving of
             None \<Rightarrow> (None, manager)
           | Some (cid, now) \<Rightarrow>
               if fid = [] then (None, manager)
               else (Some cid, createdHandler cid (Some fid) None now manager)))"

text \<open>\<open>Number.parseInt(frameIndexStr || "0", 10) || 0\<close>: NaN and 0 are falsy.\<close>

definition parseFrameIndex :: "string \<Rightarrow> js_number" where
  "parseFrameIndex encodedId =
     (let frameIndexStr = hd (splitOn (CHR ''-'') encodedId);
          parsed = parseInt10 (if frameIndexStr = [] then ''0'' else frameIndexStr)
      in if parsed = NaN \<or> parsed = Num 0 then Num 0 else parsed)"

text \<open>Lookups by a JavaScript number in tables whose keys are integers.\<close>

definition frameMap_get :: "(int \<times> IframeInfo) list option \<Rightarrow> js_number \<Rightarrow> IframeInfo option" where
  "frameMap_get fm frameIndex =
     (case (fm, frameIndex) of (Some infos, Num i) \<Rightarrow> map_of infos i | _ \<Rightarrow> None)"

definition getFrameIdByNumber :: "FrameContextManager \<Rightarrow> js_number \<Rightarrow> string option" where
  "getFrameIdByNumber manager frameIndex =
     (case frameIndex of Num i \<Rightarrow> manager_getFrameIdByIndex manager i | _ \<Rightarrow> None)"

definition truthyString :: "string option \<Rightarrow> bool" where
  "truthyString s \<longleftrightarrow> s \<noteq> None \<and> s \<noteq> Some []"

definition truthyNumber :: "int option \<Rightarrow> bool" where
  "truthyNumber n \<longleftrightarrow> n \<noteq> None \<and> n \<noteq> Some 0"

definition getFallbackFrameId :: "IframeInfo option \<Rightarrow> js_number \<Rightarrow> string" where
  "getFallbackFrameId frameInfo frameIndex =
     (let fid = Option.bind frameInfo if_frameId;
          cdpFid = Option.bind frameInfo if_cdpFrameId
      in if truthyString fid then the fid
         else if truthyString cdpFid then the cdpFid
         else if frameIndex = Num 0 then ''root''
         else ''frame-'' @ numberToString frameIndex)"

definition resolveFrameId ::
  "FrameContextManager \<Rightarrow> IframeInfo option \<Rightarrow> js_number \<Rightarrow> bool \<Rightarrow> js_thrown + string" where
  "resolveFrameId manager frameInfo frameIndex strict =
     (let managerFrameId = getFrameIdByNumber manager frameIndex
      in if truthyString managerFrameId then Inr (the managerFrameId)
         else if strict then
           Inl (JsError (''[CDP][ElementResolver] Frame index '' @ numberToString frameIndex @
                         '' not tracked in FrameContextManager''))
         else Inr (getFallbackFrameId frameInfo frameIndex))"

definition getSessionCache ::
  "nat \<Rightarrow> ResolverModule \<Rightarrow> (js_number \<times> CDPSession) list \<times> ResolverModule" where
  "getSessionCache client module =
     (case sessionCache module client of
        Some cache \<Rightarrow> (cache, module)
      | None \<Rightarrow> ([], module\<lparr>sessionCache := (sessionCache module)(client \<mapsto> [])\<rparr>))"

definition resolveFrameSession ::
  "ElementResolveContext \<Rightarrow> js_number \<Rightarrow> IframeInfo option \<Rightarrow> FrameContextManager \<Rightarrow> bool \<Rightarrow>
   ResolverModule \<Rightarrow> (js_thrown + CDPSession \<times> string) \<times> ResolverModule" where
  "resolveFrameSession ctx frameIndex frameInfo frameManager strict module =
     (let (cache, module1) = getSessionCache (rc_cdpClient ctx) module
      in case resolveFrameId frameManager frameInfo frameIndex strict of
           Inl error \<Rightarrow> (Inl error, module1)
         | Inr fid \<Rightarrow>
             (case map_of cache frameIndex of
                Some cached \<Rightarrow> (Inr (cached, fid), module1)
              | None \<Rightarrow>
                  (case getFrameSession frameManager fid of
                     Some managedSession \<Rightarrow>
                       (Inr (managedSession, fid),
                        module1\<lparr>sessionCache := (sessionCache module1)
                           (rc_cdpClient ctx \<mapsto> AList.update frameIndex managedSession cache)\<rparr>)
                   | None \<Rightarrow>
                       (Inl (JsError (''[CDP][ElementResolver] Session not registered for frameIndex='' @
                                      numberToString frameIndex @ '' (frameId='' @ fid @ '')'')),
                        module1))))"

text \<open>
  The state of one call between its steps: the context, the module tables, the frame
  manager as its listeners have left it, and what the call has done so far.
\<close>

record ResolverRun =
  run_ctx :: ElementResolveContext
  run_module :: ResolverModule
  run_manager :: FrameContextManager
  run_trace :: "resolver_event list"

text \<open>
  A CDP command that is awaited: it joins the trace, and the listeners of the manager
  handle the page events that arrive before the call goes on.
\<close>

definition sendCommand :: "Browser \<Rightarrow> resolver_event \<Rightarrow> ResolverRun \<Rightarrow> ResolverRun" where
  "sendCommand browser command run =
     run\<lparr>run_trace := run_trace run @ [command],
         run_manager := pageEvents browser (run_trace run @ [command]) (run_manager run)\<rparr>"

text \<open>
  \<open>ensureRuntimeEnabled\<close> and \<open>ensureDomEnabled\<close>: the command is sent once per session,
  and its rejection is swallowed.
\<close>

definition ensureRuntimeEnabled :: "Browser \<Rightarrow> CDPSession \<Rightarrow> ResolverRun \<Rightarrow> ResolverRun" where
  "ensureRuntimeEnabled browser session run =
     (if session \<in> runtimeEnabledSessions (run_module run) then run
      else (sendCommand browser (RuntimeEnable session) run)
             \<lparr>run_module := (run_module run)
                \<lparr>runtimeEnabledSessions := insert session (runtimeEnabledSessions (run_module run))\<rparr>\<rparr>)"

definition ensureDomEnabled :: "Browser \<Rightarrow> CDPSession \<Rightarrow> ResolverRun \<Rightarrow> ResolverRun" where
  "ensureDomEnabled browser session run =
     (if session \<in> domEnabledSessions (run_module run) then run
      else (sendCommand browser (DOMEnable session) run)
             \<lparr>run_module := (run_module run)
                \<lparr>domEnabledSessions := insert session (domEnabledSessions (run_module run))\<rparr>\<rparr>)"

text \<open>
  \<open>recoverBackendNodeId\<close>, in three parts. The \<open>finally\<close> block releases the evaluated
  object whether or not \<open>DOM.describeNode\<close> succeeded.
\<close>

definition describeAndRelease ::
  "Browser \<Rightarrow> string \<Rightarrow> js_number \<Rightarrow> CDPSession \<Rightarrow> string \<Rightarrow> ResolverRun \<Rightarrow>
   (js_thrown + int) \<times> ResolverRun" where
  "describeAndRelease browser encodedId frameIndex session objectId run =
     (let description = domDescribeNode browser (run_trace run) session objectId;
          run1 = sendCommand browser (DOMDescribeNode session objectId description) run;
          run2 = sendCommand browser (RuntimeReleaseObject session objectId) run1
      in case description of
           Inl error \<Rightarrow> (Inl error, run2)
         | Inr None \<Rightarrow>
             (Inl (JsError (''DOM.describeNode did not return backendNodeId for '' @ encodedId @
                            '' (frame '' @ numberToString frameIndex @ '')'')), run2)
         | Inr (Some backendId) \<Rightarrow>
             (Inr backendId,
              run2\<lparr>run_ctx := (run_ctx run2)
                     \<lparr>rc_backendNodeMap := (rc_backendNodeMap (run_ctx run2))(encodedId \<mapsto> backendId)\<rparr>\<rparr>))"

definition evaluateXPath ::
  "Browser \<Rightarrow> string \<Rightarrow> js_number \<Rightarrow> CDPSession \<Rightarrow> string \<Rightarrow> int option \<Rightarrow> ResolverRun \<Rightarrow>
   (js_thrown + int) \<times> ResolverRun" where
  "evaluateXPath browser encodedId frameIndex session xpath contextId run =
     (let run1 = ensureDomEnabled browser session (ensureRuntimeEnabled browser session run);
          evalResponse = runtimeEvaluate browser (run_trace run1) session xpath contextId;
          run2 = sendCommand browser (RuntimeEvaluate session xpath contextId evalResponse) run1
      in case evalResponse of
           Inl error \<Rightarrow> (Inl error, run2)
         | Inr objectId \<Rightarrow>
             if \<not> truthyString objectId then
               (Inl (JsError (''Failed to recover node for '' @ encodedId @ '' (frame '' @
                              numberToString frameIndex @ '') via XPath'')), run2)
             else describeAndRelease browser encodedId frameIndex session (the objectId) run2)"

text \<open>
  The execution context is read from the manager as it is when the recovery starts, so a
  context that arrived during an earlier wait or command of the same call is found
  without waiting.
\<close>

definition recoverBackendNodeId ::
  "Browser \<Rightarrow> string \<Rightarrow> CDPSession \<Rightarrow> js_number \<Rightarrow> IframeInfo option \<Rightarrow> string \<Rightarrow> bool \<Rightarrow>
   ResolverRun \<Rightarrow> (js_thrown + int) \<times> ResolverRun" where
  "recoverBackendNodeId browser encodedId session frameIndex frameInfo fid strict run =
     (let run0 = run\<lparr>run_trace := run_trace run @ [Recovery encodedId]\<rparr>;
          xpath = rc_xpathMap (run_ctx run0) encodedId
      in if \<not> truthyString xpath then
           (Inl (JsError (''XPath not found for encodedId '' @ encodedId)), run0)
         else
           (let stored = orElse (getExecutionContextId (run_manager run0) fid)
                                (Option.bind frameInfo if_executionContextId);
                (contextId, run1) =
                  (if \<not> truthyNumber stored then
                     (let (awaited, manager1) =
                            waitForExecutionContext (run_manager run0) fid
                              (contextCreated browser (run_trace run0) fid)
                      in (awaited, run0\<lparr>run_manager := manager1,
                                        run_trace := run_trace run0 @ [Waited fid awaited]\<rparr>))
                   else (stored, run0))
            in if frameIndex \<noteq> Num 0 \<and> \<not> truthyNumber contextId \<and> strict then
                 (Inl (JsError (''[CDP][ElementResolver] Execution context missing for frame '' @
                                numberToString frameIndex @ '' ('' @ fid @ '')'')), run1)
               else evaluateXPath browser encodedId frameIndex session (the xpath) contextId run1))"

definition isMissingNodeError :: "js_thrown \<Rightarrow> bool" where
  "isMissingNodeError error =
     (case error of
        JsError message \<Rightarrow>
          message \<noteq> [] \<and>
          (includes_str message ''Could not find node with given id'' \<or>
           includes_str message ''No node with given id'')
      | JsOther _ \<Rightarrow> False)"

text \<open>The tail of \<open>resolveElement\<close> once \<open>DOM.resolveNode\<close> has answered.\<close>

definition rememberResolved ::
  "string \<Rightarrow> CDPSession \<Rightarrow> string \<Rightarrow> int \<Rightarrow> string option \<Rightarrow> ElementResolveContext \<Rightarrow>
   ResolvedCDPElement \<times> ElementResolveContext" where
  "rememberResolved encodedId session fid backendId objectId ctx =
     (let resolved = \<lparr>el_session = session, el_frameId = fid, el_backendNodeId = backendId,
                      el_objectId = objectId\<rparr>;
          cache = (case rc_resolvedElementsCache ctx of None \<Rightarrow> [] | Some c \<Rightarrow> c)
      in (resolved,
          ctx\<lparr>rc_backendNodeMap := (rc_backendNodeMap ctx)(encodedId \<mapsto> backendId),
              rc_resolvedElementsCache := Some (AList.update encodedId resolved cache)\<rparr>))"

definition returnResolved ::
  "string \<Rightarrow> CDPSession \<Rightarrow> string \<Rightarrow> int \<Rightarrow> string option \<Rightarrow> ResolverRun \<Rightarrow>
   (js_thrown + ResolvedCDPElement) \<times> ResolverRun" where
  "returnResolved encodedId session fid backendId objectId run =
     (let (element, ctx1) = rememberResolved encodedId session fid backendId objectId (run_ctx run)
      in (Inr element, run\<lparr>run_ctx := ctx1\<rparr>))"

text \<open>
  The \<open>try\<close>/\<open>catch\<close> around the first \<open>DOM.resolveNode\<close>: a missing-node rejection is
  answered by one recovery and one more \<open>DOM.resolveNode\<close>, outside any \<open>try\<close>.
\<close>

definition resolveWithRecovery ::
  "Browser \<Rightarrow> string \<Rightarrow> CDPSession \<Rightarrow> js_number \<Rightarrow> IframeInfo option \<Rightarrow> string \<Rightarrow> bool \<Rightarrow> int \<Rightarrow>
   ResolverRun \<Rightarrow> (js_thrown + ResolvedCDPElement) \<times> ResolverRun" where
  "resolveWithRecovery browser encodedId session frameIndex frameInfo fid strict backendId run =
     (let first = domResolveNode browser (run_trace run) session backendId;
          run1 = sendCommand browser (DOMResolveNode session backendId first) run
      in case first of
           Inr objectId \<Rightarrow> returnResolved encodedId session fid backendId objectId run1
         | Inl error \<Rightarrow>
             if \<not> isMissingNodeError error then (Inl error, run1)
             else
               (case recoverBackendNodeId browser encodedId session frameIndex frameInfo fid
                       strict run1 of
                  (Inl error2, run2) \<Rightarrow> (Inl error2, run2)
                | (Inr backendId2, run2) \<Rightarrow>
                    (let second = domResolveNode browser (run_trace run2) session backendId2;
                         run3 = sendCommand browser (DOMResolveNode session backendId2 second) run2
                     in case second of
                          Inl error3 \<Rightarrow> (Inl error3, run3)
                        | Inr objectId \<Rightarrow>
                            returnResolved encodedId session fid backendId2 objectId run3)))"

text \<open>\<open>ctx.frameContextManager ?? getOrCreateFrameContextManager(ctx.cdpClient)\<close>\<close>

definition frameManagerFor ::
  "ElementResolveContext \<Rightarrow> ResolverModule \<Rightarrow> FrameContextManager \<times> ResolverModule" where
  "frameManagerFor ctx module =
     (case rc_frameContextManager ctx of
        Some manager \<Rightarrow> (manager, module)
      | None \<Rightarrow> getOrCreateFrameContextManager (rc_cdpClient ctx) module)"

text \<open>
  The manager is one object, named by the context or kept in \<open>managerCache\<close>. What its
  listeners did to it during the call is kept at the place where the call took it from.
\<close>

definition storeManager :: "ResolverRun \<Rightarrow> ElementResolveContext \<times> ResolverModule" where
  "storeManager run =
     (case rc_frameContextManager (run_ctx run) of
        Some _ \<Rightarrow> ((run_ctx run)\<lparr>rc_frameContextManager := Some (run_manager run)\<rparr>, run_module run)
      | None \<Rightarrow>
          (run_ctx run,
           (run_module run)\<lparr>managerCache :=
              (managerCache (run_module run))(rc_cdpClient (run_ctx run) \<mapsto> run_manager run)\<rparr>))"

text \<open>
  \<open>resolveElement\<close>: the result or the value thrown, the context and the module tables as
  the call leaves them, and what the call did. The frame and its session are looked up
  before anything is awaited.
\<close>

definition resolveElement ::
  "Browser \<Rightarrow> string \<Rightarrow> ElementResolveContext \<Rightarrow> ResolverModule \<Rightarrow>
   (js_thrown + ResolvedCDPElement) \<times> ElementResolveContext \<times> ResolverModule \<times> resolver_event list" where
  "resolveElement browser encodedId ctx module =
     (let frameIndex = parseFrameIndex encodedId;
          frameInfo = (if frameIndex = Num 0 then None else frameMap_get (rc_frameMap ctx) frameIndex);
          (frameManager, module1) = frameManagerFor ctx module;
          strict = (rc_strictFrameValidation ctx = Some True);
          cachedElement = Option.bind (rc_resolvedElementsCache ctx) (\<lambda>cache. map_of cache encodedId)
      in if frameIndex \<noteq> Num 0 \<and> frameInfo = None then
           (Inl (JsError (''Frame metadata not found for frameIndex '' @ numberToString frameIndex @
                          '' (encodedId '' @ encodedId @ '')'')), ctx, module1, [])
         else if cachedElement \<noteq> None \<and>
                 rc_backendNodeMap ctx encodedId = Some (el_backendNodeId (the cachedElement)) then
           (Inr (the cachedElement), ctx, module1, [])
         else
           (case resolveFrameSession ctx frameIndex frameInfo frameManager strict module1 of
              (Inl error, module2) \<Rightarrow> (Inl error, ctx, module2, [])
            | (Inr (session, fid), module2) \<Rightarrow>
                (let run = \<lparr>run_ctx = ctx, run_module = module2, run_manager = frameManager,
                            run_trace = []\<rparr>;
                     (result, run') =
                       (case rc_backendNodeMap ctx encodedId of
                          Some backendId \<Rightarrow>
                            resolveWithRecovery browser encodedId session frameIndex frameInfo fid
                              strict backendId run
                        | None \<Rightarrow>
                            (case recoverBackendNodeId browser encodedId session frameIndex
                                    frameInfo fid strict run of
                               (Inl error, run1) \<Rightarrow> (Inl error, run1)
                             | (Inr backendId, run1) \<Rightarrow>
                                 resolveWithRecovery browser encodedId session frameIndex frameInfo
                                   fid strict backendId run1));
                     (ctx', module') = storeManager run'
                 in (result, ctx', module', run_trace run'))))"


section \<open>Notions used to state the resolution properties\<close>

fun isRecovery :: "resolver_event \<Rightarrow> bool" where
  "isRecovery (Recovery _) = True"
| "isRecovery _ = False"

fun isResolveNode :: "resolver_event \<Rightarrow> bool" where
  "isResolveNode (DOMResolveNode _ _ _) = True"
| "isResolveNode _ = False"

fun isWaited :: "resolver_event \<Rightarrow> bool" where
  "isWaited (Waited _ _) = True"
| "isWaited _ = False"

fun missingNodeFailure :: "resolver_event \<Rightarrow> bool" where
  "missingNodeFailure (DOMResolveNode _ _ (Inl error)) = isMissingNodeError error"
| "missingNodeFailure _ = False"

definition recoveries :: "resolver_event list \<Rightarrow> nat" where
  "recoveries trace = length (filter isRecovery trace)"

definition resolveNodeCalls :: "resolver_event list \<Rightarrow> nat" where
  "resolveNodeCalls trace = length (filter isResolveNode trace)"

text \<open>What happened after the first \<open>DOM.resolveNode\<close> that failed with a missing node.\<close>

definition afterMissingNode :: "resolver_event list \<Rightarrow> resolver_event list" where
  "afterMissingNode trace = tl (dropWhile (\<lambda>ev. \<not> missingNodeFailure ev) trace)"

definition cachedElement :: "ElementResolveContext \<Rightarrow> string \<Rightarrow> ResolvedCDPElement option" where
  "cachedElement ctx encodedId =
     Option.bind (rc_resolvedElementsCache ctx) (\<lambda>cache. map_of cache encodedId)"

text \<open>
  The shape of a trace in which a \<open>DOM.resolveNode\<close> failed with a missing node: what came
  before the first such failure holds \<open>earlier\<close> recoveries and no \<open>DOM.resolveNode\<close>; what
  came after it starts with a recovery, holds no other, and at most one
  \<open>DOM.resolveNode\<close>.
\<close>

definition recoveredOnce :: "string \<Rightarrow> nat \<Rightarrow> resolver_event list \<Rightarrow> bool" where
  "recoveredOnce encodedId earlier trace \<longleftrightarrow>
     (\<exists>pre failed rest more.
        trace = pre @ failed # rest \<and> missingNodeFailure failed \<and>
        (\<forall>ev\<in>set pre. \<not> missingNodeFailure ev) \<and>
        recoveries pre = earlier \<and> resolveNodeCalls pre = 0 \<and>
        rest = Recovery encodedId # more \<and> recoveries more = 0 \<and> resolveNodeCalls more \<le> 1)"

text \<open>Two contexts that differ at most in \<open>backendNodeMap\<close>.\<close>

definition sameButBackendNodeMap :: "ElementResolveContext \<Rightarrow> ElementResolveContext \<Rightarrow> bool" where
  "sameButBackendNodeMap ctx ctx' \<longleftrightarrow>
     rc_cdpClient ctx' = rc_cdpClient ctx \<and> rc_xpathMap ctx' = rc_xpathMap ctx \<and>
     rc_frameMap ctx' = rc_frameMap ctx \<and>
     rc_resolvedElementsCache ctx' = rc_resolvedElementsCache ctx \<and>
     rc_frameContextManager ctx' = rc_frameContextManager ctx \<and>
     rc_strictFrameValidation ctx' = rc_strictFrameValidation ctx"

text \<open>
  Two contexts that name the same client and frames, and both or neither a manager of
  their own.
\<close>

definition sameFrames :: "ElementResolveContext \<Rightarrow> ElementResolveContext \<Rightarrow> bool" where
  "sameFrames ctx ctx' \<longleftrightarrow>
     rc_cdpClient ctx' = rc_cdpClient ctx \<and> rc_xpathMap ctx' = rc_xpathMap ctx \<and>
     rc_frameMap ctx' = rc_frameMap ctx \<and>
     (rc_frameContextManager ctx' = None \<longleftrightarrow> rc_frameContextManager ctx = None) \<and>
     rc_strictFrameValidation ctx' = rc_strictFrameValidation ctx"

text \<open>
  A later state of the same call: \<open>events\<close> were added to the trace and \<open>managerCache\<close> was
  not touched.
\<close>

definition followsOn :: "ResolverRun \<Rightarrow> ResolverRun \<Rightarrow> resolver_event list \<Rightarrow> bool" where
  "followsOn run run' events \<longleftrightarrow>
     run_trace run' = run_trace run @ events \<and>
     managerCache (run_module run') = managerCache (run_module run)"

text \<open>
  The events of a recovery that found the node \<open>backendId\<close>, followed by the
  \<open>DOM.resolveNode\<close> that resolved it.
\<close>

definition recoveredAndResolved ::
  "CDPSession \<Rightarrow> string \<Rightarrow> int \<Rightarrow> resolver_event list \<Rightarrow> bool" where
  "recoveredAndResolved session xpath backendId events \<longleftrightarrow>
     (\<exists>pre contextId objectId resolvedObject.
        events = pre @
          [RuntimeEvaluate session xpath contextId (Inr (Some objectId)),
           DOMDescribeNode session objectId (Inr (Some backendId)),
           RuntimeReleaseObject session objectId,
           DOMResolveNode session backendId (Inr resolvedObject)])"

text \<open>The parts of a run of \<open>resolveElement\<close>.\<close>

definition contextAfter ::
  "(js_thrown + ResolvedCDPElement) \<times> ElementResolveContext \<times> ResolverModule \<times> resolver_event list
   \<Rightarrow> ElementResolveContext" where
  "contextAfter run = fst (snd run)"

definition moduleAfter ::
  "(js_thrown + ResolvedCDPElement) \<times> ElementResolveContext \<times> ResolverModule \<times> resolver_event list
   \<Rightarrow> ResolverModule" where
  "moduleAfter run = fst (snd (snd run))"

definition traceOf ::
  "(js_thrown + ResolvedCDPElement) \<times> ElementResolveContext \<times> ResolverModule \<times> resolver_event list
   \<Rightarrow> resolver_event list" where
  "traceOf run = snd (snd (snd run))"

text \<open>
  A page with a frame \<open>F2\<close> of index 2 inside its main frame, both served by the root
  session, and no execution context known for \<open>F2\<close>; a snapshot that knows the button
  \<open>2-5\<close> of that frame, and the same snapshot without the backend node id of the button;
  and a browser in which node 5 is gone: the first \<open>DOM.resolveNode\<close> of a call fails, the
  XPath finds node 9, later \<open>DOM.resolveNode\<close> commands succeed, and the execution context
  42 of \<open>F2\<close> is created during the first wait of the call and never again.
\<close>

definition framed_manager :: FrameContextManager where
  "framed_manager =
     (let m1 = snd (manager_upsertFrame (frameInput ''main'' None) 0 newFrameContextManager);
          m2 = snd (manager_upsertFrame (frameInput ''F2'' (Some ''main'')) 1 m1);
          m3 = setFrameSession ''main'' (Session ''root'' None) 2 m2;
          m4 = setFrameSession ''F2'' (Session ''root'' None) 3 m3;
          m5 = manager_assignFrameIndex ''main'' 0 m4
      in manager_assignFrameIndex ''F2'' 2 m5)"

definition inner_frame_info :: IframeInfo where
  "inner_frame_info =
     \<lparr>if_frameIndex = 2, if_src = Some ''https://example.test/inner'', if_name = None,
      if_xpath = ''//iframe[1]'', if_frameId = Some ''F2'', if_cdpFrameId = Some ''F2'',
      if_cdpSessionId = None, if_executionContextId = None, if_parentFrameIndex = Some 0,
      if_siblingPosition = 0, if_iframeBackendNodeId = Some 3,
      if_contentDocumentBackendNodeId = Some 4, if_framePath = None\<rparr>"

definition emptyResolverModule :: ResolverModule where
  "emptyResolverModule =
     \<lparr>sessionCache = Map.empty, domEnabledSessions = {}, runtimeEnabledSessions = {},
      managerCache = Map.empty\<rparr>"

definition button_context :: ElementResolveContext where
  "button_context =
     \<lparr>rc_cdpClient = 0, rc_backendNodeMap = [''2-5'' \<mapsto> 5],
      rc_xpathMap = [''2-5'' \<mapsto> ''//button[1]''], rc_frameMap = Some [(2, inner_frame_info)],
      rc_resolvedElementsCache = Some [], rc_frameContextManager = Some framed_manager,
      rc_strictFrameValidation = Some True\<rparr>"

definition unmapped_button_context :: ElementResolveContext where
  "unmapped_button_context = button_context\<lparr>rc_backendNodeMap := Map.empty\<rparr>"

definition stale_node_browser :: Browser where
  "stale_node_browser =
     \<lparr>runtimeEvaluate = (\<lambda>history session xpath contextId. Inr (Some ''object-1'')),
      domDescribeNode = (\<lambda>history session objectId. Inr (Some 9)),
      domResolveNode = (\<lambda>history session backendId.
         if list_ex isResolveNode history then Inr (Some ''remote-1'')
         else Inl (JsError ''No node with given id found'')),
      contextCreated = (\<lambda>history fid. if list_ex isWaited history then None else Some (42, 7)),
      pageEvents = (\<lambda>history manager. manager)\<rparr>"

definition button_element :: ResolvedCDPElement where
  "button_element =
     \<lparr>el_session = Session ''root'' None, el_frameId = ''F2'', el_backendNodeId = 9,
      el_objectId = Some ''remote-1''\<rparr>"

section \<open>performAction (agent/actions/shared/perform-action.ts)\<close>

text \<open>
  The parameters of an action. \<open>confidence\<close> is only copied into the debug record; its
  type is left open.
\<close>

record 'c PerformActionParams =
  p_elementId :: string
  p_method :: string
  p_arguments :: "string list option"
  p_instruction :: string
  p_confidence :: "'c option"

text \<open>
  The result. \<open>debug\<close> is present when \<open>ctx.debug\<close> is set and the element was found:
  the requested action with the defaulted argument list, the element, and the timings
  object, of which the keys written before the return are kept (the values are clock
  readings).
\<close>

record 'c ActionDebugInfo =
  dbg_requestedAction :: "'c PerformActionParams"
  dbg_elementMetadata :: RichNode
  dbg_timings :: "string list"

record 'c ActionOutput =
  success :: bool
  message :: string
  debug :: "'c ActionDebugInfo option"

text \<open>
  \<open>ctx.cdp\<close> carries the two functions of the CDP path; \<open>getElementLocator\<close> and
  \<open>executePlaywrightMethod\<close> are imported and drive Playwright. Each of the four is
  awaited and either resolves or rejects with a thrown value (\<open>Inl\<close>); what they do to
  the browser is not followed further. A locator is known by its selector. Of the options
  passed to \<open>dispatchCDPAction\<close> the resolved element and its XPath are kept.
\<close>

record CDPActionContext =
  cdp_client :: nat
  cdp_frameContextManager :: FrameContextManager
  cdp_resolveElement :: "string \<Rightarrow> ElementResolveContext \<Rightarrow> js_thrown + ResolvedCDPElement"
  cdp_dispatchCDPAction ::
    "string \<Rightarrow> string list \<Rightarrow> ResolvedCDPElement \<Rightarrow> string option \<Rightarrow> js_thrown + unit"

record PlaywrightOperations =
  getElementLocator ::
    "string \<Rightarrow> (string \<rightharpoonup> string) \<Rightarrow> (int \<times> IframeInfo) list option \<Rightarrow> bool \<Rightarrow> js_thrown + string"
  executePlaywrightMethod :: "string \<Rightarrow> string list \<Rightarrow> string \<Rightarrow> js_thrown + unit"

text \<open>
  The fields of \<open>ActionContext\<close> that \<open>performAction\<close> reads. \<open>domState.backendNodeMap\<close> is
  an object and so always truthy.
\<close>

record ActionContext =
  ac_domState :: A11yDOMState
  ac_debug :: bool
  ac_debugDir :: "string option"
  ac_cdpActions :: "bool option"
  ac_cdp :: "CDPActionContext option"

datatype action_event =
    ResolveElement string
  | DispatchCDPAction string "string list"
  | GetElementLocator string
  | ExecutePlaywrightMethod string "string list"

definition quoted :: "string \<Rightarrow> string" where
  "quoted s = [CHR 0x22] @ s @ [CHR 0x22]"

text \<open>\<open>error instanceof Error ? error.message : String(error)\<close>\<close>

definition errorMessage :: "js_thrown \<Rightarrow> string" where
  "errorMessage error = (case error of JsError text \<Rightarrow> text | JsOther text \<Rightarrow> text)"

text \<open>
  The body of the first \<open>try\<close>: the outcome, the timing keys written, and the operations
  started.
\<close>

definition cdpPath ::
  "ActionContext \<Rightarrow> CDPActionContext \<Rightarrow> string \<Rightarrow> string \<Rightarrow> string list \<Rightarrow>
   (js_thrown + unit) \<times> string list \<times> action_event list" where
  "cdpPath ctx cdp encodedId methodName methodArgs =
     (case cdp_resolveElement cdp encodedId
             \<lparr>rc_cdpClient = cdp_client cdp,
              rc_backendNodeMap = backendNodeMap (ac_domState ctx),
              rc_xpathMap = xpathMap (ac_domState ctx),
              rc_frameMap = frameMap (ac_domState ctx),
              rc_resolvedElementsCache = Some [],
              rc_frameContextManager = Some (cdp_frameContextManager cdp),
              rc_strictFrameValidation = Some True\<rparr> of
        Inl error \<Rightarrow> (Inl error, [], [ResolveElement encodedId])
      | Inr resolved \<Rightarrow>
          (case cdp_dispatchCDPAction cdp methodName methodArgs resolved
                  (xpathMap (ac_domState ctx) encodedId) of
             Inl error \<Rightarrow>
               (Inl error, [''resolveElementMs''],
                [ResolveElement encodedId, DispatchCDPAction methodName methodArgs])
           | Inr _ \<Rightarrow>
               (Inr (), [''resolveElementMs'', ''dispatchMs''],
                [ResolveElement encodedId, DispatchCDPAction methodName methodArgs])))"

text \<open>The body of the second \<open>try\<close>.\<close>

definition playwrightPath ::
  "PlaywrightOperations \<Rightarrow> ActionContext \<Rightarrow> string \<Rightarrow> string \<Rightarrow> string list \<Rightarrow>
   (js_thrown + unit) \<times> string list \<times> action_event list" where
  "playwrightPath playwright ctx elementId methodName methodArgs =
     (case getElementLocator playwright elementId (xpathMap (ac_domState ctx))
             (frameMap (ac_domState ctx)) (truthyString (ac_debugDir ctx)) of
        Inl error \<Rightarrow> (Inl error, [], [GetElementLocator elementId])
      | Inr locator \<Rightarrow>
          (case executePlaywrightMethod playwright methodName methodArgs locator of
             Inl error \<Rightarrow>
               (Inl error, [''locatorMs''],
                [GetElementLocator elementId, ExecutePlaywrightMethod methodName methodArgs])
           | Inr _ \<Rightarrow>
               (Inr (), [''locatorMs'', ''playwrightActionMs''],
                [GetElementLocator elementId, ExecutePlaywrightMethod methodName methodArgs])))"

text \<open>
  \<open>performAction\<close>: the two early returns, then one of the two paths inside its
  \<open>try\<close>/\<open>catch\<close>. The result is \<open>Inl\<close> if the function throws.
\<close>

definition performAction ::
  "PlaywrightOperations \<Rightarrow> ActionContext \<Rightarrow> 'c PerformActionParams \<Rightarrow>
   (js_thrown + 'c ActionOutput) \<times> action_event list" where
  "performAction playwright ctx params =
     (let instruction = p_instruction params;
          elementId = p_elementId params;
          methodName = p_method params;
          methodArgs = (case p_arguments params of None \<Rightarrow> [] | Some given \<Rightarrow> given);
          confidence = p_confidence params
      in if \<not> isEncodedId elementId then
           (Inr \<lparr>success = False,
                 message = ''Failed to execute '' @ quoted instruction @ '': elementId '' @
                           quoted elementId @
                           '' is not in encoded format (frameIndex-backendNodeId).'',
                 debug = None\<rparr>, [])
         else
           (case map_of (elements (ac_domState ctx)) elementId of
              None \<Rightarrow>
                (Inr \<lparr>success = False,
                      message = ''Failed to execute '' @ quoted instruction @ '': elementId '' @
                                quoted elementId @ '' not present in current DOM.'',
                      debug = None\<rparr>, [])
            | Some elementMetadata \<Rightarrow>
                (let debugInfo = (\<lambda>timings.
                       if ac_debug ctx then
                         Some \<lparr>dbg_requestedAction =
                                 \<lparr>p_elementId = elementId, p_method = methodName,
                                  p_arguments = Some methodArgs, p_instruction = instruction,
                                  p_confidence = confidence\<rparr>,
                               dbg_elementMetadata = elementMetadata,
                               dbg_timings = timings\<rparr>
                       else None);
                     shouldUseCDP = (ac_cdp ctx \<noteq> None \<and> ac_cdpActions ctx \<noteq> Some False);
                     (attempt, timings, events) =
                       (if shouldUseCDP then cdpPath ctx (the (ac_cdp ctx)) elementId methodName methodArgs
                        else playwrightPath playwright ctx elementId methodName methodArgs)
                 in case attempt of
                      Inr _ \<Rightarrow>
                        (Inr \<lparr>success = True,
                              message = ''Successfully executed: '' @ instruction,
                              debug = debugInfo timings\<rparr>, events)
                    | Inl error \<Rightarrow>
                        (Inr \<lparr>success = False,
                              message = ''Failed to execute '' @ quoted instruction @ '': '' @
                                        errorMessage error,
                              debug = debugInfo timings\<rparr>, events))))"

text \<open>
  An action context over the one-button snapshot with CDP switched off, and Playwright
  operations that find every locator and run every method.
\<close>

definition button_action_context :: ActionContext where
  "button_action_context =
     \<lparr>ac_domState = button_snapshot, ac_debug = False, ac_debugDir = None,
      ac_cdpActions = Some False, ac_cdp = None\<rparr>"

definition willing_playwright :: PlaywrightOperations where
  "willing_playwright =
     \<lparr>getElementLocator = (\<lambda>elementId xpaths frames debugging. Inr (''xpath=//button[1]'')),
      executePlaywrightMethod = (\<lambda>methodName methodArgs locator. Inr ())\<rparr>"

definition click_params :: "string \<Rightarrow> int PerformActionParams" where
  "click_params elementId =
     \<lparr>p_elementId = elementId, p_method = ''click'', p_arguments = None,
      p_instruction = ''click OK'', p_confidence = None\<rparr>"

chapter \<open>Verification\<close>

section \<open>Frame removal\<close>

lemma removal_inv_init: "children_consistent g \<Longrightarrow> removal_inv g wl g"
  by (auto simp: children_consistent_def removal_inv_def)

lemma removal_inv_skip:
  assumes "removal_inv g0 (fid # pending) g" "map_of (frames g) fid = None"
  shows "removal_inv g0 pending g"
  using assms unfolding removal_inv_def by (metis option.distinct(1) set_ConsD)

lemma map_of_frames_removeOne:
  "map_of (frames (snd (removeOne fid rcd g))) = (map_of (frames g))(fid := None)"
  by (simp add: frames_removeOne AList.delete_conv')

lemma map_of_children_removeOne:
  "map_of (children (snd (removeOne fid rcd g))) =
     ((case map_of (children g) (parentFrameId rcd) of
         None \<Rightarrow> map_of (children g)
       | Some pc \<Rightarrow> (map_of (children g))(parentFrameId rcd \<mapsto> filter (\<lambda>i. i \<noteq> fid) pc)))
      (Some fid := None)"
  by (simp add: removeOne_def Let_def AList.delete_conv' AList.update_conv' split: option.splits)

lemma fst_removeOne:
  "fst (removeOne fid rcd g) =
     (case (case map_of (children g) (parentFrameId rcd) of
         None \<Rightarrow> map_of (children g)
       | Some pc \<Rightarrow> (map_of (children g))(parentFrameId rcd \<mapsto> filter (\<lambda>i. i \<noteq> fid) pc)) (Some fid)
      of None \<Rightarrow> [] | Some cs \<Rightarrow> cs)"
  by (simp add: removeOne_def Let_def AList.update_conv' split: option.splits)

lemma removal_inv_step:
  assumes inv: "removal_inv g0 (fid # pending) g" and rec: "map_of (frames g) fid = Some rcd"
  shows "removal_inv g0 (fst (removeOne fid rcd g) @ pending) (snd (removeOne fid rcd g))"
proof -
  define ch2 where "ch2 = (case map_of (children g) (parentFrameId rcd) of
         None \<Rightarrow> map_of (children g)
       | Some pc \<Rightarrow> (map_of (children g))(parentFrameId rcd \<mapsto> filter (\<lambda>i. i \<noteq> fid) pc))"
  define g4 where "g4 = snd (removeOne fid rcd g)"
  define childIds where "childIds = fst (removeOne fid rcd g)"
  have fr: "map_of (frames g4) = (map_of (frames g))(fid := None)"
    unfolding g4_def by (rule map_of_frames_removeOne)
  have ch4: "map_of (children g4) = ch2(Some fid := None)"
    unfolding g4_def ch2_def by (rule map_of_children_removeOne)
  have cid: "childIds = (case ch2 (Some fid) of None \<Rightarrow> [] | Some cs \<Rightarrow> cs)"
    unfolding childIds_def ch2_def by (rule fst_removeOne)
  have "removal_inv g0 (childIds @ pending) g4"
    unfolding removal_inv_def
  proof (intro conjI allI impI)
    fix c r assume "map_of (frames g4) c = Some r"
    then show "map_of (frames g0) c = Some r"
      using inv unfolding removal_inv_def fr by (auto split: if_splits)
  next
    fix c r p assume a: "map_of (frames g4) c = Some r \<and> parentFrameId r = Some p"
    then have cne: "c \<noteq> fid" and cr: "map_of (frames g) c = Some r" and pr: "parentFrameId r = Some p"
      unfolding fr by (auto split: if_splits)
    from inv cr pr have "c \<in> set (fid # pending) \<or>
        (\<exists>cs. map_of (children g) (Some p) = Some cs \<and> c \<in> set cs)"
      unfolding removal_inv_def by blast
    then consider (wl) "c \<in> set pending" | (ch) cs where "map_of (children g) (Some p) = Some cs" "c \<in> set cs"
      using cne by auto
    then show "c \<in> set (childIds @ pending) \<or>
        (\<exists>cs. map_of (children g4) (Some p) = Some cs \<and> c \<in> set cs)"
    proof cases
      case wl then show ?thesis by simp
    next
      case ch
      have "\<exists>cs'. ch2 (Some p) = Some cs' \<and> c \<in> set cs'"
        using ch cne unfolding ch2_def by (auto split: option.splits)
      then obtain cs' where cs': "ch2 (Some p) = Some cs'" "c \<in> set cs'" by blast
      show ?thesis
      proof (cases "p = fid")
        case True
        then have "c \<in> set childIds" using cs' unfolding cid by simp
        then show ?thesis by simp
      next
        case False
        then have "map_of (children g4) (Some p) = Some cs'" using cs' unfolding ch4 by simp
        then show ?thesis using cs' by blast
      qed
    qed
  next
    fix p assume a: "map_of (frames g0) p \<noteq> None \<and> map_of (frames g4) p = None"
    show "map_of (children g4) (Some p) = None"
    proof (cases "p = fid")
      case True then show ?thesis unfolding ch4 by simp
    next
      case False
      then have "map_of (frames g) p = None" using a unfolding fr by (auto split: if_splits)
      then have "map_of (children g) (Some p) = None"
        using inv a unfolding removal_inv_def by blast
      then have "ch2 (Some p) = None"
        unfolding ch2_def by (auto split: option.splits)
      then show ?thesis unfolding ch4 by simp
    qed
  qed
  then show ?thesis unfolding g4_def childIds_def .
qed

lemma removal_inv_removeFrames:
  "removal_inv g0 wl g \<Longrightarrow> removal_inv g0 [] (removeFrames wl g)"
proof (induction wl g rule: removeFrames.induct)
  case (1 g)
  then show ?case by simp
next
  case (2 fid pending g)
  show ?case
  proof (cases "map_of (frames g) fid")
    case None
    then show ?thesis using 2 by (simp add: removal_inv_skip)
  next
    case (Some rcd)
    show ?thesis
      using "2.IH"(2)[OF Some removal_inv_step[OF "2.prems" Some]] Some by simp
  qed
qed

lemma removeFrames_shrinks:
  "map_of (frames (removeFrames wl g)) c = Some r \<Longrightarrow> map_of (frames g) c = Some r"
proof (induction wl g rule: removeFrames.induct)
  case (1 g)
  then show ?case by simp
next
  case (2 fid pending g)
  show ?case
  proof (cases "map_of (frames g) fid")
    case None
    then show ?thesis using 2 by simp
  next
    case (Some rcd)
    have "map_of (frames (snd (removeOne fid rcd g))) c = Some r"
      using "2.IH"(2)[OF Some] "2.prems" Some by simp
    then show ?thesis by (simp add: map_of_frames_removeOne split: if_splits)
  qed
qed

lemma removeFrames_absent_stays:
  "map_of (frames g) c = None \<Longrightarrow> map_of (frames (removeFrames wl g)) c = None"
  using removeFrames_shrinks[of wl g c] by (cases "map_of (frames (removeFrames wl g)) c") auto

lemma removeFrames_removes_listed:
  "fid \<in> set wl \<Longrightarrow> map_of (frames (removeFrames wl g)) fid = None"
proof (induction wl g rule: removeFrames.induct)
  case (1 g)
  then show ?case by simp
next
  case (2 h pending g)
  show ?case
  proof (cases "map_of (frames g) h")
    case None
    show ?thesis
    proof (cases "fid = h")
      case True
      then show ?thesis using None by (simp add: removeFrames_absent_stays)
    next
      case False
      then show ?thesis using 2 None by simp
    qed
  next
    case (Some rcd)
    show ?thesis
    proof (cases "fid = h")
      case True
      have "map_of (frames (snd (removeOne h rcd g))) h = None"
        by (simp add: map_of_frames_removeOne)
      then show ?thesis using True Some by (simp add: removeFrames_absent_stays)
    next
      case False
      then have "fid \<in> set (fst (removeOne h rcd g) @ pending)" using "2.prems" by simp
      then show ?thesis
        using "2.IH"(2)[OF Some] Some by simp
    qed
  qed
qed

lemma removeFrame_removes_descendants:
  assumes cc: "children_consistent g" and ex: "map_of (frames g) f \<noteq> None"
    and d: "descendant g f d"
  shows "map_of (frames (removeFrame f g)) d = None"
proof -
  define g' where "g' = removeFrame f g"
  have inv: "removal_inv g [] g'"
    unfolding g'_def removeFrame_def
    by (rule removal_inv_removeFrames[OF removal_inv_init[OF cc]])
  have fgone: "map_of (frames g') f = None"
    unfolding g'_def removeFrame_def by (rule removeFrames_removes_listed) simp
  have gone_child: "map_of (frames g') c = None"
    if p: "map_of (frames g) p \<noteq> None" "map_of (frames g') p = None"
      and c: "map_of (frames g) c = Some r" "parentFrameId r = Some p" for p c r
  proof (rule ccontr)
    assume "map_of (frames g') c \<noteq> None"
    then obtain r' where r': "map_of (frames g') c = Some r'" by auto
    then have "map_of (frames g) c = Some r'" using inv unfolding removal_inv_def by blast
    then have "r' = r" using c by simp
    then have "\<exists>cs. map_of (children g') (Some p) = Some cs \<and> c \<in> set cs"
      using inv r' c unfolding removal_inv_def by auto
    moreover have "map_of (children g') (Some p) = None"
      using inv p unfolding removal_inv_def by blast
    ultimately show False by simp
  qed
  from d have "map_of (frames g') d = None \<and> map_of (frames g) d \<noteq> None"
  proof (induction rule: descendant.induct)
    case (child c r)
    then show ?case using gone_child[OF ex fgone] by auto
  next
    case (step c d r)
    then show ?case using gone_child[of c d r] by auto
  qed
  then show ?thesis unfolding g'_def by simp
qed


lemma children_consistent_empty: "children_consistent emptyFrameGraph"
  by (simp add: children_consistent_def emptyFrameGraph_def)

lemma children_consistent_assignFrameIndex:
  "children_consistent g \<Longrightarrow> children_consistent (assignFrameIndex fid index g)"
  by (simp add: children_consistent_def assignFrameIndex_def)

lemma children_consistent_removeFrame:
  assumes "children_consistent g"
  shows "children_consistent (removeFrame fid g)"
proof -
  have "removal_inv g [] (removeFrame fid g)"
    unfolding removeFrame_def
    by (rule removal_inv_removeFrames[OF removal_inv_init[OF assms]])
  then show ?thesis
    unfolding removal_inv_def children_consistent_def by auto
qed

lemma children_updateParentRelation:
  "map_of (children (updateParentRelation f prev nxt g)) =
     (if prev = nxt then map_of (children g)
      else
        let prevChildren = (case map_of (children g) prev of None \<Rightarrow> [] | Some cs \<Rightarrow> cs);
            ch1 = (if prevChildren \<noteq> []
                   then (map_of (children g))(prev \<mapsto> filter (\<lambda>i. i \<noteq> f) prevChildren)
                   else map_of (children g));
            list = (case ch1 nxt of None \<Rightarrow> [] | Some cs \<Rightarrow> cs)
        in ch1(nxt \<mapsto> (if f \<in> set list then list else list @ [f])))"
  unfolding updateParentRelation_def Let_def
  by (auto simp: AList.update_conv' split: option.splits)

lemma frames_updateParentRelation [simp]:
  "frames (updateParentRelation f prev nxt g) = frames g"
  by (simp add: updateParentRelation_def Let_def)

lemma children_consistent_upsertFrame:
  assumes cc: "children_consistent g"
  shows "children_consistent (snd (upsertFrame r now g))"
proof -
  define f where "f = in_frameId r"
  define existing where "existing = map_of (frames g) f"
  define prev where "prev = Option.bind existing parentFrameId"
  define nxt where "nxt = in_parentFrameId r"
  define g' where "g' = snd (upsertFrame r now g)"
  obtain merged where
    fr: "map_of (frames g') = (map_of (frames g))(f \<mapsto> merged)" and
    mp: "parentFrameId merged = nxt" and
    ch: "map_of (children g') = map_of (children (updateParentRelation f prev nxt
           (g\<lparr>frames := AList.update f merged (frames g)\<rparr>)))"
    unfolding g'_def f_def existing_def prev_def nxt_def
    by (simp add: upsertFrame_def Let_def AList.update_conv')
  have chg: "map_of (children g') =
     (if prev = nxt then map_of (children g)
      else
        let prevChildren = (case map_of (children g) prev of None \<Rightarrow> [] | Some cs \<Rightarrow> cs);
            ch1 = (if prevChildren \<noteq> []
                   then (map_of (children g))(prev \<mapsto> filter (\<lambda>i. i \<noteq> f) prevChildren)
                   else map_of (children g));
            list = (case ch1 nxt of None \<Rightarrow> [] | Some cs \<Rightarrow> cs)
        in ch1(nxt \<mapsto> (if f \<in> set list then list else list @ [f])))"
    unfolding ch children_updateParentRelation Let_def by (simp cong: if_cong option.case_cong)
  show ?thesis
    unfolding children_consistent_def g'_def[symmetric]
  proof (intro allI impI)
    fix c rc p assume a: "map_of (frames g') c = Some rc \<and> parentFrameId rc = Some p"
    show "\<exists>cs. map_of (children g') (Some p) = Some cs \<and> c \<in> set cs"
    proof (cases "c = f")
      case True
      then have np: "nxt = Some p" using a fr mp by simp
      show ?thesis
      proof (cases "prev = nxt")
        case True
        then obtain e where "existing = Some e" "parentFrameId e = Some p"
          using np unfolding prev_def by (cases existing) auto
        then show ?thesis
          using cc \<open>c = f\<close> True unfolding chg children_consistent_def existing_def by auto
      next
        case False
        then show ?thesis using np \<open>c = f\<close> unfolding chg by (auto simp: Let_def)
      qed
    next
      case False
      then have "map_of (frames g) c = Some rc" using a fr by simp
      then obtain cs where cs: "map_of (children g) (Some p) = Some cs" "c \<in> set cs"
        using cc a unfolding children_consistent_def by blast
      show ?thesis
      proof (cases "prev = nxt")
        case True
        then show ?thesis using cs unfolding chg by simp
      next
        case neq: False
        define prevChildren where
          "prevChildren = (case map_of (children g) prev of None \<Rightarrow> [] | Some cs \<Rightarrow> cs)"
        define ch1 where "ch1 = (if prevChildren \<noteq> []
                   then (map_of (children g))(prev \<mapsto> filter (\<lambda>i. i \<noteq> f) prevChildren)
                   else map_of (children g))"
        have "\<exists>cs1. ch1 (Some p) = Some cs1 \<and> c \<in> set cs1"
          using cs False unfolding ch1_def prevChildren_def by auto
        then obtain cs1 where cs1: "ch1 (Some p) = Some cs1" "c \<in> set cs1" by blast
        have "map_of (children g') =
           ch1(nxt \<mapsto> (let list = (case ch1 nxt of None \<Rightarrow> [] | Some cs \<Rightarrow> cs)
                        in if f \<in> set list then list else list @ [f]))"
          using neq unfolding chg ch1_def prevChildren_def by (simp add: Let_def)
        then show ?thesis using cs1 by (auto simp: Let_def)
      qed
    qed
  qed
qed


lemma children_consistent_manager_upsertFrame:
  "children_consistent (graph m) \<Longrightarrow>
   children_consistent (graph (snd (manager_upsertFrame i now m)))"
  using children_consistent_upsertFrame[of "graph m" "i\<lparr>in_lastUpdated := Some now\<rparr>" now]
  by (auto simp: manager_upsertFrame_def split: prod.splits)

lemma children_consistent_setFrameSession:
  "children_consistent (graph m) \<Longrightarrow> children_consistent (graph (setFrameSession f s now m))"
  by (simp add: setFrameSession_def Let_def children_consistent_upsertFrame split: option.splits)

lemma children_consistent_createdHandler:
  "children_consistent (graph m) \<Longrightarrow>
   children_consistent (graph (createdHandler cid fr ty now m))"
  by (simp add: createdHandler_def Let_def children_consistent_upsertFrame split: option.splits)

lemma children_consistent_destroyedHandler:
  "children_consistent (graph m) \<Longrightarrow> children_consistent (graph (destroyedHandler cid m))"
  by (simp add: destroyedHandler_def split: option.splits)

lemma children_consistent_manager_assignFrameIndex:
  "children_consistent (graph m) \<Longrightarrow>
   children_consistent (graph (manager_assignFrameIndex f i m))"
  by (simp add: manager_assignFrameIndex_def children_consistent_assignFrameIndex)

lemma children_consistent_handlePageFrameDetached:
  "children_consistent (graph m) \<Longrightarrow>
   children_consistent (graph (handlePageFrameDetached f m))"
  by (simp add: handlePageFrameDetached_def manager_removeFrame_def children_consistent_removeFrame)

lemma children_consistent_new: "children_consistent (graph newFrameContextManager)"
  by (simp add: newFrameContextManager_def children_consistent_empty)

lemma children_consistent_nested: "children_consistent (graph nested_frames_manager)"
  unfolding nested_frames_manager_def Let_def
  by (intro children_consistent_createdHandler children_consistent_setFrameSession
        children_consistent_manager_upsertFrame children_consistent_new)

lemma removeFrame_removes_self: "getFrame (removeFrame f g) f = None"
  unfolding removeFrame_def getFrame_def by (rule removeFrames_removes_listed) simp

lemma manager_removeFrame_removes_self: "manager_getFrame (manager_removeFrame f m) f = None"
  by (simp add: manager_getFrame_def manager_removeFrame_def removeFrame_removes_self)

lemma handlePageFrameDetached_keeps_contexts:
  "frameExecutionContexts (handlePageFrameDetached f m) = frameExecutionContexts m \<and>
   executionContextToFrame (handlePageFrameDetached f m) = executionContextToFrame m"
  by (simp add: handlePageFrameDetached_def manager_removeFrame_def)

lemma nested_contexts:
  "frameExecutionContexts nested_frames_manager = [(''a'', 7), (''b'', 8)]"
  by code_simp

lemma nested_has_a: "manager_getFrame nested_frames_manager ''a'' \<noteq> None"
  by code_simp

lemma nested_parent_of_b:
  "map_option parentFrameId (map_of (frames (graph nested_frames_manager)) ''b'') = Some (Some ''a'')"
  by code_simp

text \<open>
  Claim C4 against the code. Handling \<open>Page.frameDetached\<close> for a frame that is in the
  graph removes that frame's record and the record of every descendant, as the claim
  says, and the session entry of the detached frame. But the handler never touches the
  two execution-context tables: they are after it exactly what they were before, so the
  execution-context ids stored for the removed frames are not released.
\<close>

theorem handlePageFrameDetached_removes_subtree:
  assumes "children_consistent (graph m)" and "manager_getFrame m f \<noteq> None"
  shows "manager_getFrame (handlePageFrameDetached f m) f = None \<and>
         (\<forall>d. descendant (graph m) f d \<longrightarrow> manager_getFrame (handlePageFrameDetached f m) d = None) \<and>
         getFrameSession (handlePageFrameDetached f m) f = None \<and>
         frameExecutionContexts (handlePageFrameDetached f m) = frameExecutionContexts m \<and>
         executionContextToFrame (handlePageFrameDetached f m) = executionContextToFrame m"
proof -
  have ex: "map_of (frames (graph m)) f \<noteq> None"
    using assms(2) by (simp add: manager_getFrame_def getFrame_def)
  have h: "handlePageFrameDetached f m = manager_removeFrame f m"
    using ex by (auto simp: handlePageFrameDetached_def getFrame_def)
  have 1: "manager_getFrame (handlePageFrameDetached f m) f = None"
    unfolding h by (rule manager_removeFrame_removes_self)
  have 2: "manager_getFrame (handlePageFrameDetached f m) d = None"
    if "descendant (graph m) f d" for d
    unfolding h using removeFrame_removes_descendants[OF assms(1) ex that]
    by (simp add: manager_getFrame_def getFrame_def manager_removeFrame_def)
  have 3: "getFrameSession (handlePageFrameDetached f m) f = None"
    unfolding h by (simp add: getFrameSession_def manager_removeFrame_def AList.delete_conv')
  show ?thesis
    using 1 2 3 handlePageFrameDetached_keeps_contexts by blast
qed

text \<open>The theorem at the nested manager: detaching \<open>a\<close> removes \<open>a\<close> and \<open>b\<close>.\<close>

theorem handlePageFrameDetached_removes_subtree_witness:
  "manager_getFrame nested_frames_manager ''a'' \<noteq> None \<and>
   descendant (graph nested_frames_manager) ''a'' ''b'' \<and>
   manager_getFrame (handlePageFrameDetached ''a'' nested_frames_manager) ''a'' = None \<and>
   manager_getFrame (handlePageFrameDetached ''a'' nested_frames_manager) ''b'' = None \<and>
   getFrameSession (handlePageFrameDetached ''a'' nested_frames_manager) ''a'' = None \<and>
   frameExecutionContexts (handlePageFrameDetached ''a'' nested_frames_manager) = [(''a'', 7), (''b'', 8)]"
proof -
  note ex = nested_has_a
  have "\<exists>r. map_of (frames (graph nested_frames_manager)) ''b'' = Some r \<and> parentFrameId r = Some ''a''"
    using nested_parent_of_b by auto
  then have d: "descendant (graph nested_frames_manager) ''a'' ''b''"
    by (auto intro: descendant.child)
  show ?thesis
    using handlePageFrameDetached_removes_subtree[OF children_consistent_nested ex] ex d
      nested_contexts
    by simp
qed

text \<open>
  Claim C4 fails at the nested manager: after the handler has removed frame \<open>a\<close> and its
  descendant \<open>b\<close>, the manager still answers with the execution contexts 7 and 8 of the
  two removed frames, and still holds the session of \<open>b\<close>.
\<close>

theorem handlePageFrameDetached_contexts_counterexample:
  "manager_getFrame nested_frames_manager ''a'' \<noteq> None \<and>
   manager_getFrame (handlePageFrameDetached ''a'' nested_frames_manager) ''a'' = None \<and>
   manager_getFrame (handlePageFrameDetached ''a'' nested_frames_manager) ''b'' = None \<and>
   getExecutionContextId (handlePageFrameDetached ''a'' nested_frames_manager) ''a'' = Some 7 \<and>
   getExecutionContextId (handlePageFrameDetached ''a'' nested_frames_manager) ''b'' = Some 8 \<and>
   getFrameSession (handlePageFrameDetached ''a'' nested_frames_manager) ''b'' =
     Some (Session ''root'' None)"
proof -
  note ex = nested_has_a
  then have h: "handlePageFrameDetached ''a'' nested_frames_manager =
      manager_removeFrame ''a'' nested_frames_manager"
    by (auto simp: handlePageFrameDetached_def manager_getFrame_def)
  then have gone: "manager_getFrame (handlePageFrameDetached ''a'' nested_frames_manager) ''a'' = None"
    by (simp add: manager_removeFrame_removes_self)
  have "\<exists>r. map_of (frames (graph nested_frames_manager)) ''b'' = Some r \<and> parentFrameId r = Some ''a''"
    using nested_parent_of_b by auto
  then have d: "descendant (graph nested_frames_manager) ''a'' ''b''"
    by (auto intro: descendant.child)
  have "map_of (frames (graph nested_frames_manager)) ''a'' \<noteq> None"
    using ex by (simp add: manager_getFrame_def getFrame_def)
  from removeFrame_removes_descendants[OF children_consistent_nested this d]
  have gone_b: "manager_getFrame (handlePageFrameDetached ''a'' nested_frames_manager) ''b'' = None"
    unfolding h by (simp add: manager_getFrame_def getFrame_def manager_removeFrame_def)
  have kept: "getExecutionContextId (handlePageFrameDetached ''a'' nested_frames_manager) ''a'' = Some 7"
    "getExecutionContextId (handlePageFrameDetached ''a'' nested_frames_manager) ''b'' = Some 8"
    using handlePageFrameDetached_keeps_contexts[of "''a''" nested_frames_manager] nested_contexts
    by (simp_all add: getExecutionContextId_def)
  have "getFrameSession nested_frames_manager ''b'' = Some (Session ''root'' None)"
    by code_simp
  then have session_b: "getFrameSession (handlePageFrameDetached ''a'' nested_frames_manager) ''b'' =
      Some (Session ''root'' None)"
    unfolding h by (simp add: getFrameSession_def manager_removeFrame_def AList.delete_conv')
  show ?thesis using ex gone gone_b kept session_b by simp
qed

section \<open>Frame indices\<close>

text \<open>
  Claim C2 at a concrete input. Frames \<open>a\<close> and \<open>b\<close> are both in the graph;
  \<open>assignFrameIndex(a, 1)\<close> followed by the overwrite \<open>assignFrameIndex(b, 1)\<close> leaves
  both frames reporting index 1 (the stale entry of \<open>a\<close> in \<open>frameIdToIndex\<close> is not
  removed), while index 1 resolves to \<open>b\<close> only.
\<close>

theorem assignFrameIndex_shared_index:
  "(let m1 = snd (manager_upsertFrame (frameInput ''main'' None) 0 newFrameContextManager);
        m2 = snd (manager_upsertFrame (frameInput ''a'' (Some ''main'')) 1 m1);
        m3 = snd (manager_upsertFrame (frameInput ''b'' (Some ''main'')) 2 m2);
        m4 = manager_assignFrameIndex ''a'' 1 m3;
        m5 = manager_assignFrameIndex ''b'' 1 m4
    in manager_getFrame m5 ''a'' \<noteq> None \<and> manager_getFrame m5 ''b'' \<noteq> None \<and>
       manager_getFrameIndex m5 ''a'' = Some 1 \<and>
       manager_getFrameIndex m5 ''b'' = Some 1 \<and>
       manager_getFrameIdByIndex m5 1 = Some ''b'')"
  by code_simp

section \<open>Snapshot cache: lemmas\<close>

lemma cache_get_dirty: "page \<in> dirty c \<Longrightarrow> cache_get page now c = (None, c)"
  by (simp add: cache_get_def)

lemma dirty_do_call:
  "page \<in> dirty c \<Longrightarrow> \<not> is_set_on page call \<Longrightarrow> page \<in> dirty (do_call call c)"
  by (cases call)
     (auto simp: cache_get_def cache_invalidate_def cache_set_def Let_def split: option.splits)

lemma dirty_cache_calls:
  "page \<in> dirty c \<Longrightarrow> \<forall>call \<in> set calls. \<not> is_set_on page call \<Longrightarrow>
   page \<in> dirty (cache_calls calls c)"
  unfolding cache_calls_def
  by (induction calls arbitrary: c) (auto simp: dirty_do_call)

lemma dirty_cache_invalidate: "page \<in> dirty (cache_invalidate page c)"
  by (simp add: cache_invalidate_def Let_def)

lemma cache_get_stale:
  "entries c page = Some e \<Longrightarrow> now - timestamp e > 1000 \<Longrightarrow>
   fst (cache_get page now c) = None \<and> page \<in> dirty (snd (cache_get page now c))"
  by (simp add: cache_get_def MAX_CACHE_AGE_MS_def dirty_cache_invalidate)

lemma cache_get_hit:
  "fst (cache_get page now c) = Some s \<Longrightarrow>
   page \<notin> dirty c \<and> (\<exists>e. entries c page = Some e \<and> state e = s \<and> now - timestamp e \<le> 1000)"
  by (auto simp: cache_get_def MAX_CACHE_AGE_MS_def split: if_splits option.splits)

section \<open>Snapshot cache\<close>

text \<open>
  Claim C7. A read of the cache returns a snapshot only for a page that is not dirty and
  whose entry is at most 1000 ms old. Every action that is not read-only marks the page
  dirty right after \<open>runAction\<close> returns. Once a page is dirty, and once a read has found
  its entry more than 1000 ms old, every later read of that page is a miss, whatever other
  reads and invalidations happen in between, until \<open>set\<close> stores a snapshot for the page;
  a snapshot just stored is served again.
\<close>

theorem cached_snapshot_never_stale:
  "(fst (cache_get page now c) = Some s \<longrightarrow>
      page \<notin> dirty c \<and> (\<exists>e. entries c page = Some e \<and> state e = s \<and> now - timestamp e \<le> 1000)) \<and>
   (actionType \<notin> READ_ONLY_ACTIONS \<longrightarrow> page \<in> dirty (markDirtyAfterAction actionType page c)) \<and>
   (page \<in> dirty c \<and> (\<forall>call \<in> set calls. \<not> is_set_on page call) \<longrightarrow>
      fst (cache_get page now (cache_calls calls c)) = None) \<and>
   (entries c page = Some e \<and> now - timestamp e > 1000 \<and>
    (\<forall>call \<in> set calls. \<not> is_set_on page call) \<longrightarrow>
      fst (cache_get page now c) = None \<and>
      fst (cache_get page later (cache_calls calls (snd (cache_get page now c)))) = None) \<and>
   (now - stored \<le> 1000 \<longrightarrow>
      fst (cache_get page now (cache_set page fresh stored c)) = Some fresh)"
proof -
  have 1: "fst (cache_get page now c) = Some s \<longrightarrow>
      page \<notin> dirty c \<and> (\<exists>e. entries c page = Some e \<and> state e = s \<and> now - timestamp e \<le> 1000)"
    by (rule impI) (rule cache_get_hit)
  have 2: "actionType \<notin> READ_ONLY_ACTIONS \<longrightarrow> page \<in> dirty (markDirtyAfterAction actionType page c)"
    by (simp add: markDirtyAfterAction_def markDomSnapshotDirty_def dirty_cache_invalidate)
  have 3: "page \<in> dirty c \<and> (\<forall>call \<in> set calls. \<not> is_set_on page call) \<longrightarrow>
      fst (cache_get page now (cache_calls calls c)) = None"
    by (simp add: dirty_cache_calls cache_get_dirty)
  have 4: "entries c page = Some e \<and> now - timestamp e > 1000 \<and>
    (\<forall>call \<in> set calls. \<not> is_set_on page call) \<longrightarrow>
      fst (cache_get page now c) = None \<and>
      fst (cache_get page later (cache_calls calls (snd (cache_get page now c)))) = None"
  proof
    assume a: "entries c page = Some e \<and> now - timestamp e > 1000 \<and>
      (\<forall>call \<in> set calls. \<not> is_set_on page call)"
    then have "page \<in> dirty (snd (cache_get page now c))" by (simp add: cache_get_stale)
    with a show "fst (cache_get page now c) = None \<and>
      fst (cache_get page later (cache_calls calls (snd (cache_get page now c)))) = None"
      by (simp add: cache_get_stale dirty_cache_calls cache_get_dirty)
  qed
  have 5: "now - stored \<le> 1000 \<longrightarrow>
      fst (cache_get page now (cache_set page fresh stored c)) = Some fresh"
    by (simp add: cache_get_def cache_set_def Let_def MAX_CACHE_AGE_MS_def)
  show ?thesis by (rule conjI[OF 1 conjI[OF 2 conjI[OF 3 conjI[OF 4 5]]]])
qed

text \<open>The theorem at a cache that holds a snapshot: a hit, then misses after a click and after one second, then a hit on a fresh snapshot.\<close>

theorem cached_snapshot_never_stale_witness:
  "fst (cache_get ''page'' 5400 example_cache) = Some ''snapshot S'' \<and>
   ''click'' \<notin> READ_ONLY_ACTIONS \<and>
   fst (cache_get ''page'' 5401
     (cache_calls [Get ''page'' 5400, Set ''other'' ''T'' 5400, Invalidate ''other'']
        (markDirtyAfterAction ''click'' ''page'' example_cache))) = None \<and>
   fst (cache_get ''page'' 6001 example_cache) = None \<and>
   fst (cache_get ''page'' 5500
     (cache_calls [Get ''other'' 5400] (snd (cache_get ''page'' 6001 example_cache)))) = None \<and>
   fst (cache_get ''page'' 6100 (cache_set ''page'' ''snapshot T'' 6050
     (snd (cache_get ''page'' 6001 example_cache)))) = Some ''snapshot T''"
proof -
  have e: "entries example_cache ''page'' = Some \<lparr>state = ''snapshot S'', timestamp = 5000, version = 1\<rparr>"
    by (simp add: example_cache_def cache_set_def emptyDomSnapshotCache_def)
  have click: "''click'' \<notin> READ_ONLY_ACTIONS" by (simp add: READ_ONLY_ACTIONS_def)
  have hit: "fst (cache_get ''page'' 5400 example_cache) = Some ''snapshot S''"
    using cached_snapshot_never_stale[where now=5400 and stored=5000 and page="''page''"
        and fresh="''snapshot S''" and c=emptyDomSnapshotCache]
    by (simp add: example_cache_def)
  have d: "''page'' \<in> dirty (markDirtyAfterAction ''click'' ''page'' example_cache)"
    using cached_snapshot_never_stale[where page="''page''" and c=example_cache
        and actionType="''click''"] click by simp
  note t1 = cached_snapshot_never_stale[where now=5401 and page="''page''"
      and c="markDirtyAfterAction ''click'' ''page'' example_cache"
      and calls="[Get ''page'' 5400, Set ''other'' ''T'' 5400, Invalidate ''other'']"]
  note t2 = cached_snapshot_never_stale[where now=6001 and page="''page''" and c=example_cache
      and calls="[Get ''other'' 5400]"
      and e="\<lparr>state = ''snapshot S'', timestamp = 5000, version = 1\<rparr>" and later=5500]
  note t3 = cached_snapshot_never_stale[where now=6100 and stored=6050 and page="''page''"
      and c="snd (cache_get ''page'' 6001 example_cache)" and fresh="''snapshot T''"]
  show ?thesis
    using hit click d t1 t2 t3 e by simp
qed

section \<open>Numbers and encoded ids: lemmas\<close>

lemma digitChar_digitValue: "isDigit c \<Longrightarrow> digitChar (digitValue c) = c"
  by (simp add: isDigit_def digitChar_def digitValue_def)

lemma digitValue_less: "isDigit c \<Longrightarrow> digitValue c < 10"
  by (auto simp: isDigit_def digitValue_def)

lemma digitChar_numerals:
  "digitChar 0 = CHR ''0''" "digitChar (Suc 0) = CHR ''1''" "digitChar 2 = CHR ''2''"
  "digitChar 3 = CHR ''3''" "digitChar 4 = CHR ''4''" "digitChar 5 = CHR ''5''"
  "digitChar 6 = CHR ''6''" "digitChar 7 = CHR ''7''" "digitChar 8 = CHR ''8''"
  "digitChar 9 = CHR ''9''"
  using digitChar_digitValue[of "CHR ''0''"] digitChar_digitValue[of "CHR ''1''"]
    digitChar_digitValue[of "CHR ''2''"] digitChar_digitValue[of "CHR ''3''"]
    digitChar_digitValue[of "CHR ''4''"] digitChar_digitValue[of "CHR ''5''"]
    digitChar_digitValue[of "CHR ''6''"] digitChar_digitValue[of "CHR ''7''"]
    digitChar_digitValue[of "CHR ''8''"] digitChar_digitValue[of "CHR ''9''"]
  by (simp_all add: isDigit_def digitValue_def)

lemma digitValue_zero: "isDigit c \<Longrightarrow> digitValue c = 0 \<longleftrightarrow> c = CHR ''0''"
proof -
  assume d: "isDigit c"
  have "digitValue c = 0 \<longleftrightarrow> (of_char c :: nat) = 48"
    using d by (auto simp: isDigit_def digitValue_def)
  also have "\<dots> \<longleftrightarrow> (of_char c :: nat) = of_char (CHR ''0'')" by simp
  also have "\<dots> \<longleftrightarrow> c = CHR ''0''" by (rule of_char_eq_iff)
  finally show ?thesis .
qed

lemma isDigit_not_sign: "isDigit c \<Longrightarrow> c \<noteq> CHR ''-'' \<and> c \<noteq> CHR ''+'' \<and> \<not> isWhiteSpace c"
  by (auto simp: isDigit_def isWhiteSpace_def)

lemma decimalValue_snoc: "decimalValue (ds @ [c]) = decimalValue ds * 10 + digitValue c"
  by (simp add: decimalValue_def)

lemma digits10_decimalValue_pos:
  "ds \<noteq> [] \<Longrightarrow> list_all isDigit ds \<Longrightarrow> hd ds \<noteq> CHR ''0'' \<Longrightarrow>
   0 < decimalValue ds \<and> digits10 (decimalValue ds) = ds"
proof (induction ds rule: rev_induct)
  case Nil
  then show ?case by simp
next
  case (snoc c ds)
  have c: "isDigit c" using snoc.prems by simp
  show ?case
  proof (cases "ds = []")
    case True
    then have "c \<noteq> CHR ''0''" using snoc.prems by simp
    then have "0 < digitValue c" using digitValue_zero[OF c] by simp
    moreover have "decimalValue [c] = digitValue c" by (simp add: decimalValue_def)
    ultimately show ?thesis
      using True digitValue_less[OF c] digitChar_digitValue[OF c]
      by (simp add: digits10.simps[of "digitValue c"])
  next
    case False
    then have "0 < decimalValue ds \<and> digits10 (decimalValue ds) = ds"
      using snoc by simp
    then show ?thesis
      using digitValue_less[OF c] digitChar_digitValue[OF c]
      by (simp add: decimalValue_snoc digits10.simps[of "decimalValue ds * 10 + digitValue c"])
  qed
qed

lemma digits10_decimalValue:
  "canonicalDigits ds \<Longrightarrow> digits10 (decimalValue ds) = ds"
proof (cases "ds = ''0''")
  case True
  have "decimalValue ''0'' = 0" by (simp add: decimalValue_def digitValue_def)
  moreover have "digits10 0 = ''0''"
  proof -
    have "char_of (48::nat) = char_of (of_char (CHR ''0'') :: nat)" by simp
    then have "char_of (48::nat) = CHR ''0''" by (simp only: char_of_char)
    then show ?thesis by (simp add: digits10.simps[of 0] digitChar_def)
  qed
  ultimately show ?thesis using True by simp
next
  case False
  assume "canonicalDigits ds"
  then show ?thesis
    using False digits10_decimalValue_pos[of ds] by (simp add: canonicalDigits_def)
qed

lemma bitLength_bounds: "0 < n \<Longrightarrow> 2 ^ (bitLength n - 1) \<le> n"
proof (induction n rule: bitLength.induct)
  case (1 n)
  show ?case
  proof (cases "n div 2 = 0")
    case True
    then show ?thesis using "1.prems" by (simp add: bitLength.simps)
  next
    case False
    then have "2 ^ (bitLength (n div 2) - 1) \<le> n div 2" using 1 by simp
    moreover have "bitLength (n div 2) > 0" using False by (simp add: bitLength.simps)
    ultimately have "2 * 2 ^ (bitLength (n div 2) - 1) \<le> n" by simp
    moreover have "bitLength n - 1 = Suc (bitLength (n div 2) - 1)"
      using "1.prems" \<open>bitLength (n div 2) > 0\<close> by (simp add: bitLength.simps[of n])
    ultimately show ?thesis by simp
  qed
qed

lemma bitLength_upper: "n < 2 ^ bitLength n"
proof (induction n rule: bitLength.induct)
  case (1 n)
  show ?case
  proof (cases "n = 0")
    case True
    then show ?thesis by simp
  next
    case False
    then have "n div 2 < 2 ^ bitLength (n div 2)" using 1 by simp
    then have "n < 2 * 2 ^ bitLength (n div 2)" by linarith
    then show ?thesis using False by (simp add: bitLength.simps[of n])
  qed
qed

lemma roundToDouble_small: "n < 2 ^ 53 \<Longrightarrow> roundToDouble n = Some n"
  by (simp add: roundToDouble_def)

lemma roundToDouble_large:
  assumes n: "2 ^ 53 \<le> n" and r: "roundToDouble n = Some v"
  shows "2 ^ 53 \<le> v"
proof -
  define e where "e = bitLength n - 53"
  define q where "q = n div 2 ^ e"
  have npos: "0 < n" using n by (simp add: less_le_trans[of 0 "2^53" n])
  have "(2::nat) ^ 53 < 2 ^ bitLength n"
    using n bitLength_upper[of n] by linarith
  then have bl: "53 < bitLength n" by (rule power_less_imp_less_exp[rotated]) simp
  then have e: "bitLength n - 1 = 52 + e" "1 \<le> e" unfolding e_def by simp_all
  have "(2::nat) ^ (52 + e) \<le> n" using bitLength_bounds[OF npos] e by simp
  then have "(2::nat) ^ 52 * 2 ^ e \<le> n" by (simp add: power_add)
  then have q52: "2 ^ 52 \<le> q"
    unfolding q_def by (simp add: less_eq_div_iff_mult_less_eq)
  define q' where "q' = (if n mod 2 ^ e > 2 ^ (e - 1) \<or> (n mod 2 ^ e = 2 ^ (e - 1) \<and> odd q)
                         then q + 1 else q)"
  from n have nl: "(n < 2 ^ 53) = False" by simp
  have "roundToDouble n = (if q' * 2 ^ e \<ge> 2 ^ 1024 then None else Some (q' * 2 ^ e))"
    by (simp only: roundToDouble_def Let_def q'_def q_def e_def nl if_False)
  then have "v = q' * 2 ^ e" using r by (metis option.distinct(1) option.inject)
  moreover have "q \<le> q'" unfolding q'_def by simp
  ultimately have q': "q \<le> q'" "v = q' * 2 ^ e" by simp_all
  have "(2::nat) ^ 1 \<le> 2 ^ e" using e(2) by (intro power_increasing) auto
  moreover have "(2::nat) ^ 52 \<le> q'" using q52 q'(1) by (rule le_trans)
  ultimately have "(2::nat) ^ 52 * 2 ^ 1 \<le> q' * 2 ^ e" by (rule mult_le_mono[rotated])
  then show ?thesis using q'(2) by simp
qed

lemma roundToDouble_exact:
  "roundToDouble m = Some v \<Longrightarrow> v < 2 ^ 53 \<Longrightarrow> m = v"
proof (cases "m < 2 ^ 53")
  case True
  assume "roundToDouble m = Some v"
  then show ?thesis using True by (simp add: roundToDouble_small)
next
  case False
  assume "roundToDouble m = Some v" "v < 2 ^ 53"
  then show ?thesis using roundToDouble_large[of m v] False by simp
qed


lemma length_digits10_le: "0 < m \<Longrightarrow> v < 10 ^ m \<Longrightarrow> length (digits10 v) \<le> m"
proof (induction v arbitrary: m rule: digits10.induct)
  case (1 n)
  show ?case
  proof (cases "n < 10")
    case True
    then show ?thesis using "1.prems" by (simp add: digits10.simps[of n])
  next
    case False
    then obtain m' where m': "m = Suc m'" "0 < m'"
      using "1.prems" by (cases m; cases "m - 1") auto
    have "n div 10 < 10 ^ m'" using "1.prems" m' by (simp add: div_less_iff_less_mult mult.commute)
    then have "length (digits10 (n div 10)) \<le> m'" using "1.IH"[OF False m'(2)] by simp
    then show ?thesis using False m' by (simp add: digits10.simps[of n])
  qed
qed

lemma digitChar_0: "digitChar 0 = CHR ''0''"
proof -
  have "char_of (48::nat) = char_of (of_char (CHR ''0'') :: nat)" by simp
  then show ?thesis by (simp only: digitChar_def add_0_right char_of_char)
qed

lemma digits10_times_10: "0 < n \<Longrightarrow> digits10 (n * 10) = digits10 n @ ''0''"
  by (simp add: digits10.simps[of "n * 10"] digitChar_0)

lemma digits10_times_power:
  "0 < s \<Longrightarrow> digits10 (s * 10 ^ j) = digits10 s @ replicate j (CHR ''0'')"
proof (induction j)
  case 0
  then show ?case by simp
next
  case (Suc j)
  have "s * 10 ^ Suc j = (s * 10 ^ j) * 10" by simp
  moreover have "0 < s * 10 ^ j" using Suc.prems by simp
  ultimately have "digits10 (s * 10 ^ Suc j) = digits10 (s * 10 ^ j) @ ''0''"
    using digits10_times_10 by presburger
  then show ?case using Suc by (simp add: replicate_append_same)
qed

lemma nearest_mem: "nearest v k cs = Some c \<Longrightarrow> c \<in> set cs"
  by (induction cs arbitrary: c) (auto split: option.splits if_splits)

lemma candidates_exact:
  assumes "(s, n) \<in> set (candidates v k)" "v < 2 ^ 53"
  shows "s * 10 ^ (n - k) = v \<and> 0 < s \<and> n \<le> Suc (length (digits10 v))"
proof -
  define P where "P = (\<lambda>(s, n). 10 ^ (k - 1) \<le> s \<and> s < 10 ^ k \<and>
                                      roundToDouble (s * 10 ^ (n - k)) = Some v)"
  define n0 where "n0 = length (digits10 v)"
  define two where "two = (\<lambda>n. [(v div 10 ^ (n - k), n), (v div 10 ^ (n - k) + 1, n)])"
  have "candidates v k =
      (if n0 < k then [] else filter P (two n0)) @
      (if n0 + 1 < k then [] else filter P (two (n0 + 1)))"
    unfolding candidates_def P_def n0_def two_def by simp
  then have "(s, n) \<in> set (filter P (two n0)) \<or> (s, n) \<in> set (filter P (two (n0 + 1)))"
    using assms(1) by (simp split: if_splits)
  then have "P (s, n) \<and> ((s, n) \<in> set (two n0) \<or> (s, n) \<in> set (two (n0 + 1)))"
    by auto
  then have a: "10 ^ (k - 1) \<le> s" "roundToDouble (s * 10 ^ (n - k)) = Some v" "n \<le> Suc n0"
    unfolding P_def two_def by auto
  have "0 < s" using a(1) by (rule less_le_trans[rotated]) simp
  then show ?thesis using roundToDouble_exact[OF a(2) assms(2)] a(3) n0_def by simp
qed

lemma shortestDigits_exact:
  assumes v: "v < 2 ^ 53"
  shows "case shortestDigits v k fuel of (s, k', n) \<Rightarrow>
           s * 10 ^ (n - k') = v \<and> (0 < v \<longrightarrow> 0 < s) \<and> n \<le> Suc (length (digits10 v))"
proof (induction fuel arbitrary: k)
  case 0
  then show ?case by (simp add: shortestDigits.simps[of v k 0])
next
  case (Suc fuel)
  show ?case
  proof (cases "nearest v k (candidates v k)")
    case None
    then show ?thesis using Suc[of "k + 1"] by (simp add: shortestDigits.simps[of v k "Suc fuel"])
  next
    case (Some c)
    obtain s n where c: "c = (s, n)" by (cases c)
    have "(s, n) \<in> set (candidates v k)" using nearest_mem[OF Some] c by simp
    then show ?thesis
      using candidates_exact[OF _ v] Some c by (simp add: shortestDigits.simps[of v k "Suc fuel"])
  qed
qed

lemma positiveToString_safe:
  assumes "0 < v" "v < 2 ^ 53"
  shows "positiveToString v = digits10 v"
proof -
  obtain s k n where r: "shortestDigits v 1 (length (digits10 v)) = (s, k, n)"
    by (cases "shortestDigits v 1 (length (digits10 v))") auto
  have p: "s * 10 ^ (n - k) = v" "0 < s" "n \<le> Suc (length (digits10 v))"
    using shortestDigits_exact[OF assms(2), of 1 "length (digits10 v)"] r assms(1) by auto
  have "v < 10 ^ 16" using assms(2) by simp
  then have "length (digits10 v) \<le> 16" by (rule length_digits10_le[rotated]) simp
  then have "n \<le> 21" using p(3) by simp
  then have "positiveToString v = digits10 s @ replicate (n - k) (CHR ''0'')"
    unfolding positiveToString_def r by simp
  also have "\<dots> = digits10 (s * 10 ^ (n - k))" using digits10_times_power[OF p(2)] by simp
  finally show ?thesis using p(1) by simp
qed

lemma numberToString_safe:
  "v < 2 ^ 53 \<Longrightarrow> numberToString (Num (int v)) = digits10 v"
proof (cases "v = 0")
  case True
  have "char_of (48::nat) = char_of (of_char (CHR ''0'') :: nat)" by simp
  then have "char_of (48::nat) = CHR ''0''" by (simp only: char_of_char)
  then show ?thesis using True by (simp add: numberToString_def digits10.simps[of 0] digitChar_def)
next
  case False
  assume "v < 2 ^ 53"
  then show ?thesis using False by (simp add: numberToString_def positiveToString_safe)
qed

lemma parseInt10_digits:
  assumes "ds \<noteq> []" "list_all isDigit ds"
  shows "parseInt10 ds = (case roundToDouble (decimalValue ds) of
                            None \<Rightarrow> PosInfinity | Some v \<Rightarrow> Num (int v))"
proof -
  obtain c cs where ds: "ds = c # cs" using assms(1) by (cases ds) auto
  have c: "isDigit c" using assms(2) ds by simp
  have 1: "dropWhile isWhiteSpace ds = ds" using ds isDigit_not_sign[OF c] by simp
  have 2: "takeWhile isDigit ds = ds" using assms(2) by (simp add: list_all_iff)
  show ?thesis
    using isDigit_not_sign[OF c] assms(1)
    by (simp add: parseInt10_def 1 2 Let_def) (simp add: ds split: option.splits)
qed

lemma splitOn_no_sep: "c \<notin> set xs \<Longrightarrow> splitOn c xs = [xs]"
  by (induction xs) auto

lemma splitOn_one_sep:
  "c \<notin> set xs \<Longrightarrow> c \<notin> set ys \<Longrightarrow> splitOn c (xs @ c # ys) = [xs, ys]"
  by (induction xs) (auto simp: splitOn_no_sep)

lemma digits_no_hyphen: "list_all isDigit ds \<Longrightarrow> CHR ''-'' \<notin> set ds"
  using isDigit_not_sign by (auto simp: list_all_iff)

lemma isEncodedId_digits:
  assumes "a \<noteq> []" "list_all isDigit a" "b \<noteq> []" "list_all isDigit b"
  shows "isEncodedId (a @ ''-'' @ b)"
proof -
  have nd: "\<not> isDigit (CHR ''-'')" by (simp add: isDigit_def)
  have "takeWhile isDigit (a @ CHR ''-'' # b) = a"
    using assms(2) nd by (simp add: takeWhile_append2 list_all_iff)
  moreover have "dropWhile isDigit (a @ CHR ''-'' # b) = CHR ''-'' # b"
    using assms(2) nd by (simp add: dropWhile_append2 list_all_iff)
  ultimately show ?thesis using assms by (simp add: isEncodedId_def Let_def)
qed

section \<open>Encoded id round trip\<close>

text \<open>
  Claim C9, as the code has it. For every encoded id \<open>a-b\<close> whose two components are
  decimal digits without a leading zero and with a value below \<open>2 ^ 53\<close> (the integers a
  JavaScript number holds exactly), the id matches the wire format and formatting the
  parsed components gives the id back.
\<close>

theorem encodedId_roundtrip_safe:
  assumes "canonicalDigits a" "canonicalDigits b"
    and "decimalValue a < 2 ^ 53" "decimalValue b < 2 ^ 53"
  shows "isEncodedId (a @ ''-'' @ b) \<and>
         createEncodedId (parsed_frameIndex (parseEncodedId (a @ ''-'' @ b)))
                         (parsed_backendNodeId (parseEncodedId (a @ ''-'' @ b)))
           = a @ ''-'' @ b"
proof -
  have da: "a \<noteq> []" "list_all isDigit a" and db: "b \<noteq> []" "list_all isDigit b"
    using assms(1,2) by (simp_all add: canonicalDigits_def)
  have sp: "splitOn (CHR ''-'') (a @ CHR ''-'' # b) = [a, b]"
    by (rule splitOn_one_sep[OF digits_no_hyphen[OF da(2)] digits_no_hyphen[OF db(2)]])
  have pa: "parseInt10 a = Num (int (decimalValue a))"
    using parseInt10_digits[OF da] roundToDouble_small[OF assms(3)] by simp
  have pb: "parseInt10 b = Num (int (decimalValue b))"
    using parseInt10_digits[OF db] roundToDouble_small[OF assms(4)] by simp
  have "createEncodedId (parsed_frameIndex (parseEncodedId (a @ ''-'' @ b)))
                         (parsed_backendNodeId (parseEncodedId (a @ ''-'' @ b)))
        = digits10 (decimalValue a) @ ''-'' @ digits10 (decimalValue b)"
    by (simp add: parseEncodedId_def sp pa pb createEncodedId_def
        numberToString_safe[OF assms(3)] numberToString_safe[OF assms(4)])
  then show ?thesis
    using isEncodedId_digits[OF da db] digits10_decimalValue[OF assms(1)]
      digits10_decimalValue[OF assms(2)] by simp
qed





text \<open>The steps of parsing \<open>9007199254740993\<close> and printing the result.\<close>

lemma bitLength_at_2_53: "bitLength 9007199254740993 = 54"
  by (simp add: bitLength.simps)

lemma roundToDouble_at_2_53: "roundToDouble 9007199254740993 = Some 9007199254740992"
  by (simp add: roundToDouble_def bitLength_at_2_53 Let_def)

lemma decimalValue_at_2_53: "decimalValue ''9007199254740993'' = 9007199254740993"
  by (simp add: decimalValue_def digitValue_def)

lemma parseInt10_at_2_53: "parseInt10 ''9007199254740993'' = Num 9007199254740992"
  by (simp add: parseInt10_def Let_def isWhiteSpace_def isDigit_def decimalValue_at_2_53 roundToDouble_at_2_53)

lemma digits10_at_2_53: "digits10 9007199254740992 = ''9007199254740992''"
  by (simp add: digits10.simps digitChar_numerals)

lemma length_digits10_at_2_53: "length (digits10 9007199254740992) = 16"
  by (simp add: digits10_at_2_53)

lemma candidates_below_16: "candidates 9007199254740992 (Suc 0) = [] \<and>
   candidates 9007199254740992 2 = [] \<and>
   candidates 9007199254740992 3 = [] \<and>
   candidates 9007199254740992 4 = [] \<and>
   candidates 9007199254740992 5 = [] \<and>
   candidates 9007199254740992 6 = [] \<and>
   candidates 9007199254740992 7 = [] \<and>
   candidates 9007199254740992 8 = [] \<and>
   candidates 9007199254740992 9 = [] \<and>
   candidates 9007199254740992 10 = [] \<and>
   candidates 9007199254740992 11 = [] \<and>
   candidates 9007199254740992 12 = [] \<and>
   candidates 9007199254740992 13 = [] \<and>
   candidates 9007199254740992 14 = [] \<and>
   candidates 9007199254740992 15 = []"
  apply (simp add: candidates_def length_digits10_at_2_53)
  apply (simp add: roundToDouble_def bitLength.simps Let_def)
  done

lemma candidates_at_16: "candidates 9007199254740992 16 = [(9007199254740992, 16), (9007199254740993, 16)]"
  apply (simp add: candidates_def length_digits10_at_2_53)
  apply (simp add: roundToDouble_def bitLength.simps Let_def)
  done


lemma shortestDigits_at_2_53: "shortestDigits 9007199254740992 (Suc 0) 16 = (9007199254740992, 16, 16)"
proof -
  have s16: "shortestDigits 9007199254740992 16 (Suc 0) = (9007199254740992, 16, 16)"
    by (simp add: shortestDigits.simps[of _ 16 "Suc 0"] candidates_at_16 distanceTo_def)
  have s15: "shortestDigits 9007199254740992 15 2 = (9007199254740992, 16, 16)"
    using s16 candidates_below_16 by (simp add: shortestDigits.simps[of _ 15 2])
  have s14: "shortestDigits 9007199254740992 14 3 = (9007199254740992, 16, 16)"
    using s15 candidates_below_16 by (simp add: shortestDigits.simps[of _ 14 3])
  have s13: "shortestDigits 9007199254740992 13 4 = (9007199254740992, 16, 16)"
    using s14 candidates_below_16 by (simp add: shortestDigits.simps[of _ 13 4])
  have s12: "shortestDigits 9007199254740992 12 5 = (9007199254740992, 16, 16)"
    using s13 candidates_below_16 by (simp add: shortestDigits.simps[of _ 12 5])
  have s11: "shortestDigits 9007199254740992 11 6 = (9007199254740992, 16, 16)"
    using s12 candidates_below_16 by (simp add: shortestDigits.simps[of _ 11 6])
  have s10: "shortestDigits 9007199254740992 10 7 = (9007199254740992, 16, 16)"
    using s11 candidates_below_16 by (simp add: shortestDigits.simps[of _ 10 7])
  have s9: "shortestDigits 9007199254740992 9 8 = (9007199254740992, 16, 16)"
    using s10 candidates_below_16 by (simp add: shortestDigits.simps[of _ 9 8])
  have s8: "shortestDigits 9007199254740992 8 9 = (9007199254740992, 16, 16)"
    using s9 candidates_below_16 by (simp add: shortestDigits.simps[of _ 8 9])
  have s7: "shortestDigits 9007199254740992 7 10 = (9007199254740992, 16, 16)"
    using s8 candidates_below_16 by (simp add: shortestDigits.simps[of _ 7 10])
  have s6: "shortestDigits 9007199254740992 6 11 = (9007199254740992, 16, 16)"
    using s7 candidates_below_16 by (simp add: shortestDigits.simps[of _ 6 11])
  have s5: "shortestDigits 9007199254740992 5 12 = (9007199254740992, 16, 16)"
    using s6 candidates_below_16 by (simp add: shortestDigits.simps[of _ 5 12])
  have s4: "shortestDigits 9007199254740992 4 13 = (9007199254740992, 16, 16)"
    using s5 candidates_below_16 by (simp add: shortestDigits.simps[of _ 4 13])
  have s3: "shortestDigits 9007199254740992 3 14 = (9007199254740992, 16, 16)"
    using s4 candidates_below_16 by (simp add: shortestDigits.simps[of _ 3 14])
  have s2: "shortestDigits 9007199254740992 2 15 = (9007199254740992, 16, 16)"
    using s3 candidates_below_16 by (simp add: shortestDigits.simps[of _ 2 15])
  show ?thesis
  proof -
    have "Suc 0 + 1 = (2::nat)" by simp
    then show ?thesis
      using s2 candidates_below_16 by (simp only: shortestDigits.simps[of _ "Suc 0" 16]) simp
  qed
qed

lemma numberToString_at_2_53: "numberToString (Num 9007199254740992) = ''9007199254740992''"
proof -
  have "positiveToString 9007199254740992 = digits10 9007199254740992"
    by (simp add: positiveToString_def length_digits10_at_2_53 shortestDigits_at_2_53)
  then show ?thesis by (simp add: numberToString_def digits10_at_2_53)
qed

lemma numberToString_zero: "numberToString (parseInt10 ''0'') = ''0''"
  by (simp add: parseInt10_def Let_def isWhiteSpace_def isDigit_def decimalValue_def
      digitValue_def roundToDouble_def numberToString_def)

text \<open>
  Claim C9 as stated, for every string of the wire format, fails: \<open>parseInt\<close> rounds
  \<open>9007199254740993 = 2 ^ 53 + 1\<close> to the double \<open>2 ^ 53\<close>, which prints as
  \<open>9007199254740992\<close>.
\<close>

theorem encodedId_roundtrip_counterexample:
  "isEncodedId ''0-9007199254740993'' \<and>
   canonicalDigits ''0'' \<and> canonicalDigits ''9007199254740993'' \<and>
   createEncodedId (parsed_frameIndex (parseEncodedId ''0-9007199254740993''))
                   (parsed_backendNodeId (parseEncodedId ''0-9007199254740993''))
     = ''0-9007199254740992'' \<and>
   ''0-9007199254740992'' \<noteq> ''0-9007199254740993''"
proof -
  have 1: "isEncodedId ''0-9007199254740993''"
    by (simp add: isEncodedId_def isDigit_def Let_def)
  have 2: "canonicalDigits ''0''" "canonicalDigits ''9007199254740993''"
    by (simp_all add: canonicalDigits_def isDigit_def)
  have 3: "parseEncodedId ''0-9007199254740993'' =
      \<lparr>parsed_frameIndex = parseInt10 ''0'', parsed_backendNodeId = parseInt10 ''9007199254740993''\<rparr>"
    by (simp add: parseEncodedId_def)
  show ?thesis
    using 1 2 by (simp add: 3 createEncodedId_def numberToString_zero parseInt10_at_2_53 numberToString_at_2_53)
qed

text \<open>The theorem at the id \<open>2-4711\<close>.\<close>

theorem encodedId_roundtrip_safe_witness:
  "canonicalDigits ''2'' \<and> canonicalDigits ''4711'' \<and>
   decimalValue ''2'' < 2 ^ 53 \<and> decimalValue ''4711'' < 2 ^ 53 \<and>
   isEncodedId ''2-4711'' \<and>
   createEncodedId (parsed_frameIndex (parseEncodedId ''2-4711''))
                   (parsed_backendNodeId (parseEncodedId ''2-4711'')) = ''2-4711''"
proof -
  have h: "canonicalDigits ''2''" "canonicalDigits ''4711''"
    "decimalValue ''2'' < 2 ^ 53" "decimalValue ''4711'' < 2 ^ 53"
    by (simp_all add: canonicalDigits_def isDigit_def decimalValue_def digitValue_def)
  show ?thesis
    using encodedId_roundtrip_safe[OF h] h by simp
qed

section \<open>captureDOMState: lemmas\<close>

lemma not_recoverable_nothing:
  "\<not> isRecoverableDomError (JsError ''Failed to capture DOM state'')"
  by (simp add: isRecoverableDomError_def NAVIGATION_ERROR_SNIPPETS_def startsWith_def)


lemma failedAttempts_empty [simp]: "failedAttempts a a = []"
  by (simp add: failedAttempts_def)

lemma failedAttempts_first:
  "a < k \<Longrightarrow> failedAttempts a k = [CaptureAttempt a, WaitForSettledDOM] @ failedAttempts (Suc a) k"
  by (simp add: failedAttempts_def upt_conv_Cons)

lemma attemptsMade_append [simp]: "attemptsMade (xs @ ys) = attemptsMade xs + attemptsMade ys"
  by (simp add: attemptsMade_def)

lemma attemptsMade_failedAttempts: "a \<le> k \<Longrightarrow> attemptsMade (failedAttempts a k) = k - a"
proof (induction "k - a" arbitrary: a)
  case 0
  then show ?case by (simp add: attemptsMade_def)
next
  case (Suc d)
  then have "a < k" by simp
  moreover have "attemptsMade (failedAttempts (Suc a) k) = k - Suc a"
    using Suc by simp
  ultimately show ?case
    by (simp add: failedAttempts_first) (simp add: attemptsMade_def)
qed

lemma captureLoop_retry_step:
  assumes "int a < maxRetries" "retryable (getDOM a)"
  shows "captureLoop getDOM maxRetries a le trace =
         captureLoop getDOM maxRetries (a + 1) (Some (outcomeError (getDOM a)))
           (trace @ [CaptureAttempt a, WaitForSettledDOM])"
  using assms
  by (subst captureLoop.simps)
     (auto simp: retryable_def outcomeError_def split: capture_outcome.splits)

lemma captureLoop_final_step:
  assumes "int a < maxRetries" "\<not> retryable (getDOM a)"
  shows "captureLoop getDOM maxRetries a le trace =
         (outcomeResult (getDOM a), trace @ [CaptureAttempt a])"
  using assms
  by (subst captureLoop.simps)
     (auto simp: retryable_def outcomeError_def outcomeResult_def not_recoverable_nothing
           split: capture_outcome.splits)

lemma captureLoop_done:
  assumes "\<not> int a < maxRetries"
  shows "captureLoop getDOM maxRetries a le trace =
         (Inl (case le of
                Some error \<Rightarrow> error
              | None \<Rightarrow> JsError (''Failed to capture DOM state after '' @
                                 numberToString (Num maxRetries) @ '' attempts'')),
          trace)"
  using assms by (subst captureLoop.simps) simp

lemma captureLoop_first_success:
  assumes "\<forall>j. a \<le> j \<and> j < k \<longrightarrow> retryable (getDOM j)" "a \<le> k" "int k < maxRetries"
    "\<not> retryable (getDOM k)"
  shows "captureLoop getDOM maxRetries a le trace =
         (outcomeResult (getDOM k), trace @ failedAttempts a k @ [CaptureAttempt k])"
  using assms
proof (induction "k - a" arbitrary: a le trace)
  case 0
  then have "a = k" by simp
  then show ?case using 0 by (simp add: captureLoop_final_step)
next
  case (Suc d)
  then have ak: "a < k" by simp
  then have r: "retryable (getDOM a)" "int a < maxRetries" using Suc.prems by auto
  have "captureLoop getDOM maxRetries (a + 1) (Some (outcomeError (getDOM a)))
           (trace @ [CaptureAttempt a, WaitForSettledDOM]) =
        (outcomeResult (getDOM k),
         (trace @ [CaptureAttempt a, WaitForSettledDOM]) @ failedAttempts (a + 1) k @ [CaptureAttempt k])"
    using Suc.hyps(2) Suc.prems ak by (intro Suc.hyps(1)) auto
  then show ?case
    using captureLoop_retry_step[of a maxRetries getDOM le trace] r failedAttempts_first[OF ak]
    by simp
qed

lemma captureLoop_exhausted:
  assumes "\<forall>j. a \<le> j \<and> int j < maxRetries \<longrightarrow> retryable (getDOM j)"
  shows "\<exists>e. captureLoop getDOM maxRetries a le trace =
           (Inl e, trace @ failedAttempts a (max a (nat maxRetries)))"
  using assms
proof (induction "nat (maxRetries - int a)" arbitrary: a le trace)
  case 0
  then have "\<not> int a < maxRetries" by simp
  moreover from this have "max a (nat maxRetries) = a" by simp
  ultimately show ?case by (simp add: captureLoop_done)
next
  case (Suc d)
  then have lt: "int a < maxRetries" by simp
  then have r: "retryable (getDOM a)" using Suc.prems by simp
  have m: "max a (nat maxRetries) = nat maxRetries" "max (a + 1) (nat maxRetries) = nat maxRetries"
    "a < nat maxRetries"
    using lt by simp_all
  have "\<exists>e. captureLoop getDOM maxRetries (a + 1) (Some (outcomeError (getDOM a)))
           (trace @ [CaptureAttempt a, WaitForSettledDOM]) =
        (Inl e, (trace @ [CaptureAttempt a, WaitForSettledDOM]) @
                  failedAttempts (a + 1) (max (a + 1) (nat maxRetries)))"
  proof (rule Suc.hyps(1))
    show "d = nat (maxRetries - int (a + 1))" using Suc.hyps(2) by simp
    show "\<forall>j. a + 1 \<le> j \<and> int j < maxRetries \<longrightarrow> retryable (getDOM j)"
      using Suc.prems by simp
  qed
  then obtain e where e: "captureLoop getDOM maxRetries (a + 1) (Some (outcomeError (getDOM a)))
           (trace @ [CaptureAttempt a, WaitForSettledDOM]) =
        (Inl e, (trace @ [CaptureAttempt a, WaitForSettledDOM]) @
                  failedAttempts (a + 1) (nat maxRetries))"
    unfolding m by blast
  have "captureLoop getDOM maxRetries a le trace =
        (Inl e, trace @ failedAttempts a (nat maxRetries))"
    unfolding captureLoop_retry_step[of a maxRetries getDOM le trace, OF lt r] e
      failedAttempts_first[OF m(3)] by simp
  then show ?case unfolding m by blast
qed

section \<open>Capture retries\<close>

text \<open>
  Claim C6, as the code has it. \<open>captureDOMState\<close> makes at most \<open>maxRetries\<close> capture
  attempts, which is three when the caller leaves the option out. It stops at the first
  attempt that is not a recoverable failure: a snapshot that is not the placeholder is
  returned, any other error is thrown at once, and nothing is attempted after it. Every
  failed attempt before it is followed by a wait for the DOM to settle. When every
  attempt allowed fails recoverably it throws; a snapshot it returns is never the
  placeholder.
\<close>

theorem captureDOMState_retries:
  "(case captureDOMState getDOM options of
      (result, trace) \<Rightarrow>
        attemptsMade trace \<le> nat (maxRetriesOf options) \<and>
        (opt_maxRetries options = None \<longrightarrow> attemptsMade trace \<le> 3) \<and>
        (\<forall>k. int k < maxRetriesOf options \<and> (\<forall>j<k. retryable (getDOM j)) \<and>
             \<not> retryable (getDOM k) \<longrightarrow>
             result = outcomeResult (getDOM k) \<and>
             trace = failedAttempts 0 k @ [CaptureAttempt k]) \<and>
        ((\<forall>j. int j < maxRetriesOf options \<longrightarrow> retryable (getDOM j)) \<longrightarrow>
             (\<exists>e. result = Inl e) \<and> trace = failedAttempts 0 (nat (maxRetriesOf options))) \<and>
        (\<forall>snapshot. result = Inr snapshot \<longrightarrow> \<not> isPlaceholderSnapshot snapshot))"
proof -
  define limit where "limit = maxRetriesOf options"
  have cd: "captureDOMState getDOM options = captureLoop getDOM limit 0 None []"
    by (simp add: captureDOMState_def limit_def maxRetriesOf_def DOM_CAPTURE_MAX_ATTEMPTS_def
        split: option.splits)
  have first: "captureDOMState getDOM options =
      (outcomeResult (getDOM k), failedAttempts 0 k @ [CaptureAttempt k])"
    if "int k < limit" "\<forall>j<k. retryable (getDOM j)" "\<not> retryable (getDOM k)" for k
    unfolding cd using captureLoop_first_success[of 0 k getDOM limit None "[]"] that by simp
  have all: "\<exists>e. captureDOMState getDOM options = (Inl e, failedAttempts 0 (nat limit))"
    if "\<forall>j. int j < limit \<longrightarrow> retryable (getDOM j)"
    unfolding cd using captureLoop_exhausted[of 0 limit getDOM None "[]"] that by simp
  obtain result trace where rt: "captureDOMState getDOM options = (result, trace)"
    by (cases "captureDOMState getDOM options")
  have bound_placeholder: "attemptsMade trace \<le> nat limit \<and>
      (\<forall>snapshot. result = Inr snapshot \<longrightarrow> \<not> isPlaceholderSnapshot snapshot)"
  proof (cases "\<forall>j. int j < limit \<longrightarrow> retryable (getDOM j)")
    case True
    then show ?thesis using all rt by (auto simp: attemptsMade_failedAttempts)
  next
    case False
    then obtain k0 where k0: "int k0 < limit" "\<not> retryable (getDOM k0)" by blast
    define k where "k = (LEAST k. int k < limit \<and> \<not> retryable (getDOM k))"
    have k: "int k < limit \<and> \<not> retryable (getDOM k)"
      unfolding k_def by (rule LeastI[of _ k0]) (use k0 in simp)
    have least: "retryable (getDOM j)" if "j < k" for j
    proof (rule ccontr)
      assume "\<not> retryable (getDOM j)"
      moreover have "int j < limit" using that k by simp
      ultimately have "k \<le> j" unfolding k_def by (intro Least_le) simp
      then show False using that by simp
    qed
    have "captureDOMState getDOM options =
        (outcomeResult (getDOM k), failedAttempts 0 k @ [CaptureAttempt k])"
      using first[of k] k least by simp
    then have r: "result = outcomeResult (getDOM k)" "trace = failedAttempts 0 k @ [CaptureAttempt k]"
      using rt by simp_all
    have "attemptsMade trace = k + 1"
      unfolding r by (simp add: attemptsMade_failedAttempts) (simp add: attemptsMade_def)
    moreover have "\<not> isPlaceholderSnapshot snapshot" if "result = Inr snapshot" for snapshot
      using that k unfolding r
      by (auto simp: outcomeResult_def retryable_def split: capture_outcome.splits)
    ultimately show ?thesis using k by auto
  qed
  have three: "opt_maxRetries options = None \<longrightarrow> attemptsMade trace \<le> 3"
    using bound_placeholder by (auto simp: limit_def maxRetriesOf_def)
  have f: "\<forall>k. int k < limit \<and> (\<forall>j<k. retryable (getDOM j)) \<and> \<not> retryable (getDOM k) \<longrightarrow>
             result = outcomeResult (getDOM k) \<and> trace = failedAttempts 0 k @ [CaptureAttempt k]"
    using first rt by simp
  have a: "(\<forall>j. int j < limit \<longrightarrow> retryable (getDOM j)) \<longrightarrow>
             (\<exists>e. result = Inl e) \<and> trace = failedAttempts 0 (nat limit)"
    using all rt by auto
  show ?thesis
    unfolding limit_def[symmetric] rt
    using bound_placeholder three f a by simp
qed


lemma retryable_closed_target: "retryable (closed_target j)"
  by (simp add: closed_target_def retryable_def isRecoverableDomError_def
      NAVIGATION_ERROR_SNIPPETS_def startsWith_def)

lemma retryable_flaky_capture: "retryable (flaky_capture 0)" "\<not> retryable (flaky_capture 1)"
  by (simp_all add: flaky_capture_def retryable_def isRecoverableDomError_def
      NAVIGATION_ERROR_SNIPPETS_def startsWith_def isPlaceholderSnapshot_def button_snapshot_def)

text \<open>
  The theorem at a capture whose first attempt dies with the execution context and whose
  second attempt succeeds, and at a capture whose target stays closed; both with the
  default options.
\<close>

theorem captureDOMState_retries_witness:
  "captureDOMState flaky_capture \<lparr>opt_maxRetries = None\<rparr> =
     (Inr button_snapshot, [CaptureAttempt 0, WaitForSettledDOM, CaptureAttempt 1]) \<and>
   (\<exists>e. captureDOMState closed_target \<lparr>opt_maxRetries = None\<rparr> =
     (Inl e, [CaptureAttempt 0, WaitForSettledDOM, CaptureAttempt 1, WaitForSettledDOM,
              CaptureAttempt 2, WaitForSettledDOM]))"
proof -
  have f: "failedAttempts 0 (Suc 0) = [CaptureAttempt 0, WaitForSettledDOM]"
    "failedAttempts 0 3 = [CaptureAttempt 0, WaitForSettledDOM, CaptureAttempt 1, WaitForSettledDOM,
              CaptureAttempt 2, WaitForSettledDOM]"
    by (simp_all add: failedAttempts_def upt_rec)
  have m: "maxRetriesOf \<lparr>opt_maxRetries = None\<rparr> = 3" by (simp add: maxRetriesOf_def)
  have r: "outcomeResult (flaky_capture (Suc 0)) = Inr button_snapshot"
    by (simp add: outcomeResult_def flaky_capture_def)
  have 1: "captureDOMState flaky_capture \<lparr>opt_maxRetries = None\<rparr> =
     (Inr button_snapshot, [CaptureAttempt 0, WaitForSettledDOM, CaptureAttempt 1])"
    using captureDOMState_retries[where getDOM=flaky_capture and options="\<lparr>opt_maxRetries = None\<rparr>"]
      retryable_flaky_capture
    by (cases "captureDOMState flaky_capture \<lparr>opt_maxRetries = None\<rparr>")
       (auto simp: m f r dest!: spec[of _ 1])
  have 2: "\<exists>e. captureDOMState closed_target \<lparr>opt_maxRetries = None\<rparr> =
     (Inl e, [CaptureAttempt 0, WaitForSettledDOM, CaptureAttempt 1, WaitForSettledDOM,
              CaptureAttempt 2, WaitForSettledDOM])"
    using captureDOMState_retries[where getDOM=closed_target and options="\<lparr>opt_maxRetries = None\<rparr>"]
      retryable_closed_target
    by (cases "captureDOMState closed_target \<lparr>opt_maxRetries = None\<rparr>")
       (auto simp: m f)
  show ?thesis using 1 2 by simp
qed

text \<open>
  Claim C6 as stated, at most three attempts, fails when the caller passes
  \<open>maxRetries: 5\<close>: a target that stays closed is captured five times.
\<close>

theorem captureDOMState_three_attempts_counterexample:
  "attemptsMade (snd (captureDOMState closed_target \<lparr>opt_maxRetries = Some 5\<rparr>)) = 5"
proof -
  obtain e where "captureLoop closed_target 5 0 None [] = (Inl e, [] @ failedAttempts 0 (max 0 (nat 5)))"
    using captureLoop_exhausted[where a=0 and maxRetries=5 and getDOM=closed_target and le=None and trace="[]"] retryable_closed_target by auto
  then show ?thesis
    by (simp add: captureDOMState_def attemptsMade_failedAttempts)
qed

section \<open>Element resolution: lemmas\<close>

lemma recoveries_append [simp]: "recoveries (xs @ ys) = recoveries xs + recoveries ys"
  by (simp add: recoveries_def)

lemma resolveNodeCalls_append [simp]:
  "resolveNodeCalls (xs @ ys) = resolveNodeCalls xs + resolveNodeCalls ys"
  by (simp add: resolveNodeCalls_def)

lemma recoveries_Cons [simp]:
  "recoveries (ev # xs) = (if isRecovery ev then 1 else 0) + recoveries xs"
  "recoveries [] = 0"
  by (simp_all add: recoveries_def)

lemma resolveNodeCalls_Cons [simp]:
  "resolveNodeCalls (ev # xs) = (if isResolveNode ev then 1 else 0) + resolveNodeCalls xs"
  "resolveNodeCalls [] = 0"
  by (simp_all add: resolveNodeCalls_def)

lemma missingNodeFailure_isResolveNode: "missingNodeFailure ev \<Longrightarrow> isResolveNode ev"
  by (cases ev) auto


lemma no_resolveNode_no_failure:
  "resolveNodeCalls events = 0 \<Longrightarrow> \<forall>ev\<in>set events. \<not> missingNodeFailure ev"
  by (induction events) (auto dest: missingNodeFailure_isResolveNode split: if_splits)

lemma followsOn_refl [simp]: "followsOn run run []"
  by (simp add: followsOn_def)

lemma followsOn_trans:
  "followsOn a b xs \<Longrightarrow> followsOn b c ys \<Longrightarrow> followsOn a c (xs @ ys)"
  by (simp add: followsOn_def)

lemma sameButBackendNodeMap_refl [simp]: "sameButBackendNodeMap ctx ctx"
  by (simp add: sameButBackendNodeMap_def)

lemma sameButBackendNodeMap_trans:
  "sameButBackendNodeMap a b \<Longrightarrow> sameButBackendNodeMap b c \<Longrightarrow> sameButBackendNodeMap a c"
  by (simp add: sameButBackendNodeMap_def)

lemma sameButBackendNodeMap_sameFrames:
  "sameButBackendNodeMap ctx ctx' \<Longrightarrow> sameFrames ctx ctx'"
  by (simp add: sameButBackendNodeMap_def sameFrames_def)

lemma sameFrames_refl [simp]: "sameFrames ctx ctx"
  by (simp add: sameFrames_def)

lemma sameFrames_trans: "sameFrames a b \<Longrightarrow> sameFrames b c \<Longrightarrow> sameFrames a c"
  by (simp add: sameFrames_def)

lemma sendCommand_step:
  "followsOn run (sendCommand browser command run) [command]"
  "run_ctx (sendCommand browser command run) = run_ctx run"
  "run_module (sendCommand browser command run) = run_module run"
  by (simp_all add: sendCommand_def followsOn_def)

lemma ensureRuntimeEnabled_events:
  "\<exists>events. followsOn run (ensureRuntimeEnabled browser session run) events \<and>
            recoveries events = 0 \<and> resolveNodeCalls events = 0"
  "run_ctx (ensureRuntimeEnabled browser session run) = run_ctx run"
  by (auto simp: ensureRuntimeEnabled_def sendCommand_def followsOn_def)

lemma ensureDomEnabled_events:
  "\<exists>events. followsOn run (ensureDomEnabled browser session run) events \<and>
            recoveries events = 0 \<and> resolveNodeCalls events = 0"
  "run_ctx (ensureDomEnabled browser session run) = run_ctx run"
  by (auto simp: ensureDomEnabled_def sendCommand_def followsOn_def)

lemma describeAndRelease_events:
  assumes "describeAndRelease browser encodedId frameIndex session objectId run = (result, run')"
  shows "\<exists>description.
           followsOn run run' [DOMDescribeNode session objectId description,
                               RuntimeReleaseObject session objectId] \<and>
           (\<forall>backendId. result = Inr backendId \<longrightarrow>
              description = Inr (Some backendId) \<and>
              rc_backendNodeMap (run_ctx run') encodedId = Some backendId)"
    and "sameButBackendNodeMap (run_ctx run) (run_ctx run')"
  using assms
  by (auto simp: describeAndRelease_def Let_def sendCommand_def followsOn_def
                 sameButBackendNodeMap_def split: sum.splits option.splits)

lemma evaluateXPath_events:
  assumes "evaluateXPath browser encodedId frameIndex session xpath contextId run = (result, run')"
  shows "\<exists>events. followsOn run run' events \<and> recoveries events = 0 \<and>
           resolveNodeCalls events = 0 \<and>
           (\<forall>backendId. result = Inr backendId \<longrightarrow>
              rc_backendNodeMap (run_ctx run') encodedId = Some backendId \<and>
              (\<exists>pre objectId. events = pre @
                 [RuntimeEvaluate session xpath contextId (Inr (Some objectId)),
                  DOMDescribeNode session objectId (Inr (Some backendId)),
                  RuntimeReleaseObject session objectId]))"
    and "sameButBackendNodeMap (run_ctx run) (run_ctx run')"
proof -
  define runA where "runA = ensureRuntimeEnabled browser session run"
  define run1 where "run1 = ensureDomEnabled browser session runA"
  define evalResponse where
    "evalResponse = runtimeEvaluate browser (run_trace run1) session xpath contextId"
  define evaluated where "evaluated = RuntimeEvaluate session xpath contextId evalResponse"
  define run2 where "run2 = sendCommand browser evaluated run1"
  obtain en1 where en1: "followsOn run runA en1" "recoveries en1 = 0" "resolveNodeCalls en1 = 0"
    using ensureRuntimeEnabled_events(1)[of run browser session] unfolding runA_def by blast
  obtain en2 where en2: "followsOn runA run1 en2" "recoveries en2 = 0" "resolveNodeCalls en2 = 0"
    using ensureDomEnabled_events(1)[of runA browser session] unfolding run1_def by blast
  have f2: "followsOn run run2 (en1 @ en2 @ [evaluated])"
    using followsOn_trans[OF en1(1) followsOn_trans[OF en2(1) sendCommand_step(1)]]
    unfolding run2_def .
  have c2: "run_ctx run2 = run_ctx run"
    by (simp add: run2_def run1_def runA_def sendCommand_step ensureDomEnabled_events
                  ensureRuntimeEnabled_events)
  have q2: "recoveries (en1 @ en2 @ [evaluated]) = 0"
           "resolveNodeCalls (en1 @ en2 @ [evaluated]) = 0"
    using en1 en2 by (simp_all add: evaluated_def)
  have unfolded: "(result, run') =
     (case evalResponse of
        Inl error \<Rightarrow> (Inl error, run2)
      | Inr objectId \<Rightarrow>
          if \<not> truthyString objectId then
            (Inl (JsError (''Failed to recover node for '' @ encodedId @ '' (frame '' @
                           numberToString frameIndex @ '') via XPath'')), run2)
          else describeAndRelease browser encodedId frameIndex session (the objectId) run2)"
    unfolding assms[symmetric] evaluateXPath_def Let_def run2_def evaluated_def evalResponse_def
      run1_def runA_def ..
  have all: "(\<exists>events. followsOn run run' events \<and> recoveries events = 0 \<and>
           resolveNodeCalls events = 0 \<and>
           (\<forall>backendId. result = Inr backendId \<longrightarrow>
              rc_backendNodeMap (run_ctx run') encodedId = Some backendId \<and>
              (\<exists>pre objectId. events = pre @
                 [RuntimeEvaluate session xpath contextId (Inr (Some objectId)),
                  DOMDescribeNode session objectId (Inr (Some backendId)),
                  RuntimeReleaseObject session objectId]))) \<and>
         sameButBackendNodeMap (run_ctx run) (run_ctx run')"
  proof (cases evalResponse)
    case (Inl error)
    then have "result = Inl error" "run' = run2" using unfolded by simp_all
    then show ?thesis using f2 q2 c2 by (auto intro!: exI[of _ "en1 @ en2 @ [evaluated]"])
  next
    case (Inr objectId)
    show ?thesis
    proof (cases "truthyString objectId")
      case False
      then have "\<exists>e. result = Inl e" "run' = run2" using unfolded Inr by simp_all
      then show ?thesis using f2 q2 c2 by (auto intro!: exI[of _ "en1 @ en2 @ [evaluated]"])
    next
      case True
      then obtain oid where oid: "objectId = Some oid" by (auto simp: truthyString_def)
      have d: "describeAndRelease browser encodedId frameIndex session oid run2 = (result, run')"
        using unfolded Inr True oid by simp
      from describeAndRelease_events(1)[OF d] obtain description where
        fd: "followsOn run2 run' [DOMDescribeNode session oid description,
                                  RuntimeReleaseObject session oid]"
        and rd: "\<forall>backendId. result = Inr backendId \<longrightarrow>
                   description = Inr (Some backendId) \<and>
                   rc_backendNodeMap (run_ctx run') encodedId = Some backendId"
        by blast
      let ?events = "(en1 @ en2 @ [evaluated]) @
                     [DOMDescribeNode session oid description, RuntimeReleaseObject session oid]"
      have 1: "followsOn run run' ?events" using followsOn_trans[OF f2 fd] .
      have 2: "recoveries ?events = 0" "resolveNodeCalls ?events = 0" using q2 by simp_all
      have 3: "\<forall>backendId. result = Inr backendId \<longrightarrow>
              rc_backendNodeMap (run_ctx run') encodedId = Some backendId \<and>
              (\<exists>pre objectId. ?events = pre @
                 [RuntimeEvaluate session xpath contextId (Inr (Some objectId)),
                  DOMDescribeNode session objectId (Inr (Some backendId)),
                  RuntimeReleaseObject session objectId])"
        using rd Inr oid
        by (auto simp: evaluated_def intro!: exI[of _ "en1 @ en2"] exI[of _ oid])
      have 4: "sameButBackendNodeMap (run_ctx run) (run_ctx run')"
        using describeAndRelease_events(2)[OF d] c2 by simp
      show ?thesis using 1 2 3 4 by blast
    qed
  qed
  show "\<exists>events. followsOn run run' events \<and> recoveries events = 0 \<and>
           resolveNodeCalls events = 0 \<and>
           (\<forall>backendId. result = Inr backendId \<longrightarrow>
              rc_backendNodeMap (run_ctx run') encodedId = Some backendId \<and>
              (\<exists>pre objectId. events = pre @
                 [RuntimeEvaluate session xpath contextId (Inr (Some objectId)),
                  DOMDescribeNode session objectId (Inr (Some backendId)),
                  RuntimeReleaseObject session objectId]))"
    and "sameButBackendNodeMap (run_ctx run) (run_ctx run')"
    using all by blast+
qed

lemma recoverBackendNodeId_events:
  assumes "recoverBackendNodeId browser encodedId session frameIndex frameInfo fid strict run =
             (result, run')"
  shows "\<exists>rest. followsOn run run' (Recovery encodedId # rest) \<and> recoveries rest = 0 \<and>
           resolveNodeCalls rest = 0 \<and>
           (\<forall>backendId. result = Inr backendId \<longrightarrow>
              rc_backendNodeMap (run_ctx run') encodedId = Some backendId \<and>
              (\<exists>pre contextId objectId. Recovery encodedId # rest = pre @
                 [RuntimeEvaluate session (the (rc_xpathMap (run_ctx run) encodedId)) contextId
                    (Inr (Some objectId)),
                  DOMDescribeNode session objectId (Inr (Some backendId)),
                  RuntimeReleaseObject session objectId]))"
    and "sameButBackendNodeMap (run_ctx run) (run_ctx run')"
proof -
  define run0 where "run0 = run\<lparr>run_trace := run_trace run @ [Recovery encodedId]\<rparr>"
  have f0: "followsOn run run0 [Recovery encodedId]" "run_ctx run0 = run_ctx run"
    by (simp_all add: run0_def followsOn_def)
  define stored where "stored = orElse (getExecutionContextId (run_manager run0) fid)
                                  (Option.bind frameInfo if_executionContextId)"
  define waiting where "waiting = waitForExecutionContext (run_manager run0) fid
                                    (contextCreated browser (run_trace run0) fid)"
  define contextId where "contextId = (if \<not> truthyNumber stored then fst waiting else stored)"
  define waited where "waited = (if \<not> truthyNumber stored then [Waited fid (fst waiting)] else [])"
  define run1 where
    "run1 = (if \<not> truthyNumber stored
             then run0\<lparr>run_manager := snd waiting,
                       run_trace := run_trace run0 @ [Waited fid (fst waiting)]\<rparr>
             else run0)"
  define missing where
    "missing \<longleftrightarrow> frameIndex \<noteq> Num 0 \<and> \<not> truthyNumber contextId \<and> strict"
  have f1: "followsOn run run1 (Recovery encodedId # waited)" "run_ctx run1 = run_ctx run"
    by (simp_all add: run1_def run0_def waited_def followsOn_def)
  have w: "recoveries waited = 0" "resolveNodeCalls waited = 0"
    by (simp_all add: waited_def)
  have all: "(\<exists>rest. followsOn run run' (Recovery encodedId # rest) \<and> recoveries rest = 0 \<and>
           resolveNodeCalls rest = 0 \<and>
           (\<forall>backendId. result = Inr backendId \<longrightarrow>
              rc_backendNodeMap (run_ctx run') encodedId = Some backendId \<and>
              (\<exists>pre contextId objectId. Recovery encodedId # rest = pre @
                 [RuntimeEvaluate session (the (rc_xpathMap (run_ctx run) encodedId)) contextId
                    (Inr (Some objectId)),
                  DOMDescribeNode session objectId (Inr (Some backendId)),
                  RuntimeReleaseObject session objectId]))) \<and>
         sameButBackendNodeMap (run_ctx run) (run_ctx run')"
  proof (cases "truthyString (rc_xpathMap (run_ctx run) encodedId)")
    case False
    then have "\<exists>e. result = Inl e" "run' = run0"
      using assms by (auto simp: recoverBackendNodeId_def Let_def run0_def)
    then show ?thesis using f0 by (auto intro!: exI[of _ "[]"])
  next
    case True
    have "recoverBackendNodeId browser encodedId session frameIndex frameInfo fid strict run =
        (if missing then
           (Inl (JsError (''[CDP][ElementResolver] Execution context missing for frame '' @
                          numberToString frameIndex @ '' ('' @ fid @ '')'')), run1)
         else evaluateXPath browser encodedId frameIndex session
                (the (rc_xpathMap (run_ctx run) encodedId)) contextId run1)"
      using True
      by (auto simp: recoverBackendNodeId_def Let_def run0_def[symmetric] f0 stored_def[symmetric]
                     waiting_def[symmetric] contextId_def run1_def missing_def
               split: prod.splits)
    then have unfolded: "(result, run') =
        (if missing then
           (Inl (JsError (''[CDP][ElementResolver] Execution context missing for frame '' @
                          numberToString frameIndex @ '' ('' @ fid @ '')'')), run1)
         else evaluateXPath browser encodedId frameIndex session
                (the (rc_xpathMap (run_ctx run) encodedId)) contextId run1)"
      using assms by simp
    show ?thesis
    proof (cases missing)
      case True
      then have "\<exists>e. result = Inl e" "run' = run1" using unfolded by simp_all
      then show ?thesis using f1 w by (auto intro!: exI[of _ waited])
    next
      case False
      then have ev: "evaluateXPath browser encodedId frameIndex session
                (the (rc_xpathMap (run_ctx run) encodedId)) contextId run1 = (result, run')"
        using unfolded by simp
      from evaluateXPath_events(1)[OF ev] obtain events where
        fe: "followsOn run1 run' events" and qe: "recoveries events = 0" "resolveNodeCalls events = 0"
        and re: "\<forall>backendId. result = Inr backendId \<longrightarrow>
              rc_backendNodeMap (run_ctx run') encodedId = Some backendId \<and>
              (\<exists>pre objectId. events = pre @
                 [RuntimeEvaluate session (the (rc_xpathMap (run_ctx run) encodedId)) contextId
                    (Inr (Some objectId)),
                  DOMDescribeNode session objectId (Inr (Some backendId)),
                  RuntimeReleaseObject session objectId])"
        by blast
      have 1: "followsOn run run' (Recovery encodedId # waited @ events)"
        using followsOn_trans[OF f1(1) fe] by simp
      have 2: "recoveries (waited @ events) = 0" "resolveNodeCalls (waited @ events) = 0"
        using w qe by simp_all
      have 3: "\<forall>backendId. result = Inr backendId \<longrightarrow>
              rc_backendNodeMap (run_ctx run') encodedId = Some backendId \<and>
              (\<exists>pre contextId objectId. Recovery encodedId # waited @ events = pre @
                 [RuntimeEvaluate session (the (rc_xpathMap (run_ctx run) encodedId)) contextId
                    (Inr (Some objectId)),
                  DOMDescribeNode session objectId (Inr (Some backendId)),
                  RuntimeReleaseObject session objectId])"
      proof (intro allI impI)
        fix backendId assume "result = Inr backendId"
        with re obtain pre objectId where
          "rc_backendNodeMap (run_ctx run') encodedId = Some backendId"
          "events = pre @
                 [RuntimeEvaluate session (the (rc_xpathMap (run_ctx run) encodedId)) contextId
                    (Inr (Some objectId)),
                  DOMDescribeNode session objectId (Inr (Some backendId)),
                  RuntimeReleaseObject session objectId]"
          by blast
        then show "rc_backendNodeMap (run_ctx run') encodedId = Some backendId \<and>
              (\<exists>pre contextId objectId. Recovery encodedId # waited @ events = pre @
                 [RuntimeEvaluate session (the (rc_xpathMap (run_ctx run) encodedId)) contextId
                    (Inr (Some objectId)),
                  DOMDescribeNode session objectId (Inr (Some backendId)),
                  RuntimeReleaseObject session objectId])"
          by (auto intro!: exI[of _ "Recovery encodedId # waited @ pre"])
      qed
      have 4: "sameButBackendNodeMap (run_ctx run) (run_ctx run')"
        using evaluateXPath_events(2)[OF ev] f1(2) by simp
      show ?thesis using 1 2 3 4 by blast
    qed
  qed
  show "\<exists>rest. followsOn run run' (Recovery encodedId # rest) \<and> recoveries rest = 0 \<and>
           resolveNodeCalls rest = 0 \<and>
           (\<forall>backendId. result = Inr backendId \<longrightarrow>
              rc_backendNodeMap (run_ctx run') encodedId = Some backendId \<and>
              (\<exists>pre contextId objectId. Recovery encodedId # rest = pre @
                 [RuntimeEvaluate session (the (rc_xpathMap (run_ctx run) encodedId)) contextId
                    (Inr (Some objectId)),
                  DOMDescribeNode session objectId (Inr (Some backendId)),
                  RuntimeReleaseObject session objectId]))"
    and "sameButBackendNodeMap (run_ctx run) (run_ctx run')"
    using all by blast+
qed

lemma returnResolved_cached:
  assumes "returnResolved encodedId session fid backendId objectId run = (result, run')"
  shows "\<exists>element. result = Inr element \<and> el_backendNodeId element = backendId \<and>
           el_session element = session \<and>
           rc_backendNodeMap (run_ctx run') encodedId = Some backendId \<and>
           cachedElement (run_ctx run') encodedId = Some element"
    and "sameFrames (run_ctx run) (run_ctx run')" and "followsOn run run' []"
  using assms
  by (auto simp: returnResolved_def rememberResolved_def Let_def cachedElement_def update_conv'
                 sameFrames_def followsOn_def)

lemma resolveWithRecovery_events:
  assumes "resolveWithRecovery browser encodedId session frameIndex frameInfo fid strict backendId
             run = (result, run')"
  shows "\<exists>first rest. followsOn run run' (DOMResolveNode session backendId first # rest) \<and>
           (if missingNodeFailure (DOMResolveNode session backendId first)
            then recoveries rest = 1 \<and> resolveNodeCalls rest \<le> 1 \<and>
                 (\<exists>more. rest = Recovery encodedId # more) \<and>
                 (\<forall>element. result = Inr element \<longrightarrow>
                    recoveredAndResolved session (the (rc_xpathMap (run_ctx run) encodedId))
                      (el_backendNodeId element) rest)
            else rest = []) \<and>
           sameFrames (run_ctx run) (run_ctx run') \<and>
           (\<forall>element. result = Inr element \<longrightarrow>
              rc_backendNodeMap (run_ctx run') encodedId = Some (el_backendNodeId element) \<and>
              el_session element = session \<and>
              cachedElement (run_ctx run') encodedId = Some element)"
proof -
  define first where "first = domResolveNode browser (run_trace run) session backendId"
  define run1 where "run1 = sendCommand browser (DOMResolveNode session backendId first) run"
  have f1: "followsOn run run1 [DOMResolveNode session backendId first]"
    and c1: "run_ctx run1 = run_ctx run"
    by (simp_all add: run1_def sendCommand_step)
  have unfolded: "(result, run') =
     (case first of
        Inr objectId \<Rightarrow> returnResolved encodedId session fid backendId objectId run1
      | Inl error \<Rightarrow>
          if \<not> isMissingNodeError error then (Inl error, run1)
          else
            (case recoverBackendNodeId browser encodedId session frameIndex frameInfo fid
                    strict run1 of
               (Inl error2, run2) \<Rightarrow> (Inl error2, run2)
             | (Inr backendId2, run2) \<Rightarrow>
                 (let second = domResolveNode browser (run_trace run2) session backendId2;
                      run3 = sendCommand browser (DOMResolveNode session backendId2 second) run2
                  in case second of
                       Inl error3 \<Rightarrow> (Inl error3, run3)
                     | Inr objectId \<Rightarrow>
                         returnResolved encodedId session fid backendId2 objectId run3)))"
    unfolding assms[symmetric] resolveWithRecovery_def Let_def run1_def first_def ..
  show ?thesis
  proof (cases first)
    case (Inr objectId)
    then have rr: "returnResolved encodedId session fid backendId objectId run1 = (result, run')"
      using unfolded by simp
    note rc = returnResolved_cached[OF rr]
    have "followsOn run run' (DOMResolveNode session backendId first # [])"
      using followsOn_trans[OF f1 rc(3)] by simp
    moreover have "\<not> missingNodeFailure (DOMResolveNode session backendId first)"
      using Inr by simp
    moreover have "sameFrames (run_ctx run) (run_ctx run')" using rc(2) c1 by simp
    ultimately show ?thesis using rc(1) by (intro exI[of _ first] exI[of _ "[]"]) auto
  next
    case (Inl error)
    show ?thesis
    proof (cases "isMissingNodeError error")
      case False
      then have "result = Inl error" "run' = run1" using unfolded Inl by simp_all
      moreover have "\<not> missingNodeFailure (DOMResolveNode session backendId first)"
        using Inl False by simp
      ultimately show ?thesis using f1 c1 by (intro exI[of _ first] exI[of _ "[]"]) auto
    next
      case True
      have mf: "missingNodeFailure (DOMResolveNode session backendId first)"
        using Inl True by simp
      obtain recovered run2 where rec:
        "recoverBackendNodeId browser encodedId session frameIndex frameInfo fid strict run1 =
           (recovered, run2)"
        by (cases "recoverBackendNodeId browser encodedId session frameIndex frameInfo fid strict
                     run1")
      from recoverBackendNodeId_events(1)[OF rec] obtain more where
        f2: "followsOn run1 run2 (Recovery encodedId # more)"
        and q2: "recoveries more = 0" "resolveNodeCalls more = 0"
        and r2: "\<forall>backendId2. recovered = Inr backendId2 \<longrightarrow>
              rc_backendNodeMap (run_ctx run2) encodedId = Some backendId2 \<and>
              (\<exists>pre contextId objectId. Recovery encodedId # more = pre @
                 [RuntimeEvaluate session (the (rc_xpathMap (run_ctx run1) encodedId)) contextId
                    (Inr (Some objectId)),
                  DOMDescribeNode session objectId (Inr (Some backendId2)),
                  RuntimeReleaseObject session objectId])"
        by blast
      have s2: "sameFrames (run_ctx run) (run_ctx run2)"
        using recoverBackendNodeId_events(2)[OF rec] c1
        by (simp add: sameButBackendNodeMap_sameFrames)
      have f12: "followsOn run run2 (DOMResolveNode session backendId first # Recovery encodedId # more)"
        using followsOn_trans[OF f1 f2] by simp
      show ?thesis
      proof (cases recovered)
        case (Inl error2)
        then have "result = Inl error2" "run' = run2" using unfolded \<open>first = Inl error\<close> True rec
          by simp_all
        then show ?thesis using f12 q2 s2 mf
          by (intro exI[of _ first] exI[of _ "Recovery encodedId # more"]) auto
      next
        case (Inr backendId2)
        define second where "second = domResolveNode browser (run_trace run2) session backendId2"
        define run3 where "run3 = sendCommand browser (DOMResolveNode session backendId2 second) run2"
        have f3: "followsOn run2 run3 [DOMResolveNode session backendId2 second]"
          and c3: "run_ctx run3 = run_ctx run2"
          by (simp_all add: run3_def sendCommand_step)
        have f13: "followsOn run run3 (DOMResolveNode session backendId first #
                     Recovery encodedId # more @ [DOMResolveNode session backendId2 second])"
          using followsOn_trans[OF f12 f3] by simp
        have unfolded2: "(result, run') =
            (case second of
               Inl error3 \<Rightarrow> (Inl error3, run3)
             | Inr objectId \<Rightarrow> returnResolved encodedId session fid backendId2 objectId run3)"
          unfolding second_def run3_def
          using unfolded \<open>first = Inl error\<close> True rec Inr
          by (simp add: Let_def)
        show ?thesis
        proof (cases second)
          case (Inl error3)
          then have "result = Inl error3" "run' = run3" using unfolded2 by simp_all
          then show ?thesis using f13 q2 s2 c3 mf
            by (intro exI[of _ first]
                      exI[of _ "Recovery encodedId # more @ [DOMResolveNode session backendId2 second]"])
               auto
        next
          case (Inr objectId)
          then have rr: "returnResolved encodedId session fid backendId2 objectId run3 =
                           (result, run')"
            using unfolded2 by simp
          note rc = returnResolved_cached[OF rr]
          from rc(1) obtain element where el: "result = Inr element"
            "el_backendNodeId element = backendId2" "el_session element = session"
            "rc_backendNodeMap (run_ctx run') encodedId = Some backendId2"
            "cachedElement (run_ctx run') encodedId = Some element"
            by blast
          have f: "followsOn run run' (DOMResolveNode session backendId first #
                     Recovery encodedId # more @ [DOMResolveNode session backendId2 second])"
            using followsOn_trans[OF f13 rc(3)] by simp
          have s: "sameFrames (run_ctx run) (run_ctx run')"
            using sameFrames_trans[OF s2] rc(2) c3 by simp
          from r2 \<open>recovered = Inr backendId2\<close> obtain pre contextId oid where
            shape: "Recovery encodedId # more = pre @
               [RuntimeEvaluate session (the (rc_xpathMap (run_ctx run) encodedId)) contextId
                  (Inr (Some oid)),
                DOMDescribeNode session oid (Inr (Some backendId2)),
                RuntimeReleaseObject session oid]"
            using c1 by auto
          have rr2: "recoveredAndResolved session (the (rc_xpathMap (run_ctx run) encodedId))
                  backendId2
                  (Recovery encodedId # more @ [DOMResolveNode session backendId2 second])"
            unfolding recoveredAndResolved_def
            using shape Inr
            by (intro exI[of _ pre] exI[of _ contextId] exI[of _ oid] exI[of _ objectId])
               (metis append_Cons append_assoc append_Nil)
          show ?thesis using f q2 s mf el rr2
            by (intro exI[of _ first]
                      exI[of _ "Recovery encodedId # more @ [DOMResolveNode session backendId2 second]"])
               auto
        qed
      qed
    qed
  qed
qed

lemma resolveFrameSession_managerCache:
  "resolveFrameSession ctx frameIndex frameInfo frameManager strict module = (r, module') \<Longrightarrow>
   managerCache module' = managerCache module"
  by (auto simp: resolveFrameSession_def getSessionCache_def Let_def
           split: option.splits sum.splits)

lemma frameManagerFor_cached:
  assumes "frameManagerFor ctx module = (frameManager, module1)"
      and "managerCache module2 = managerCache module1"
  shows "frameManagerFor ctx module2 = (frameManager, module2)"
  using assms
  by (auto simp: frameManagerFor_def getOrCreateFrameContextManager_def split: option.splits)

lemma storeManager_settled:
  assumes "storeManager run = (ctx', module')"
  shows "frameManagerFor ctx' module' = (run_manager run, module')"
    and "sameFrames (run_ctx run) ctx'"
    and "rc_backendNodeMap ctx' = rc_backendNodeMap (run_ctx run)"
    and "cachedElement ctx' encodedId = cachedElement (run_ctx run) encodedId"
  using assms
  by (auto simp: storeManager_def frameManagerFor_def getOrCreateFrameContextManager_def
                 sameFrames_def cachedElement_def split: option.splits)

lemma afterMissingNode_split:
  assumes "missingNodeFailure failed" and "\<forall>ev\<in>set pre. \<not> missingNodeFailure ev"
  shows "afterMissingNode (pre @ failed # rest) = rest"
  using assms by (simp add: afterMissingNode_def dropWhile_append2)

lemma resolveWithRecovery_trace:
  assumes "resolveWithRecovery browser encodedId session frameIndex frameInfo fid strict backendId
             run = (result, run')"
  shows "\<exists>events. run_trace run' = run_trace run @ events \<and>
           ((\<forall>ev\<in>set events. \<not> missingNodeFailure ev) \<or>
            recoveredOnce encodedId 0 events \<and>
            (\<forall>element. result = Inr element \<longrightarrow>
               recoveredAndResolved session (the (rc_xpathMap (run_ctx run) encodedId))
                 (el_backendNodeId element) (afterMissingNode events)))"
proof -
  from resolveWithRecovery_events[OF assms] obtain first rest where
    ev: "followsOn run run' (DOMResolveNode session backendId first # rest)"
    and sh: "if missingNodeFailure (DOMResolveNode session backendId first)
            then recoveries rest = 1 \<and> resolveNodeCalls rest \<le> 1 \<and>
                 (\<exists>more. rest = Recovery encodedId # more) \<and>
                 (\<forall>element. result = Inr element \<longrightarrow>
                    recoveredAndResolved session (the (rc_xpathMap (run_ctx run) encodedId))
                      (el_backendNodeId element) rest)
            else rest = []"
    by blast
  let ?events = "DOMResolveNode session backendId first # rest"
  have tr: "run_trace run' = run_trace run @ ?events" using ev by (simp add: followsOn_def)
  show ?thesis
  proof (cases "missingNodeFailure (DOMResolveNode session backendId first)")
    case False
    then have "\<forall>ev\<in>set ?events. \<not> missingNodeFailure ev" using sh by simp
    then show ?thesis using tr by blast
  next
    case True
    with sh obtain more where more: "rest = Recovery encodedId # more"
      and counts: "recoveries rest = 1" "resolveNodeCalls rest \<le> 1"
      and res: "\<forall>element. result = Inr element \<longrightarrow>
                    recoveredAndResolved session (the (rc_xpathMap (run_ctx run) encodedId))
                      (el_backendNodeId element) rest"
      by auto
    have "recoveredOnce encodedId 0 ?events"
      unfolding recoveredOnce_def
      using more counts True
      by (intro exI[of _ "[]"] exI[of _ "DOMResolveNode session backendId first"]
                exI[of _ rest] exI[of _ more]) simp
    moreover have "afterMissingNode ?events = rest"
      using afterMissingNode_split[of "DOMResolveNode session backendId first" "[]" rest] True
      by simp
    ultimately show ?thesis using res tr by auto
  qed
qed

lemma recoveredOnce_prepend:
  assumes "recoveredOnce encodedId 0 events"
      and "\<forall>ev\<in>set pre. \<not> missingNodeFailure ev" and "resolveNodeCalls pre = 0"
  shows "recoveredOnce encodedId (recoveries pre) (pre @ events)"
    and "afterMissingNode (pre @ events) = afterMissingNode events"
proof -
  from assms(1) obtain p failed rest more where
    sh: "events = p @ failed # rest" "missingNodeFailure failed"
        "\<forall>ev\<in>set p. \<not> missingNodeFailure ev" "recoveries p = 0" "resolveNodeCalls p = 0"
        "rest = Recovery encodedId # more" "recoveries more = 0" "resolveNodeCalls more \<le> 1"
    unfolding recoveredOnce_def by blast
  show "recoveredOnce encodedId (recoveries pre) (pre @ events)"
    unfolding recoveredOnce_def
    using sh assms(2,3)
    by (intro exI[of _ "pre @ p"] exI[of _ failed] exI[of _ rest] exI[of _ more]) auto
  have "afterMissingNode (pre @ events) = rest"
    using afterMissingNode_split[of failed "pre @ p" rest] sh assms(2) by auto
  moreover have "afterMissingNode events = rest"
    using afterMissingNode_split[of failed p rest] sh by auto
  ultimately show "afterMissingNode (pre @ events) = afterMissingNode events" by simp
qed

text \<open>
  What a call of \<open>resolveElement\<close> leaves behind, and the shape of its trace.
\<close>

lemma resolveElement_run:
  assumes "resolveElement browser encodedId ctx module = (result, ctx', module', trace)"
  shows "sameFrames ctx ctx' \<and>
         (\<exists>manager'. frameManagerFor ctx' module' = (manager', module')) \<and>
         (\<forall>element. result = Inr element \<longrightarrow>
            rc_backendNodeMap ctx' encodedId = Some (el_backendNodeId element) \<and>
            cachedElement ctx' encodedId = Some element \<and>
            (parseFrameIndex encodedId = Num 0 \<or>
             frameMap_get (rc_frameMap ctx) (parseFrameIndex encodedId) \<noteq> None)) \<and>
         ((\<forall>ev\<in>set trace. \<not> missingNodeFailure ev) \<or>
          recoveredOnce encodedId (if rc_backendNodeMap ctx encodedId = None then 1 else 0) trace \<and>
          (\<forall>element. result = Inr element \<longrightarrow>
             recoveredAndResolved (el_session element) (the (rc_xpathMap ctx encodedId))
               (el_backendNodeId element) (afterMissingNode trace)))"
proof -
  define frameIndex where "frameIndex = parseFrameIndex encodedId"
  define frameInfo where
    "frameInfo = (if frameIndex = Num 0 then None else frameMap_get (rc_frameMap ctx) frameIndex)"
  obtain frameManager module1 where fm: "frameManagerFor ctx module = (frameManager, module1)"
    by (cases "frameManagerFor ctx module")
  define strict where "strict = (rc_strictFrameValidation ctx = Some True)"
  define noFrame where "noFrame \<longleftrightarrow> frameIndex \<noteq> Num 0 \<and> frameInfo = None"
  define hit where "hit \<longleftrightarrow> cachedElement ctx encodedId \<noteq> None \<and>
     rc_backendNodeMap ctx encodedId = Some (el_backendNodeId (the (cachedElement ctx encodedId)))"
  obtain located module2 where fs:
    "resolveFrameSession ctx frameIndex frameInfo frameManager strict module1 = (located, module2)"
    by (cases "resolveFrameSession ctx frameIndex frameInfo frameManager strict module1")
  have mc2: "managerCache module2 = managerCache module1"
    using resolveFrameSession_managerCache[OF fs] .
  have settled1: "frameManagerFor ctx module1 = (frameManager, module1)"
    using frameManagerFor_cached[OF fm refl] .
  have settled2: "frameManagerFor ctx module2 = (frameManager, module2)"
    using frameManagerFor_cached[OF fm mc2] .
  define run where "run = \<lparr>run_ctx = ctx, run_module = module2, run_manager = frameManager,
                            run_trace = []\<rparr>"
  have unfolded: "(result, ctx', module', trace) =
     (if noFrame then
        (Inl (JsError (''Frame metadata not found for frameIndex '' @ numberToString frameIndex @
                       '' (encodedId '' @ encodedId @ '')'')), ctx, module1, [])
      else if hit then (Inr (the (cachedElement ctx encodedId)), ctx, module1, [])
      else
        (case located of
           Inl error \<Rightarrow> (Inl error, ctx, module2, [])
         | Inr (session, fid) \<Rightarrow>
             (let (result, run') =
                    (case rc_backendNodeMap ctx encodedId of
                       Some backendId \<Rightarrow>
                         resolveWithRecovery browser encodedId session frameIndex frameInfo fid
                           strict backendId run
                     | None \<Rightarrow>
                         (case recoverBackendNodeId browser encodedId session frameIndex
                                 frameInfo fid strict run of
                            (Inl error, run1) \<Rightarrow> (Inl error, run1)
                          | (Inr backendId, run1) \<Rightarrow>
                              resolveWithRecovery browser encodedId session frameIndex frameInfo
                                fid strict backendId run1));
                  (ctx', module') = storeManager run'
              in (result, ctx', module', run_trace run'))))"
    unfolding assms[symmetric] resolveElement_def Let_def fm prod.case
      frameIndex_def[symmetric] frameInfo_def[symmetric] strict_def[symmetric]
      cachedElement_def[symmetric] noFrame_def hit_def run_def fs
    by (simp add: fs)
  have frame_ok: "\<not> noFrame \<Longrightarrow> parseFrameIndex encodedId = Num 0 \<or>
             frameMap_get (rc_frameMap ctx) (parseFrameIndex encodedId) \<noteq> None"
    by (auto simp: noFrame_def frameInfo_def frameIndex_def split: if_splits)
  show ?thesis
  proof (cases noFrame)
    case True
    then show ?thesis using unfolded settled1 by simp
  next
    case nf: False
    show ?thesis
    proof (cases hit)
      case True
      then show ?thesis using unfolded settled1 nf frame_ok by (auto simp: hit_def)
    next
      case nh: False
      show ?thesis
      proof (cases located)
        case (Inl error)
        then show ?thesis using unfolded settled2 nf nh by simp
      next
        case (Inr pair)
        obtain session fid where pair: "pair = (session, fid)" by (cases pair)
        define inner where "inner =
           (case rc_backendNodeMap ctx encodedId of
              Some backendId \<Rightarrow>
                resolveWithRecovery browser encodedId session frameIndex frameInfo fid
                  strict backendId run
            | None \<Rightarrow>
                (case recoverBackendNodeId browser encodedId session frameIndex
                        frameInfo fid strict run of
                   (Inl error, run1) \<Rightarrow> (Inl error, run1)
                 | (Inr backendId, run1) \<Rightarrow>
                     resolveWithRecovery browser encodedId session frameIndex frameInfo
                       fid strict backendId run1))"
        obtain r run' where inner_eq: "inner = (r, run')" by (cases inner)
        obtain c m where st: "storeManager run' = (c, m)" by (cases "storeManager run'")
        have eq: "result = r" "ctx' = c" "module' = m" "trace = run_trace run'"
          using unfolded nf nh Inr pair inner_eq st
          by (simp_all add: inner_def[symmetric])
        note sm = storeManager_settled[OF st]
        have rc0: "run_ctx run = ctx" "run_trace run = []" by (simp_all add: run_def)
        text \<open>What the inner part of the call establishes.\<close>
        have inner_facts:
          "sameFrames ctx (run_ctx run') \<and>
           (\<forall>element. r = Inr element \<longrightarrow>
              rc_backendNodeMap (run_ctx run') encodedId = Some (el_backendNodeId element) \<and>
              el_session element = session \<and>
              cachedElement (run_ctx run') encodedId = Some element) \<and>
           ((\<forall>ev\<in>set (run_trace run'). \<not> missingNodeFailure ev) \<or>
            recoveredOnce encodedId (if rc_backendNodeMap ctx encodedId = None then 1 else 0)
              (run_trace run') \<and>
            (\<forall>element. r = Inr element \<longrightarrow>
               recoveredAndResolved session (the (rc_xpathMap ctx encodedId))
                 (el_backendNodeId element) (afterMissingNode (run_trace run'))))"
        proof (cases "rc_backendNodeMap ctx encodedId")
          case (Some backendId)
          then have w: "resolveWithRecovery browser encodedId session frameIndex frameInfo fid
                    strict backendId run = (r, run')"
            using inner_eq by (simp add: inner_def)
          from resolveWithRecovery_events[OF w]
          have a: "sameFrames ctx (run_ctx run')"
            and b: "\<forall>element. r = Inr element \<longrightarrow>
              rc_backendNodeMap (run_ctx run') encodedId = Some (el_backendNodeId element) \<and>
              el_session element = session \<and>
              cachedElement (run_ctx run') encodedId = Some element"
            using rc0 by auto
          from resolveWithRecovery_trace[OF w] obtain events where
            "run_trace run' = events"
            "(\<forall>ev\<in>set events. \<not> missingNodeFailure ev) \<or>
             recoveredOnce encodedId 0 events \<and>
             (\<forall>element. r = Inr element \<longrightarrow>
                recoveredAndResolved session (the (rc_xpathMap ctx encodedId))
                  (el_backendNodeId element) (afterMissingNode events))"
            using rc0 by auto
          then show ?thesis using a b Some by auto
        next
          case None
          obtain recovered run1 where rec:
            "recoverBackendNodeId browser encodedId session frameIndex frameInfo fid strict run =
               (recovered, run1)"
            by (cases "recoverBackendNodeId browser encodedId session frameIndex frameInfo fid
                         strict run")
          from recoverBackendNodeId_events(1)[OF rec] obtain more where
            f1: "run_trace run1 = Recovery encodedId # more"
            and q1: "recoveries more = 0" "resolveNodeCalls more = 0"
            using rc0 by (auto simp: followsOn_def)
          have s1: "sameFrames ctx (run_ctx run1)"
            using recoverBackendNodeId_events(2)[OF rec] rc0
            by (simp add: sameButBackendNodeMap_sameFrames)
          have nf1: "\<forall>ev\<in>set (run_trace run1). \<not> missingNodeFailure ev"
            using no_resolveNode_no_failure[OF q1(2)] f1 by simp
          show ?thesis
          proof (cases recovered)
            case (Inl error)
            then have "r = Inl error" "run' = run1"
              using inner_eq None rec by (simp_all add: inner_def)
            then show ?thesis using s1 nf1 by simp
          next
            case (Inr backendId)
            then have w: "resolveWithRecovery browser encodedId session frameIndex frameInfo fid
                    strict backendId run1 = (r, run')"
              using inner_eq None rec by (simp add: inner_def)
            from resolveWithRecovery_events[OF w]
            have a: "sameFrames (run_ctx run1) (run_ctx run')"
              and b: "\<forall>element. r = Inr element \<longrightarrow>
                rc_backendNodeMap (run_ctx run') encodedId = Some (el_backendNodeId element) \<and>
                el_session element = session \<and>
                cachedElement (run_ctx run') encodedId = Some element"
              by auto
            have xp: "rc_xpathMap (run_ctx run1) encodedId = rc_xpathMap ctx encodedId"
              using s1 by (simp add: sameFrames_def)
            from resolveWithRecovery_trace[OF w] obtain events where
              tr: "run_trace run' = run_trace run1 @ events"
              and sh: "(\<forall>ev\<in>set events. \<not> missingNodeFailure ev) \<or>
                 recoveredOnce encodedId 0 events \<and>
                 (\<forall>element. r = Inr element \<longrightarrow>
                    recoveredAndResolved session (the (rc_xpathMap ctx encodedId))
                      (el_backendNodeId element) (afterMissingNode events))"
              using xp by auto
            have pre: "resolveNodeCalls (run_trace run1) = 0" "recoveries (run_trace run1) = 1"
              using f1 q1 by simp_all
            have t: "(\<forall>ev\<in>set (run_trace run'). \<not> missingNodeFailure ev) \<or>
                recoveredOnce encodedId 1 (run_trace run') \<and>
                (\<forall>element. r = Inr element \<longrightarrow>
                   recoveredAndResolved session (the (rc_xpathMap ctx encodedId))
                     (el_backendNodeId element) (afterMissingNode (run_trace run')))"
            proof (cases "\<forall>ev\<in>set events. \<not> missingNodeFailure ev")
              case True
              then show ?thesis using nf1 tr by auto
            next
              case False
              with sh have once: "recoveredOnce encodedId 0 events"
                and rr: "\<forall>element. r = Inr element \<longrightarrow>
                     recoveredAndResolved session (the (rc_xpathMap ctx encodedId))
                       (el_backendNodeId element) (afterMissingNode events)"
                by blast+
              from recoveredOnce_prepend[OF once nf1 pre(1)]
              have "recoveredOnce encodedId 1 (run_trace run')"
                   "afterMissingNode (run_trace run') = afterMissingNode events"
                using pre(2) tr by simp_all
              then show ?thesis using rr by simp
            qed
            show ?thesis using sameFrames_trans[OF s1 a] b t None by simp
          qed
        qed
        have s: "sameFrames ctx ctx'"
          using inner_facts sm(2) eq sameFrames_trans by blast
        have settled: "\<exists>manager'. frameManagerFor ctx' module' = (manager', module')"
          using sm(1) eq by blast
        have res: "\<forall>element. result = Inr element \<longrightarrow>
            rc_backendNodeMap ctx' encodedId = Some (el_backendNodeId element) \<and>
            el_session element = session \<and> cachedElement ctx' encodedId = Some element"
          using inner_facts sm(3) sm(4)[of encodedId] eq by simp
        have tr: "(\<forall>ev\<in>set trace. \<not> missingNodeFailure ev) \<or>
          recoveredOnce encodedId (if rc_backendNodeMap ctx encodedId = None then 1 else 0) trace \<and>
          (\<forall>element. result = Inr element \<longrightarrow>
             recoveredAndResolved (el_session element) (the (rc_xpathMap ctx encodedId))
               (el_backendNodeId element) (afterMissingNode trace))"
          using inner_facts res eq by auto
        show ?thesis using s settled res tr frame_ok[OF nf] by blast
      qed
    qed
  qed
qed

text \<open>The example page, evaluated.\<close>

lemma parseFrameIndex_2_5: "parseFrameIndex ''2-5'' = Num 2"
  by (simp add: parseFrameIndex_def parseInt10_def Let_def isWhiteSpace_def isDigit_def
                decimalValue_def digitValue_def roundToDouble_def)

lemma framed_manager_lookups:
  "getFrameIdByNumber framed_manager (Num 2) = Some ''F2''"
  "getFrameSession framed_manager ''F2'' = Some (Session ''root'' None)"
  "getExecutionContextId framed_manager ''F2'' = None"
  "map_of (frameExecutionContexts framed_manager) ''F2'' = None"
  "getExecutionContextId (createdHandler 42 (Some ''F2'') None 7 framed_manager) ''F2'' = Some 42"
  by code_simp+

lemma framed_manager_wait:
  "waitForExecutionContext framed_manager ''F2'' (Some (42, 7)) =
     (Some 42, createdHandler 42 (Some ''F2'') None 7 framed_manager)"
  by (simp add: waitForExecutionContext_def framed_manager_lookups)


lemma unmapped_button_context_fields:
  "rc_backendNodeMap unmapped_button_context = Map.empty"
  "rc_xpathMap unmapped_button_context = [''2-5'' \<mapsto> ''//button[1]'']"
  "rc_resolvedElementsCache unmapped_button_context = Some []"
  "rc_strictFrameValidation unmapped_button_context = Some True"
  "rc_frameContextManager unmapped_button_context = Some framed_manager"
  "rc_frameMap unmapped_button_context = Some [(2, inner_frame_info)]"
  "rc_cdpClient unmapped_button_context = 0"
  by (simp_all add: unmapped_button_context_def button_context_def)

lemma inner_frame_info_context: "if_executionContextId inner_frame_info = None"
  by (simp add: inner_frame_info_def)

lemma missing_node_message: "isMissingNodeError (JsError ''No node with given id found'')"
  by (simp add: isMissingNodeError_def startsWith_def)


lemma unmapped_button_frame_session:
  "resolveFrameSession unmapped_button_context (Num 2) (Some inner_frame_info) framed_manager True
     emptyResolverModule =
     (Inr (Session ''root'' None, ''F2''),
      emptyResolverModule\<lparr>sessionCache := [0 \<mapsto> [(Num 2, Session ''root'' None)]]\<rparr>)"
  by (simp add: resolveFrameSession_def getSessionCache_def emptyResolverModule_def
                unmapped_button_context_fields resolveFrameId_def framed_manager_lookups
                truthyString_def)


text \<open>
  Without the backend node id the call recovers it before the first \<open>DOM.resolveNode\<close>,
  waiting for the execution context of the frame; the recovery after the failure finds
  that context in the manager and does not wait again.
\<close>

lemma unmapped_node_run:
  "resolveElement stale_node_browser ''2-5'' unmapped_button_context emptyResolverModule =
     (Inr button_element,
      unmapped_button_context\<lparr>rc_backendNodeMap := [''2-5'' \<mapsto> 9],
        rc_resolvedElementsCache := Some [(''2-5'', button_element)],
        rc_frameContextManager := Some (createdHandler 42 (Some ''F2'') None 7 framed_manager)\<rparr>,
      \<lparr>sessionCache = [0 \<mapsto> [(Num 2, Session ''root'' None)]],
       domEnabledSessions = {Session ''root'' None},
       runtimeEnabledSessions = {Session ''root'' None},
       managerCache = Map.empty\<rparr>,
      [Recovery ''2-5'',
       Waited ''F2'' (Some 42),
       RuntimeEnable (Session ''root'' None),
       DOMEnable (Session ''root'' None),
       RuntimeEvaluate (Session ''root'' None) ''//button[1]'' (Some 42) (Inr (Some ''object-1'')),
       DOMDescribeNode (Session ''root'' None) ''object-1'' (Inr (Some 9)),
       RuntimeReleaseObject (Session ''root'' None) ''object-1'',
       DOMResolveNode (Session ''root'' None) 9 (Inl (JsError ''No node with given id found'')),
       Recovery ''2-5'',
       RuntimeEvaluate (Session ''root'' None) ''//button[1]'' (Some 42) (Inr (Some ''object-1'')),
       DOMDescribeNode (Session ''root'' None) ''object-1'' (Inr (Some 9)),
       RuntimeReleaseObject (Session ''root'' None) ''object-1'',
       DOMResolveNode (Session ''root'' None) 9 (Inr (Some ''remote-1''))])"
  apply (simp add: resolveElement_def parseFrameIndex_2_5 frameManagerFor_def
                   unmapped_button_frame_session Let_def unmapped_button_context_fields
                   frameMap_get_def)
  apply (simp add: resolveWithRecovery_def stale_node_browser_def missing_node_message Let_def
                   recoverBackendNodeId_def truthyString_def truthyNumber_def sendCommand_def
                   framed_manager_lookups framed_manager_wait inner_frame_info_context
                   orElse_def evaluateXPath_def ensureRuntimeEnabled_def
                   ensureDomEnabled_def emptyResolverModule_def describeAndRelease_def
                   returnResolved_def rememberResolved_def storeManager_def button_element_def
                   unmapped_button_context_fields)
  done

section \<open>One recovery after a missing node\<close>



section \<open>The resolved-element cache\<close>

text \<open>
  Claim C10. After a successful \<open>resolveElement\<close>, \<open>backendNodeMap\<close> holds the backend node
  id of the returned element for the encoded id and the resolved-element cache of the
  context holds the returned element; calling \<open>resolveElement\<close> again at once, with the
  context and the module tables as the first call left them, returns the same element
  and changes nothing, whatever the browser would answer: no CDP command is sent.
\<close>

theorem resolveElement_repeated_from_cache:
  assumes "resolveElement browser encodedId ctx module = (Inr element, ctx', module', trace)"
  shows "rc_backendNodeMap ctx' encodedId = Some (el_backendNodeId element) \<and>
         cachedElement ctx' encodedId = Some element \<and>
         (\<forall>browser'. resolveElement browser' encodedId ctx' module' =
                        (Inr element, ctx', module', []))"
proof -
  from resolveElement_run[OF assms]
  have sf: "sameFrames ctx ctx'"
    and bn: "rc_backendNodeMap ctx' encodedId = Some (el_backendNodeId element)"
    and ce: "cachedElement ctx' encodedId = Some element"
    and fr: "parseFrameIndex encodedId = Num 0 \<or>
             frameMap_get (rc_frameMap ctx) (parseFrameIndex encodedId) \<noteq> None"
    by simp_all
  from resolveElement_run[OF assms] obtain manager' where
    fm': "frameManagerFor ctx' module' = (manager', module')"
    by blast
  have ffm: "rc_frameMap ctx' = rc_frameMap ctx" using sf by (simp add: sameFrames_def)
  have "resolveElement browser' encodedId ctx' module' = (Inr element, ctx', module', [])"
    for browser'
    using fr bn ce
    by (auto simp: resolveElement_def Let_def fm' ffm cachedElement_def[symmetric])
  then show ?thesis using bn ce by simp
qed

text \<open>
  The theorem at the example page, for the snapshot without the backend node id of the
  button: the call succeeds after two recoveries, and the element it resolved is returned
  again from the cache.
\<close>

theorem resolveElement_repeated_from_cache_witness:
  "fst (resolveElement stale_node_browser ''2-5'' unmapped_button_context emptyResolverModule) =
     Inr button_element \<and>
   rc_backendNodeMap
     (contextAfter (resolveElement stale_node_browser ''2-5'' unmapped_button_context
                      emptyResolverModule)) ''2-5'' = Some 9 \<and>
   (\<forall>browser'.
      resolveElement browser' ''2-5''
        (contextAfter (resolveElement stale_node_browser ''2-5'' unmapped_button_context
                         emptyResolverModule))
        (moduleAfter (resolveElement stale_node_browser ''2-5'' unmapped_button_context
                        emptyResolverModule)) =
      (Inr button_element,
       contextAfter (resolveElement stale_node_browser ''2-5'' unmapped_button_context
                       emptyResolverModule),
       moduleAfter (resolveElement stale_node_browser ''2-5'' unmapped_button_context
                      emptyResolverModule),
       []))"
proof -
  have run: "resolveElement stale_node_browser ''2-5'' unmapped_button_context emptyResolverModule =
     (Inr button_element,
      contextAfter (resolveElement stale_node_browser ''2-5'' unmapped_button_context
                      emptyResolverModule),
      moduleAfter (resolveElement stale_node_browser ''2-5'' unmapped_button_context
                     emptyResolverModule),
      traceOf (resolveElement stale_node_browser ''2-5'' unmapped_button_context
                 emptyResolverModule))"
    by (simp add: unmapped_node_run contextAfter_def moduleAfter_def traceOf_def)
  have first: "fst (resolveElement stale_node_browser ''2-5'' unmapped_button_context
                      emptyResolverModule) = Inr button_element"
    by (simp add: unmapped_node_run)
  from resolveElement_repeated_from_cache[OF run] first
  show ?thesis by (simp add: button_element_def)
qed


section \<open>Action results\<close>

text \<open>
  Claim C8. \<open>performAction\<close> never throws: for every context, element id, method and
  argument list, and whatever the CDP and Playwright operations do, it returns a result
  with a success flag and a message. The flag is set exactly when the operations of the
  chosen path all succeeded. An element id that is not of the form digits-hyphen-digits,
  or that is not a key of the snapshot's \<open>elements\<close>, gives \<open>success = False\<close> with a
  message naming the id, and no CDP or Playwright operation is started.
\<close>

theorem performAction_never_throws:
  "(\<exists>out. fst (performAction playwright ctx params) = Inr out \<and>
          (success out \<longrightarrow> message out = ''Successfully executed: '' @ p_instruction params) \<and>
          (\<not> success out \<longrightarrow>
             startsWith (message out) (''Failed to execute '' @ quoted (p_instruction params)))) \<and>
   (\<not> isEncodedId (p_elementId params) \<longrightarrow>
      performAction playwright ctx params =
        (Inr \<lparr>success = False,
              message = ''Failed to execute '' @ quoted (p_instruction params) @ '': elementId '' @
                        quoted (p_elementId params) @
                        '' is not in encoded format (frameIndex-backendNodeId).'',
              debug = None\<rparr>, [])) \<and>
   (isEncodedId (p_elementId params) \<and>
    map_of (elements (ac_domState ctx)) (p_elementId params) = None \<longrightarrow>
      performAction playwright ctx params =
        (Inr \<lparr>success = False,
              message = ''Failed to execute '' @ quoted (p_instruction params) @ '': elementId '' @
                        quoted (p_elementId params) @ '' not present in current DOM.'',
              debug = None\<rparr>, [])) \<and>
   (isEncodedId (p_elementId params) \<and>
    map_of (elements (ac_domState ctx)) (p_elementId params) \<noteq> None \<longrightarrow>
      (\<forall>out. fst (performAction playwright ctx params) = Inr out \<longrightarrow>
         (success out \<longleftrightarrow>
            fst (if ac_cdp ctx \<noteq> None \<and> ac_cdpActions ctx \<noteq> Some False
                 then cdpPath ctx (the (ac_cdp ctx)) (p_elementId params) (p_method params)
                        (case p_arguments params of None \<Rightarrow> [] | Some given \<Rightarrow> given)
                 else playwrightPath playwright ctx (p_elementId params) (p_method params)
                        (case p_arguments params of None \<Rightarrow> [] | Some given \<Rightarrow> given)) =
            Inr ())))"
  by (auto simp: performAction_def Let_def startsWith_def
           split: option.splits sum.splits prod.splits)

text \<open>
  The theorem at the one-button snapshot: the ids \<open>5\<close> (not an encoded id) and \<open>0-7\<close>
  (not in the snapshot) are refused before any operation, and a click on \<open>0-5\<close> succeeds.
\<close>

theorem performAction_never_throws_witness:
  "\<not> isEncodedId ''5'' \<and>
   performAction willing_playwright button_action_context (click_params ''5'') =
     (Inr \<lparr>success = False,
           message = ''Failed to execute '' @ quoted ''click OK'' @ '': elementId '' @ quoted ''5'' @
                     '' is not in encoded format (frameIndex-backendNodeId).'',
           debug = None\<rparr>, []) \<and>
   isEncodedId ''0-7'' \<and> map_of (elements button_snapshot) ''0-7'' = None \<and>
   performAction willing_playwright button_action_context (click_params ''0-7'') =
     (Inr \<lparr>success = False,
           message = ''Failed to execute '' @ quoted ''click OK'' @ '': elementId '' @
                     quoted ''0-7'' @ '' not present in current DOM.'',
           debug = None\<rparr>, []) \<and>
   (\<exists>out. fst (performAction willing_playwright button_action_context (click_params ''0-5'')) =
            Inr out \<and> success out \<and> message out = ''Successfully executed: click OK'')"
proof -
  have ids: "\<not> isEncodedId ''5''" "isEncodedId ''0-7''" "isEncodedId ''0-5''"
    by (simp_all add: isEncodedId_def isDigit_def)
  have absent: "map_of (elements (ac_domState button_action_context)) ''0-7'' = None"
    and present: "map_of (elements (ac_domState button_action_context)) ''0-5'' \<noteq> None"
    by (simp_all add: button_action_context_def button_snapshot_def)
  have chosen: "fst (playwrightPath willing_playwright button_action_context ''0-5'' ''click'' []) =
      Inr ()"
    by (simp add: playwrightPath_def willing_playwright_def)
  have off: "ac_cdp button_action_context = None" by (simp add: button_action_context_def)
  note at5 = performAction_never_throws[of willing_playwright button_action_context "click_params ''5''"]
  note at7 = performAction_never_throws[of willing_playwright button_action_context "click_params ''0-7''"]
  note at05 = performAction_never_throws[of willing_playwright button_action_context "click_params ''0-5''"]
  have 1: "performAction willing_playwright button_action_context (click_params ''5'') =
     (Inr \<lparr>success = False,
           message = ''Failed to execute '' @ quoted ''click OK'' @ '': elementId '' @ quoted ''5'' @
                     '' is not in encoded format (frameIndex-backendNodeId).'',
           debug = None\<rparr>, [])"
    using at5 ids(1) by (simp add: click_params_def)
  have 2: "performAction willing_playwright button_action_context (click_params ''0-7'') =
     (Inr \<lparr>success = False,
           message = ''Failed to execute '' @ quoted ''click OK'' @ '': elementId '' @
                     quoted ''0-7'' @ '' not present in current DOM.'',
           debug = None\<rparr>, [])"
    using at7 ids(2) absent by (simp add: click_params_def)
  have 3: "\<exists>out. fst (performAction willing_playwright button_action_context (click_params ''0-5'')) =
            Inr out \<and> success out \<and> message out = ''Successfully executed: click OK''"
    using at05 ids(3) present chosen off by (auto simp: click_params_def)
  show ?thesis using 1 2 3 ids absent by (simp add: button_action_context_def)
qed

end
